theory Spec2Isabelle
  imports Complex_Main
begin

section \<open>JavaScript strings\<close>

text \<open>
  Texts are HOL strings: lists of 8-bit characters, read as the code units of the
  JavaScript string. Code units above 255 are outside this model; every claim below is
  about ASCII material (hex colours, CSS custom-property names, file names).
\<close>

definition lowerAlpha :: string where
  "lowerAlpha = ''abcdefghijklmnopqrstuvwxyz''"

definition upperAlpha :: string where
  "upperAlpha = ''ABCDEFGHIJKLMNOPQRSTUVWXYZ''"

definition decDigits :: string where
  "decDigits = ''0123456789''"

definition is_alpha :: "char \<Rightarrow> bool" where
  "is_alpha c = (c \<in> set (lowerAlpha @ upperAlpha))"

definition is_digit :: "char \<Rightarrow> bool" where
  "is_digit c = (c \<in> set decDigits)"

text \<open>The class \<open>[A-Fa-f0-9]\<close>.\<close>

definition is_hex :: "char \<Rightarrow> bool" where
  "is_hex c = (c \<in> set ''0123456789abcdefABCDEF'')"

text \<open>
  \<open>\s\<close> of a JavaScript regular expression, on code units below 256: tab, line feed,
  vertical tab, form feed, carriage return, space and the no-break space. \<open>trim\<close> strips
  the same set.
\<close>

definition is_space :: "char \<Rightarrow> bool" where
  "is_space c = (c \<in> {CHR 0x09, CHR 0x0A, CHR 0x0B, CHR 0x0C, CHR 0x0D, CHR 0x20, CHR 0xA0})"

text \<open>Line terminators (for \<open>^\<close> under the \<open>m\<close> flag), on code units below 256.\<close>

definition is_line_terminator :: "char \<Rightarrow> bool" where
  "is_line_terminator c = (c \<in> {CHR 0x0A, CHR 0x0D})"

text \<open>
  \<open>String.prototype.toUpperCase\<close> and \<open>toLowerCase\<close> on code units below 256. Upper
  case: the letters a-z and the Latin-1 letters \<open>0xE0\<close> to \<open>0xFE\<close> (without the division
  sign \<open>0xF7\<close>) move down by \<open>0x20\<close>, and the sharp s \<open>0xDF\<close> becomes the two letters
  \<open>SS\<close>. The upper case of the micro sign \<open>0xB5\<close> and of \<open>0xFF\<close> is a code unit above 255
  (\<open>U+039C\<close>, \<open>U+0178\<close>): no text of this model is the result, and the model leaves it
  unspecified. Lower case: the letters A-Z and \<open>0xC0\<close> to \<open>0xDE\<close> (without the
  multiplication sign \<open>0xD7\<close>) move up by \<open>0x20\<close>. Every other code unit is kept.
\<close>

definition upper_char :: "char \<Rightarrow> char" where
  "upper_char c =
     (case map_of (zip lowerAlpha upperAlpha) c of
        Some u \<Rightarrow> u
      | None \<Rightarrow>
          if 0xE0 \<le> (of_char c :: nat) \<and> (of_char c :: nat) \<le> 0xFE \<and> c \<noteq> CHR 0xF7
          then char_of ((of_char c :: nat) - 0x20) else c)"

definition lower_char :: "char \<Rightarrow> char" where
  "lower_char c =
     (case map_of (zip upperAlpha lowerAlpha) c of
        Some l \<Rightarrow> l
      | None \<Rightarrow>
          if 0xC0 \<le> (of_char c :: nat) \<and> (of_char c :: nat) \<le> 0xDE \<and> c \<noteq> CHR 0xD7
          then char_of ((of_char c :: nat) + 0x20) else c)"

definition upper_units :: "char \<Rightarrow> string" where
  "upper_units c =
     (if c = CHR 0xDF then ''SS''
      else if c = CHR 0xB5 \<or> c = CHR 0xFF then undefined
      else [upper_char c])"

definition toUpperCase :: "string \<Rightarrow> string" where
  "toUpperCase s = concat (map upper_units s)"

definition toLowerCase :: "string \<Rightarrow> string" where
  "toLowerCase s = map lower_char s"

definition startsWith :: "string \<Rightarrow> string \<Rightarrow> bool" where
  "startsWith s p = (take (length p) s = p)"

text \<open>\<open>s.replace(pat, rep)\<close> for a string pattern of one character and a replacement
  without \<open>$\<close>: the first occurrence is replaced.\<close>

fun replace_first_char :: "char \<Rightarrow> string \<Rightarrow> string \<Rightarrow> string" where
  "replace_first_char p r [] = []"
| "replace_first_char p r (c # s) = (if c = p then r @ s else c # replace_first_char p r s)"

section \<open>The theme generator (generator.ts)\<close>

subsection \<open>Data model (types.ts)\<close>

datatype SchemeVariant =
  TonalSpot | Content | Expressive | Fidelity | Monochrome | Neutral | Vibrant

text \<open>Objects whose keys are written in a fixed order are association lists.\<close>

type_synonym SchemeColors = "(string \<times> string) list"

type_synonym TonalPaletteColors = "(string \<times> string) list"

record Schemes =
  light :: SchemeColors
  light_medium_contrast :: SchemeColors
  light_high_contrast :: SchemeColors
  dark :: SchemeColors
  dark_medium_contrast :: SchemeColors
  dark_high_contrast :: SchemeColors

record Palettes =
  pal_primary :: TonalPaletteColors
  pal_secondary :: TonalPaletteColors
  pal_tertiary :: TonalPaletteColors
  pal_neutral :: TonalPaletteColors
  pal_neutral_variant :: TonalPaletteColors

record CoreColors =
  primary :: string

record MaterialTheme =
  description :: string
  seed :: string
  coreColors :: CoreColors
  extendedColors :: "unit list"
  schemes :: Schemes
  palettes :: Palettes

definition TONE_VALUES :: "nat list" where
  "TONE_VALUES = [0, 5, 10, 15, 20, 25, 30, 35, 40, 50, 60, 70, 80, 90, 95, 98, 99, 100]"

subsection \<open>The colour engine\<close>

text \<open>
  The perceptual colour engine (\<open>@material/material-color-utilities\<close>) is an external
  collaborator. It is a parameter of the model: a record of the functions the generator
  calls. \<open>argbFromHex\<close> may throw (\<open>Inl\<close> carries the message); the other functions
  are total and deterministic.
\<close>

record ('hct, 'scheme, 'pal) engine =
  argbFromHex :: "string \<Rightarrow> string + nat"
  hctFromInt :: "nat \<Rightarrow> 'hct"
  newScheme :: "SchemeVariant \<Rightarrow> 'hct \<Rightarrow> bool \<Rightarrow> real \<Rightarrow> 'scheme"
  schemeRole :: "'scheme \<Rightarrow> string \<Rightarrow> nat"
  schemePalette :: "'scheme \<Rightarrow> string \<Rightarrow> 'pal"
  paletteTone :: "'pal \<Rightarrow> nat \<Rightarrow> nat"
  hexFromArgbLower :: "nat \<Rightarrow> string"

definition CONTRAST_standard :: real where "CONTRAST_standard = 0.0"
definition CONTRAST_medium :: real where "CONTRAST_medium = 0.5"
definition CONTRAST_high :: real where "CONTRAST_high = 1.0"

definition hexFromArgb :: "('hct, 'scheme, 'pal) engine \<Rightarrow> nat \<Rightarrow> string" where
  "hexFromArgb eng argb = toUpperCase (hexFromArgbLower eng argb)"

definition createScheme ::
  "('hct, 'scheme, 'pal) engine \<Rightarrow> 'hct \<Rightarrow> bool \<Rightarrow> real \<Rightarrow> SchemeVariant \<Rightarrow> 'scheme" where
  "createScheme eng sourceHct isDark contrastLevel variant =
     newScheme eng variant sourceHct isDark contrastLevel"

text \<open>The keys of the object literal of \<open>extractSchemeColors\<close>, in its order.\<close>

definition SCHEME_KEYS :: "string list" where
  "SCHEME_KEYS =
    [''primary'', ''surfaceTint'', ''onPrimary'', ''primaryContainer'', ''onPrimaryContainer'',
     ''secondary'', ''onSecondary'', ''secondaryContainer'', ''onSecondaryContainer'',
     ''tertiary'', ''onTertiary'', ''tertiaryContainer'', ''onTertiaryContainer'',
     ''error'', ''onError'', ''errorContainer'', ''onErrorContainer'',
     ''background'', ''onBackground'', ''surface'', ''onSurface'', ''surfaceVariant'',
     ''onSurfaceVariant'', ''outline'', ''outlineVariant'',
     ''shadow'', ''scrim'', ''inverseSurface'', ''inverseOnSurface'', ''inversePrimary'',
     ''primaryFixed'', ''onPrimaryFixed'', ''primaryFixedDim'', ''onPrimaryFixedVariant'',
     ''secondaryFixed'', ''onSecondaryFixed'', ''secondaryFixedDim'', ''onSecondaryFixedVariant'',
     ''tertiaryFixed'', ''onTertiaryFixed'', ''tertiaryFixedDim'', ''onTertiaryFixedVariant'',
     ''surfaceDim'', ''surfaceBright'', ''surfaceContainerLowest'', ''surfaceContainerLow'',
     ''surfaceContainer'', ''surfaceContainerHigh'', ''surfaceContainerHighest'']"

definition extractSchemeColors :: "('hct, 'scheme, 'pal) engine \<Rightarrow> 'scheme \<Rightarrow> SchemeColors" where
  "extractSchemeColors eng scheme =
     map (\<lambda>k. (k, hexFromArgb eng (schemeRole eng scheme k))) SCHEME_KEYS"

text \<open>\<open>Number.prototype.toString\<close> of a non-negative integer: its decimal digits.\<close>

fun nat_to_string :: "nat \<Rightarrow> string" where
  "nat_to_string n =
     (if n < 10 then [decDigits ! n] else nat_to_string (n div 10) @ [decDigits ! (n mod 10)])"

declare nat_to_string.simps [simp del]

definition extractTonalPalette :: "('hct, 'scheme, 'pal) engine \<Rightarrow> 'pal \<Rightarrow> TonalPaletteColors" where
  "extractTonalPalette eng palette =
     map (\<lambda>tone. (nat_to_string tone, hexFromArgb eng (paletteTone eng palette tone))) TONE_VALUES"

definition generateSchemes ::
  "('hct, 'scheme, 'pal) engine \<Rightarrow> 'hct \<Rightarrow> SchemeVariant \<Rightarrow> Schemes" where
  "generateSchemes eng sourceHct variant =
     \<lparr> light = extractSchemeColors eng (createScheme eng sourceHct False CONTRAST_standard variant),
       light_medium_contrast =
         extractSchemeColors eng (createScheme eng sourceHct False CONTRAST_medium variant),
       light_high_contrast =
         extractSchemeColors eng (createScheme eng sourceHct False CONTRAST_high variant),
       dark = extractSchemeColors eng (createScheme eng sourceHct True CONTRAST_standard variant),
       dark_medium_contrast =
         extractSchemeColors eng (createScheme eng sourceHct True CONTRAST_medium variant),
       dark_high_contrast =
         extractSchemeColors eng (createScheme eng sourceHct True CONTRAST_high variant) \<rparr>"

definition generatePalettes ::
  "('hct, 'scheme, 'pal) engine \<Rightarrow> 'hct \<Rightarrow> SchemeVariant \<Rightarrow> Palettes" where
  "generatePalettes eng sourceHct variant =
     (let scheme = createScheme eng sourceHct False CONTRAST_standard variant in
      \<lparr> pal_primary = extractTonalPalette eng (schemePalette eng scheme ''primaryPalette''),
        pal_secondary = extractTonalPalette eng (schemePalette eng scheme ''secondaryPalette''),
        pal_tertiary = extractTonalPalette eng (schemePalette eng scheme ''tertiaryPalette''),
        pal_neutral = extractTonalPalette eng (schemePalette eng scheme ''neutralPalette''),
        pal_neutral_variant =
          extractTonalPalette eng (schemePalette eng scheme ''neutralVariantPalette'') \<rparr>)"

subsection \<open>generateTheme\<close>

text \<open>The seed normalisation at the head of \<open>generateTheme\<close>.\<close>

definition normalizeSeed :: "string \<Rightarrow> string" where
  "normalizeSeed seedHex =
     (if startsWith seedHex ''#'' then toUpperCase seedHex else ''#'' @ toUpperCase seedHex)"

text \<open>
  \<open>new Date().toISOString().replace("T", " ").slice(0, 19)\<close>; the clock reading
  \<open>nowISO\<close> (the ISO string of the call time) is an input of the model.
\<close>

definition timestamp_of :: "string \<Rightarrow> string" where
  "timestamp_of nowISO = take 19 (replace_first_char (CHR ''T'') '' '' nowISO)"

definition generateTheme ::
  "('hct, 'scheme, 'pal) engine \<Rightarrow> string \<Rightarrow> string \<Rightarrow> SchemeVariant \<Rightarrow> string + MaterialTheme" where
  "generateTheme eng nowISO seedHex variant =
     (let normalizedSeed = normalizeSeed seedHex in
      case argbFromHex eng normalizedSeed of
        Inl msg \<Rightarrow> Inl msg
      | Inr argb \<Rightarrow>
          (let sourceHct = hctFromInt eng argb;
               timestamp = timestamp_of nowISO in
           Inr \<lparr> description =
                   ''TYPE: CUSTOM'' @ [CHR 0x0A] @ ''Material Theme Builder export '' @ timestamp,
                 seed = normalizedSeed,
                 coreColors = \<lparr> primary = normalizedSeed \<rparr>,
                 extendedColors = [],
                 schemes = generateSchemes eng sourceHct variant,
                 palettes = generatePalettes eng sourceHct variant \<rparr>))"

text \<open>\<open>isValidHexColor\<close>: the pattern \<open>^#?([A-Fa-f0-9]{6}|[A-Fa-f0-9]{3})$\<close>.\<close>

definition isValidHexColor :: "string \<Rightarrow> bool" where
  "isValidHexColor hex =
     (let body = (if startsWith hex ''#'' then drop 1 hex else hex) in
      (length body = 6 \<or> length body = 3) \<and> list_all is_hex body)"

section \<open>Regular-expression replacement\<close>

subsection \<open>Replacement templates\<close>

definition digit_val :: "char \<Rightarrow> nat" where
  "digit_val c = length (takeWhile (\<lambda>d. d \<noteq> c) decDigits)"

text \<open>
  \<open>GetSubstitution\<close> of ECMAScript: the expansion of a replacement string. \<open>$$\<close> is
  a dollar sign, \<open>$&\<close> the matched text, \<open>$`\<close> the text before the match, \<open>$'\<close> the
  text after it, \<open>$n\<close> and \<open>$nn\<close> a capture. A two-digit reference beyond the number of
  captures is read as a one-digit reference followed by a digit; a reference to no capture
  stays as written. None of the patterns below has a named group, so \<open>$<\<close> is literal.
  Every group of the patterns below takes part in every match, so captures are strings.
\<close>

fun getSubstitution :: "string \<Rightarrow> string \<Rightarrow> string \<Rightarrow> string list \<Rightarrow> string \<Rightarrow> string" where
  "getSubstitution m b a caps [] = []"
| "getSubstitution m b a caps [c] = [c]"
| "getSubstitution m b a caps (c # d # t) =
     (if c \<noteq> CHR ''$'' then c # getSubstitution m b a caps (d # t)
      else if d = CHR ''$'' then CHR ''$'' # getSubstitution m b a caps t
      else if d = CHR ''&'' then m @ getSubstitution m b a caps t
      else if d = CHR 0x60 then b @ getSubstitution m b a caps t
      else if d = CHR 0x27 then a @ getSubstitution m b a caps t
      else if is_digit d then
        (let one = (if 1 \<le> digit_val d \<and> digit_val d \<le> length caps
                    then caps ! (digit_val d - 1) @ getSubstitution m b a caps t
                    else CHR ''$'' # d # getSubstitution m b a caps t) in
         case t of
           [] \<Rightarrow> one
         | e # t' \<Rightarrow>
             if is_digit e then
               (let idx = 10 * digit_val d + digit_val e in
                if idx > length caps then one
                else if 1 \<le> idx then caps ! (idx - 1) @ getSubstitution m b a caps t'
                else CHR ''$'' # d # e # getSubstitution m b a caps t')
             else one)
      else CHR ''$'' # getSubstitution m b a caps (d # t))"

subsection \<open>Matching and replacing\<close>

text \<open>
  A matcher is one regular expression tried at one position: it is given the text before
  the position and the text from it, and returns the matched text, the captures and the
  text after the match.
\<close>

type_synonym matcher = "string \<Rightarrow> string \<Rightarrow> (string \<times> string list \<times> string) option"

text \<open>
  \<open>s.replace(re, template)\<close> for a pattern with the \<open>g\<close> flag: the leftmost match from
  the current position is replaced and the search goes on after it (one character further
  after an empty match).
\<close>

function replace_global :: "matcher \<Rightarrow> string \<Rightarrow> string \<Rightarrow> string \<Rightarrow> string" where
  "replace_global m tmpl pre s =
     (case m pre s of
        None \<Rightarrow> (case s of [] \<Rightarrow> [] | c # s' \<Rightarrow> c # replace_global m tmpl (pre @ [c]) s')
      | Some (matched, caps, rest) \<Rightarrow>
          getSubstitution matched pre rest caps tmpl @
          (if length rest < length s then replace_global m tmpl (pre @ matched) rest
           else (case s of [] \<Rightarrow> [] | c # s' \<Rightarrow> c # replace_global m tmpl (pre @ [c]) s')))"
  by pat_completeness auto
termination
  by (relation "measure (\<lambda>(m, tmpl, pre, s). length s)") auto

text \<open>\<open>s.match(re)\<close> for a pattern without the \<open>g\<close> flag: the leftmost match, or none.\<close>

fun search_first :: "matcher \<Rightarrow> string \<Rightarrow> string \<Rightarrow> (string \<times> string list \<times> string) option" where
  "search_first m pre [] = m pre []"
| "search_first m pre (c # s) =
     (case m pre (c # s) of
        Some r \<Rightarrow> Some r
      | None \<Rightarrow> search_first m (pre @ [c]) s)"

text \<open>\<open>s.replace(re, template)\<close> for a pattern without the \<open>g\<close> flag: only the leftmost
  match is replaced.\<close>

fun replace_first :: "matcher \<Rightarrow> string \<Rightarrow> string \<Rightarrow> string \<Rightarrow> string" where
  "replace_first m tmpl pre [] =
     (case m pre [] of
        Some (matched, caps, rest) \<Rightarrow> getSubstitution matched pre rest caps tmpl @ rest
      | None \<Rightarrow> [])"
| "replace_first m tmpl pre (c # s) =
     (case m pre (c # s) of
        Some (matched, caps, rest) \<Rightarrow> getSubstitution matched pre rest caps tmpl @ rest
      | None \<Rightarrow> c # replace_first m tmpl (pre @ [c]) s)"

text \<open>Building blocks of the matchers: a literal, and a greedy \<open>\s*\<close>.\<close>

definition lit :: "string \<Rightarrow> string \<Rightarrow> string option" where
  "lit l s = (if startsWith s l then Some (drop (length l) s) else None)"

definition skip_ws :: "string \<Rightarrow> string" where
  "skip_ws s = dropWhile is_space s"

definition matched_of :: "string \<Rightarrow> string \<Rightarrow> string" where
  "matched_of s rest = take (length s - length rest) s"

definition trim :: "string \<Rightarrow> string" where
  "trim s = rev (dropWhile is_space (rev (dropWhile is_space s)))"

section \<open>The third-party primitives adapter (tokens/openprops.ts)\<close>

subsection \<open>The patterns\<close>

definition is_quote :: "char \<Rightarrow> bool" where
  "is_quote c = (c = CHR 0x27 \<or> c = CHR 0x22)"

text \<open>
  \<open>/@import\s+['"][^'"]+['"]\s*;?\s*\n?/\<close>. Each greedy run is followed by a character
  outside its class, so no backtracking changes the match; the second \<open>\s*\<close> takes every
  line feed, and \<open>\n?\<close> is always empty.
\<close>

definition match_import :: matcher where
  "match_import pre s =
     Option.bind (lit ''@import'' s) (\<lambda>r1.
     if takeWhile is_space r1 = [] then None else
     (case dropWhile is_space r1 of
        [] \<Rightarrow> None
      | q # r2 \<Rightarrow>
          if \<not> is_quote q \<or> takeWhile (\<lambda>c. \<not> is_quote c) r2 = [] then None else
          (case dropWhile (\<lambda>c. \<not> is_quote c) r2 of
             [] \<Rightarrow> None
           | q' # r3 \<Rightarrow>
               (let r4 = skip_ws r3;
                    r5 = (case r4 of [] \<Rightarrow> r4 | c # r \<Rightarrow> if c = CHR '';'' then r else r4);
                    r6 = skip_ws r5
                in Some (matched_of s r6, [], r6)))))"

text \<open>\<open>/:where\(html\)/\<close>.\<close>

definition match_where_html :: matcher where
  "match_where_html pre s =
     Option.bind (lit '':where(html)'' s) (\<lambda>r. Some ('':where(html)'', [], r))"

text \<open>\<open>/@media\s*\(--OSdark\)\s*\{/\<close>.\<close>

definition match_os_dark :: matcher where
  "match_os_dark pre s =
     Option.bind (lit ''@media'' s) (\<lambda>r1.
     Option.bind (lit ''(--OSdark)'' (skip_ws r1)) (\<lambda>r2.
     Option.bind (lit ''{'' (skip_ws r2)) (\<lambda>r3.
     Some (matched_of s r3, [], r3))))"

text \<open>The class \<open>[\d\s%]\<close>.\<close>

definition is_tint_char :: "char \<Rightarrow> bool" where
  "is_tint_char c = (is_digit c \<or> is_space c \<or> c = CHR ''%'')"

text \<open>
  \<open>/(--shadow-color:\s*)[\d\s%]+;/\<close>. The class \<open>[\d\s%]\<close> contains \<open>\s\<close>: the
  pattern matches exactly when the longest run of class characters after the colon is not
  empty and a semicolon follows it. Group 1 ends after the leading white space of the
  run; when the run is white space only, \<open>\s*\<close> gives its last character back to the
  class.
\<close>

definition match_shadow_color :: matcher where
  "match_shadow_color pre s =
     Option.bind (lit ''--shadow-color:'' s) (\<lambda>r.
     (let run = takeWhile is_tint_char r;
          ws = takeWhile is_space r
      in if run = [] then None else
         Option.bind (lit '';'' (dropWhile is_tint_char r)) (\<lambda>rest.
         Some (matched_of s rest,
               [''--shadow-color:'' @ (if length ws < length run then ws else butlast ws)],
               rest))))"

text \<open>
  \<open>/@media\s*\(prefers-color-scheme:\s*dark\)\s*\{\s*:(?:root|where\(html\))\s*\{([^}]+)\}\s*\}/\<close>.
\<close>

definition match_dark_section :: matcher where
  "match_dark_section pre s =
     Option.bind (lit ''@media'' s) (\<lambda>r1.
     Option.bind (lit ''(prefers-color-scheme:'' (skip_ws r1)) (\<lambda>r2.
     Option.bind (lit ''dark)'' (skip_ws r2)) (\<lambda>r3.
     Option.bind (lit ''{'' (skip_ws r3)) (\<lambda>r4.
     Option.bind (lit '':'' (skip_ws r4)) (\<lambda>r5.
     Option.bind (case lit ''root'' r5 of Some r \<Rightarrow> Some r | None \<Rightarrow> lit ''where(html)'' r5) (\<lambda>r6.
     Option.bind (lit ''{'' (skip_ws r6)) (\<lambda>r7.
     (let body = takeWhile (\<lambda>c. c \<noteq> CHR ''}'') r7 in
      if body = [] then None else
      Option.bind (lit ''}'' (dropWhile (\<lambda>c. c \<noteq> CHR ''}'') r7)) (\<lambda>r8.
      Option.bind (lit ''}'' (skip_ws r8)) (\<lambda>r9.
      Some (matched_of s r9, [body], r9)))))))))))"

text \<open>
  \<open>/@media\s*\(prefers-color-scheme:\s*dark\)\s*\{\s*:(?:root|where\(html\))\s*\{[^}]+\}\s*\}/\<close>,
  the pattern of the final replacement: the same text is matched, but there is no group.
\<close>

definition match_dark_section_nogroup :: matcher where
  "match_dark_section_nogroup pre s =
     map_option (\<lambda>(matched, caps, rest). (matched, [], rest)) (match_dark_section pre s)"

text \<open>The class \<open>[a-zA-Z0-9-]\<close>.\<close>

definition is_name_char :: "char \<Rightarrow> bool" where
  "is_name_char c = (is_alpha c \<or> is_digit c \<or> c = CHR ''-'')"

text \<open>\<open>^\<close> under the \<open>m\<close> flag: the start of the text, or just after a line terminator.\<close>

definition at_line_start :: "string \<Rightarrow> bool" where
  "at_line_start pre = (pre = [] \<or> is_line_terminator (last pre))"

text \<open>\<open>(--)(([a-zA-Z][a-zA-Z0-9-]*))\s*:\<close>, the part after the first group: the name
  and the text after the colon.\<close>

definition match_decl_body :: "string \<Rightarrow> (string \<times> string) option" where
  "match_decl_body s =
     Option.bind (lit ''--'' s) (\<lambda>r1.
     (case r1 of
        [] \<Rightarrow> None
      | c # r2 \<Rightarrow>
          if \<not> is_alpha c then None else
          Option.bind (lit '':'' (skip_ws (dropWhile is_name_char r2))) (\<lambda>rest.
          Some (c # takeWhile is_name_char r2, rest))))"

text \<open>
  \<open>/(^|\s|;)(--)(([a-zA-Z][a-zA-Z0-9-]*))\s*:/gm\<close>. The alternatives of group 1 are
  tried in their order: the empty match at a line start, one white-space character, a
  semicolon.
\<close>

definition match_decl :: matcher where
  "match_decl pre s =
     (case (if at_line_start pre then match_decl_body s else None) of
        Some (name, rest) \<Rightarrow> Some (matched_of s rest, [[], ''--'', name, name], rest)
      | None \<Rightarrow>
          (case s of
             [] \<Rightarrow> None
           | c # r \<Rightarrow>
               if is_space c \<or> c = CHR '';'' then
                 (case match_decl_body r of
                    Some (name, rest) \<Rightarrow> Some (matched_of s rest, [[c], ''--'', name, name], rest)
                  | None \<Rightarrow> None)
               else None))"

subsection \<open>Numbers in template literals\<close>

text \<open>
  \<open>Math.round\<close> of a finite number rounds to the nearest integer, halves upwards. A
  finite double is a real number; \<open>NaN\<close> and the infinities are outside the model.
\<close>

definition Math_round :: "real \<Rightarrow> int" where
  "Math_round x = \<lfloor>x + 1 / 2\<rfloor>"

text \<open>The string of an integer-valued number (below \<open>10^21\<close> in size, where JavaScript
  changes to exponent notation).\<close>

definition int_to_string :: "int \<Rightarrow> string" where
  "int_to_string k = (if k < 0 then ''-'' @ nat_to_string (nat (- k)) else nat_to_string (nat k))"

subsection \<open>transformOpenPropsCSS, injectShadowColor, prefixOpenPropsCSS\<close>

definition injectShadowColor :: "string \<Rightarrow> real \<Rightarrow> string" where
  "injectShadowColor css seedHue =
     (let hue = Math_round seedHue;
          lightShadowColor = int_to_string hue @ '' 10% 15%'';
          darkShadowColor = int_to_string hue @ '' 30% 5%'';
          css1 = replace_global match_shadow_color (''$1'' @ lightShadowColor @ '';'') [] css
      in case search_first match_dark_section [] css1 of
           None \<Rightarrow> css1
         | Some (matched, caps, rest) \<Rightarrow>
             (let darkContent =
                    replace_global match_shadow_color (''$1'' @ darkShadowColor @ '';'') [] (caps ! 0);
                  replacement =
                    ''[data-theme='' @ [CHR 0x22] @ ''dark'' @ [CHR 0x22] @ ''] {'' @ darkContent @ ''}'' @
                    [CHR 0x0A, CHR 0x0A] @
                    ''@media (prefers-color-scheme: dark) {'' @ [CHR 0x0A] @
                    ''  :root:not([data-theme='' @ [CHR 0x22] @ ''light'' @ [CHR 0x22] @ '']) {'' @
                    darkContent @ ''}'' @ [CHR 0x0A] @ ''}''
              in replace_first match_dark_section_nogroup replacement [] css1))"

definition transformOpenPropsCSS :: "string \<Rightarrow> string \<Rightarrow> real \<Rightarrow> string" where
  "transformOpenPropsCSS css fileName seedHue =
     (let css1 = replace_global match_import [] [] css;
          css2 = replace_global match_where_html '':root'' [] css1;
          css3 = replace_global match_os_dark ''@media (prefers-color-scheme: dark) {'' [] css2;
          css4 = (if fileName = ''shadows'' then injectShadowColor css3 seedHue else css3)
      in trim css4)"

definition prefixOpenPropsCSS :: "string \<Rightarrow> string \<Rightarrow> string" where
  "prefixOpenPropsCSS css prefix =
     replace_global match_decl (''$1--'' @ prefix @ ''-$3:'') [] css"

section \<open>Colour formats (tokens/colors.ts)\<close>

datatype error =
    InvalidHexColor string
  | UnknownOpenPropsFile string
  | FailedToFetch string nat
  | FetchRejected string
  | EngineError string
  | FsError string

text \<open>
  The colour library (\<open>culori\<close>) is an external collaborator, a parameter of the model.
  \<open>c_parse\<close> is \<open>parse\<close> (no result for a text that is not a colour), \<open>c_oklch\<close> the
  conversion to OKLCH, whose lightness, chroma and hue may each be undefined; a defined
  component is a finite number.
\<close>

record 'color culori =
  c_parse :: "string \<Rightarrow> 'color option"
  c_oklch :: "'color \<Rightarrow> real option \<times> real option \<times> real option"
  c_formatHsl :: "string \<Rightarrow> string option"
  c_formatRgb :: "string \<Rightarrow> string option"
  c_formatHex_other :: "string \<Rightarrow> string option"

text \<open>A value that is \<open>undefined\<close> or the empty string is falsy.\<close>

definition truthy :: "string option \<Rightarrow> bool" where
  "truthy v = (case v of None \<Rightarrow> False | Some s \<Rightarrow> s \<noteq> [])"

text \<open>\<open>x ?? 0\<close>.\<close>

definition or_zero :: "real option \<Rightarrow> real" where
  "or_zero v = (case v of None \<Rightarrow> 0 | Some x \<Rightarrow> x)"

text \<open>
  \<open>Number.prototype.toFixed(f)\<close> for a finite number below \<open>10^21\<close> in size: the sign,
  then the integer \<open>n\<close> nearest to \<open>|x| * 10^f\<close> (the larger one of two), written with
  at least \<open>f + 1\<close> digits and a point before the last \<open>f\<close>.
\<close>

definition toFixed :: "nat \<Rightarrow> real \<Rightarrow> string" where
  "toFixed f x =
     (let n = nat \<lfloor>\<bar>x\<bar> * 10 ^ f + 1 / 2\<rfloor>;
          ds = nat_to_string n;
          m = replicate (Suc f - length ds) (CHR ''0'') @ ds;
          k = length m
      in (if x < 0 then ''-'' else []) @
         (if f = 0 then m else take (k - f) m @ ''.'' @ drop (k - f) m))"

text \<open>
  \<open>hexToOklch\<close>. The threshold \<open>0.001\<close> is read as the real number: the double written
  \<open>0.001\<close> is the double nearest to it, so a double is below the one exactly when it is
  below the other.
\<close>

definition hexToOklch :: "'color culori \<Rightarrow> string \<Rightarrow> error + string" where
  "hexToOklch lib hex =
     (case c_parse lib hex of
        None \<Rightarrow> Inl (InvalidHexColor hex)
      | Some color \<Rightarrow>
          (case c_oklch lib color of
             (lo, co, ho) \<Rightarrow>
               (let l = or_zero lo; c = or_zero co; h = or_zero ho in
                if c < 1 / 1000 then Inr (''oklch('' @ toFixed 2 l @ '' 0 0)'')
                else Inr (''oklch('' @ toFixed 2 l @ '' '' @ toFixed 3 c @ '' '' @
                          int_to_string (Math_round h) @ '')''))))"

definition hexToHsl :: "'color culori \<Rightarrow> string \<Rightarrow> error + string" where
  "hexToHsl lib hex =
     (if truthy (c_formatHsl lib hex) then Inr (the (c_formatHsl lib hex))
      else Inl (InvalidHexColor hex))"

definition hexToRgb :: "'color culori \<Rightarrow> string \<Rightarrow> error + string" where
  "hexToRgb lib hex =
     (if truthy (c_formatRgb lib hex) then Inr (the (c_formatRgb lib hex))
      else Inl (InvalidHexColor hex))"

text \<open>
  Modelled from the spec: \<open>formatHex\<close> of the colour library \<open>culori\<close>, which is not
  in the repository. For six hex digits with an optional leading \<open>#\<close>, in any casing, it
  returns \<open>#\<close> and the six digits in lower case; what it returns for any other text is
  left to the parameter.
\<close>

definition formatHex :: "'color culori \<Rightarrow> string \<Rightarrow> string option" where
  "formatHex lib color =
     (let body = (if startsWith color ''#'' then drop 1 color else color) in
      if length body = 6 \<and> list_all is_hex body then Some (''#'' @ toLowerCase body)
      else c_formatHex_other lib color)"

definition normalizeHex :: "'color culori \<Rightarrow> string \<Rightarrow> error + string" where
  "normalizeHex lib hex =
     (if truthy (formatHex lib hex) then Inr (toUpperCase (the (formatHex lib hex)))
      else Inl (InvalidHexColor hex))"

datatype ColorFormat = Oklch | Hex | Hsl | Rgb

fun formatColor :: "'color culori \<Rightarrow> string \<Rightarrow> ColorFormat \<Rightarrow> error + string" where
  "formatColor lib hex Oklch = hexToOklch lib hex"
| "formatColor lib hex Hsl = hexToHsl lib hex"
| "formatColor lib hex Rgb = hexToRgb lib hex"
| "formatColor lib hex Hex = normalizeHex lib hex"

definition getHue :: "'color culori \<Rightarrow> string \<Rightarrow> error + real" where
  "getHue lib hex =
     (case c_parse lib hex of
        None \<Rightarrow> Inl (InvalidHexColor hex)
      | Some color \<Rightarrow> (case c_oklch lib color of (lo, co, ho) \<Rightarrow> Inr (or_zero ho)))"

text \<open>The form \<open>#RRGGBB\<close> in upper case.\<close>

definition canonicalHex :: "string \<Rightarrow> bool" where
  "canonicalHex s =
     (length s = 7 \<and> take 1 s = ''#'' \<and> list_all (\<lambda>c. c \<in> set ''0123456789ABCDEF'') (drop 1 s))"

section \<open>CSS file utilities (tokens/css.ts)\<close>

text \<open>\<open>lines.join("\n")\<close> and \<open>description.split("\n")\<close>.\<close>

fun join_lines :: "string list \<Rightarrow> string" where
  "join_lines [] = []"
| "join_lines [x] = x"
| "join_lines (x # y # r) = x @ [CHR 0x0A] @ join_lines (y # r)"

fun split_lines :: "string \<Rightarrow> string list" where
  "split_lines [] = [[]]"
| "split_lines (c # s) =
     (if c = CHR 0x0A then [] # split_lines s
      else (case split_lines s of [] \<Rightarrow> [[c]] | x # xs \<Rightarrow> (c # x) # xs))"

definition generateHeader :: "string \<Rightarrow> string \<Rightarrow> string option \<Rightarrow> string option \<Rightarrow> string" where
  "generateHeader nowISO title source descr =
     join_lines
       ([''/**'', '' * '' @ title] @
        (if truthy source then ['' * Source: '' @ the source] else []) @
        ['' * Generated: '' @ timestamp_of nowISO] @
        (if truthy descr then '' *'' # map (\<lambda>line. '' * '' @ line) (split_lines (the descr)) else []) @
        ['' *'', '' * DO NOT EDIT - Regenerate with: bun src/index.ts tokens'', '' */'', []])"

definition generateAppCSS :: string where
  "generateAppCSS = join_lines
     [''/**'',
      '' * App-Specific Tokens'',
      '' *'',
      '' * This file is NOT generated. Add custom tokens here.'',
      '' * These tokens are specific to your application.'',
      '' */'',
      [],
      '':root {'',
      ''  /* Layout */'',
      ''  --sidebar-width: 240px;'',
      ''  --sidebar-width-collapsed: 64px;'',
      ''  --header-height: 56px;'',
      [],
      ''  /* Container Widths */'',
      ''  --container-sm: 640px;'',
      ''  --container-md: 768px;'',
      ''  --container-lg: 1024px;'',
      ''  --container-xl: 1280px;'',
      ''}'',
      []]"

section \<open>Configuration (tokens/config.ts)\<close>

text \<open>
  An object with string keys is an association list in the order of its keys. Setting a
  key keeps its place when it is there and appends it otherwise; \<open>{...a, ...b}\<close> sets
  the entries of \<open>b\<close>, in their order, on \<open>a\<close>.
\<close>

fun obj_set :: "string \<Rightarrow> 'v \<Rightarrow> (string \<times> 'v) list \<Rightarrow> (string \<times> 'v) list" where
  "obj_set k v [] = [(k, v)]"
| "obj_set k v ((k', v') # kvs) =
     (if k' = k then (k, v) # kvs else (k', v') # obj_set k v kvs)"

definition obj_spread :: "(string \<times> 'v) list \<Rightarrow> (string \<times> 'v) list \<Rightarrow> (string \<times> 'v) list" where
  "obj_spread a b = foldl (\<lambda>acc kv. obj_set (fst kv) (snd kv) acc) a b"

type_synonym TokenMap = "(string \<times> string) list"

type_synonym SemanticConfig = "(string \<times> TokenMap) list"

record Prefixes =
  pfx_primitives :: string
  pfx_palette :: string
  pfx_semantic :: string

record OutputConfig =
  out_dir :: string
  out_paletteSubdir :: string
  out_openpropsSubdir :: string

record OpenPropsConfig =
  op_baseUrl :: string
  op_files :: "string list"

record TokenConfig =
  cfg_format :: ColorFormat
  cfg_prefixes :: Prefixes
  cfg_output :: OutputConfig
  cfg_openprops :: OpenPropsConfig
  cfg_semantic :: SemanticConfig

text \<open>
  The user's partial configuration: a key that is absent is \<open>None\<close>. The sections may
  be partial themselves (\<open>generateTokens\<close> passes an \<open>output\<close> with only some keys).
\<close>

record UserPrefixes =
  u_primitives :: "string option"
  u_palette :: "string option"
  u_semantic_pfx :: "string option"

record UserOutput =
  u_dir :: "string option"
  u_paletteSubdir :: "string option"
  u_openpropsSubdir :: "string option"

record UserOpenProps =
  u_baseUrl :: "string option"
  u_files :: "string list option"

record UserConfig =
  u_format :: "ColorFormat option"
  u_prefixes :: "UserPrefixes option"
  u_output :: "UserOutput option"
  u_openprops :: "UserOpenProps option"
  u_semantic :: "SemanticConfig option"

definition DEFAULT_CONFIG :: TokenConfig where
  "DEFAULT_CONFIG =
     \<lparr> cfg_format = Oklch,
       cfg_prefixes = \<lparr> pfx_primitives = ''op'', pfx_palette = ''md'', pfx_semantic = ''ui'' \<rparr>,
       cfg_output = \<lparr> out_dir = ''./tokens'', out_paletteSubdir = ''material'',
                      out_openpropsSubdir = ''open-props'' \<rparr>,
       cfg_openprops =
         \<lparr> op_baseUrl = ''https://raw.githubusercontent.com/argyleink/open-props/main/src'',
           op_files = [''fonts'', ''sizes'', ''shadows'', ''borders'', ''easings''] \<rparr>,
       cfg_semantic =
         [(''space'', [(''xs'', ''size-2''), (''sm'', ''size-3''), (''md'', ''size-4''),
                      (''lg'', ''size-5''), (''xl'', ''size-6''), (''2xl'', ''size-7'')]),
          (''radius'', [(''none'', ''0''), (''sm'', ''radius-2''), (''md'', ''radius-3''),
                       (''lg'', ''radius-4''), (''full'', ''radius-round'')]),
          (''shadow'', [(''sm'', ''shadow-2''), (''md'', ''shadow-3''), (''lg'', ''shadow-4''),
                       (''xl'', ''shadow-5'')]),
          (''weight'', [(''light'', ''font-weight-3''), (''normal'', ''font-weight-4''),
                       (''medium'', ''font-weight-5''), (''semibold'', ''font-weight-6''),
                       (''bold'', ''font-weight-7'')]),
          (''leading'', [(''none'', ''1''), (''tight'', ''font-lineheight-1''),
                        (''snug'', ''font-lineheight-2''), (''normal'', ''font-lineheight-3''),
                        (''relaxed'', ''font-lineheight-4''), (''loose'', ''font-lineheight-5'')]),
          (''duration'', [(''instant'', ''0ms''), (''fast'', ''150ms''), (''normal'', ''300ms''),
                         (''slow'', ''500ms'')]),
          (''ease'', [(''linear'', ''ease-1''), (''default'', ''ease-2''), (''in'', ''ease-in-2''),
                     (''out'', ''ease-out-2''), (''in-out'', ''ease-in-out-2'')]),
          (''layer'', [(''base'', ''1''), (''raised'', ''10''), (''dropdown'', ''100''),
                      (''sticky'', ''500''), (''modal'', ''1000''), (''toast'', ''2000'')])] \<rparr>"

text \<open>A key of the defaults overridden by the user's, when the user gives one.\<close>

definition override :: "'a \<Rightarrow> 'a option \<Rightarrow> 'a" where
  "override d u = (case u of None \<Rightarrow> d | Some v \<Rightarrow> v)"

definition mergeConfig :: "UserConfig \<Rightarrow> TokenConfig" where
  "mergeConfig userConfig =
     \<lparr> cfg_format = override (cfg_format DEFAULT_CONFIG) (u_format userConfig),
       cfg_prefixes =
         (case u_prefixes userConfig of
            None \<Rightarrow> cfg_prefixes DEFAULT_CONFIG
          | Some p \<Rightarrow>
              \<lparr> pfx_primitives = override (pfx_primitives (cfg_prefixes DEFAULT_CONFIG)) (u_primitives p),
                pfx_palette = override (pfx_palette (cfg_prefixes DEFAULT_CONFIG)) (u_palette p),
                pfx_semantic = override (pfx_semantic (cfg_prefixes DEFAULT_CONFIG)) (u_semantic_pfx p) \<rparr>),
       cfg_output =
         (case u_output userConfig of
            None \<Rightarrow> cfg_output DEFAULT_CONFIG
          | Some out \<Rightarrow>
              \<lparr> out_dir = override (out_dir (cfg_output DEFAULT_CONFIG)) (u_dir out),
                out_paletteSubdir =
                  override (out_paletteSubdir (cfg_output DEFAULT_CONFIG)) (u_paletteSubdir out),
                out_openpropsSubdir =
                  override (out_openpropsSubdir (cfg_output DEFAULT_CONFIG)) (u_openpropsSubdir out) \<rparr>),
       cfg_openprops =
         (case u_openprops userConfig of
            None \<Rightarrow> cfg_openprops DEFAULT_CONFIG
          | Some op \<Rightarrow>
              \<lparr> op_baseUrl = override (op_baseUrl (cfg_openprops DEFAULT_CONFIG)) (u_baseUrl op),
                op_files = override (op_files (cfg_openprops DEFAULT_CONFIG)) (u_files op) \<rparr>),
       cfg_semantic =
         obj_spread (cfg_semantic DEFAULT_CONFIG)
           (case u_semantic userConfig of None \<Rightarrow> [] | Some s \<Rightarrow> s) \<rparr>"

section \<open>Fetching the third-party files (tokens/openprops.ts)\<close>

definition OPENPROPS_SOURCE_FILES :: "(string \<times> string) list" where
  "OPENPROPS_SOURCE_FILES =
     [(''fonts'', ''props.fonts.css''),
      (''sizes'', ''props.sizes.css''),
      (''shadows'', ''props.shadows.css''),
      (''borders'', ''props.borders.css''),
      (''easings'', ''props.easing.css''),
      (''animations'', ''props.animations.css''),
      (''aspects'', ''props.aspects.css''),
      (''zindex'', ''props.zindex.css'')]"

text \<open>
  \<open>OPENPROPS_SOURCE_FILES\<close> is an object literal, so \<open>OPENPROPS_SOURCE_FILES[fileName]\<close>
  reads an own property when there is one and otherwise follows the prototype chain to
  \<open>Object.prototype\<close>, whose properties are functions (and \<open>__proto__\<close>, an object): all
  truthy.
\<close>

definition OBJECT_PROTOTYPE_KEYS :: "string list" where
  "OBJECT_PROTOTYPE_KEYS =
     [''constructor'', ''hasOwnProperty'', ''isPrototypeOf'', ''propertyIsEnumerable'',
      ''toLocaleString'', ''toString'', ''valueOf'', ''__proto__'',
      ''__defineGetter__'', ''__defineSetter__'', ''__lookupGetter__'', ''__lookupSetter__'']"

datatype property = OwnValue string | Inherited string | Undefined

definition lookup_property :: "(string \<times> string) list \<Rightarrow> string \<Rightarrow> property" where
  "lookup_property obj key =
     (case map_of obj key of
        Some v \<Rightarrow> OwnValue v
      | None \<Rightarrow> if key \<in> set OBJECT_PROTOTYPE_KEYS then Inherited key else Undefined)"

text \<open>
  The network is a parameter: what \<open>fetch(url)\<close> comes to. The promise is rejected (a
  network error, or the abort after 30 seconds), or there is a response with a status
  and a body (\<open>None\<close> when reading the body fails).
\<close>

datatype fetch_outcome = Rejected | Response nat "string option"

text \<open>
  \<open>fetchOpenProps\<close> returns its result together with the requests it has started.
  \<open>showInherited\<close> is the text the engine prints for a built-in of \<open>Object.prototype\<close>
  inside a template literal.
\<close>

definition request :: "(string \<Rightarrow> fetch_outcome) \<Rightarrow> string \<Rightarrow> (error + string) \<times> string list" where
  "request net url =
     ((case net url of
         Rejected \<Rightarrow> Inl (FetchRejected url)
       | Response status body \<Rightarrow>
           if \<not> (200 \<le> status \<and> status \<le> 299) then Inl (FailedToFetch url status)
           else (case body of None \<Rightarrow> Inl (FetchRejected url) | Some t \<Rightarrow> Inr t)),
      [url])"

definition fetchOpenProps ::
  "(string \<Rightarrow> string) \<Rightarrow> (string \<Rightarrow> fetch_outcome) \<Rightarrow> string \<Rightarrow> string \<Rightarrow> (error + string) \<times> string list" where
  "fetchOpenProps showInherited net baseUrl fileName =
     (case lookup_property OPENPROPS_SOURCE_FILES fileName of
        Undefined \<Rightarrow> (Inl (UnknownOpenPropsFile fileName), [])
      | OwnValue sourcePath \<Rightarrow>
          if sourcePath = [] then (Inl (UnknownOpenPropsFile fileName), [])
          else request net (baseUrl @ ''/'' @ sourcePath)
      | Inherited key \<Rightarrow> request net (baseUrl @ ''/'' @ showInherited key))"

definition generateOpenPropsCSS :: "string \<Rightarrow> string \<Rightarrow> string \<Rightarrow> string \<Rightarrow> real \<Rightarrow> string" where
  "generateOpenPropsCSS nowISO name content prefix seedHue =
     (let transformed = transformOpenPropsCSS content name seedHue;
          prefixed = prefixOpenPropsCSS transformed prefix;
          title = toUpperCase (take 1 name) @ drop 1 name @ '' Tokens'';
          header = generateHeader nowISO title (Some ''Open Props (https://open-props.style)'') None
      in header @ prefixed @ [CHR 0x0A])"

text \<open>
  \<open>fetchAllOpenProps\<close>: every file is requested before any answer is looked at. When a
  fetch fails, \<open>Promise.all\<close> rejects with the failure that comes first in time; the
  model takes the first unknown file name (raised before any answer arrives), and
  otherwise the first failed fetch in the order of the list. \<open>clock\<close> gives the time at
  which the header of a file is written.
\<close>

fun first_error :: "(string \<times> (error + string)) list \<Rightarrow> error option" where
  "first_error [] = None"
| "first_error ((name, Inl e) # rs) = Some e"
| "first_error ((name, Inr c) # rs) = first_error rs"

definition is_unknown_file :: "(string \<times> (error + string)) \<Rightarrow> bool" where
  "is_unknown_file r = (case snd r of Inl (UnknownOpenPropsFile n) \<Rightarrow> True | _ \<Rightarrow> False)"

definition fetchAllOpenProps ::
  "(string \<Rightarrow> string) \<Rightarrow> (string \<Rightarrow> fetch_outcome) \<Rightarrow> (string \<Rightarrow> string) \<Rightarrow>
   string \<Rightarrow> string list \<Rightarrow> string \<Rightarrow> real \<Rightarrow> (error + (string \<times> string) list) \<times> string list" where
  "fetchAllOpenProps showInherited net clock baseUrl fileNames prefix seedHue =
     (let fetched = map (\<lambda>name. (name, fetchOpenProps showInherited net baseUrl name)) fileNames;
          requests = concat (map (\<lambda>r. snd (snd r)) fetched);
          outcomes = map (\<lambda>r. (fst r, fst (snd r))) fetched
      in (case first_error (filter is_unknown_file outcomes) of
            Some e \<Rightarrow> (Inl e, requests)
          | None \<Rightarrow>
              (case first_error outcomes of
                 Some e \<Rightarrow> (Inl e, requests)
               | None \<Rightarrow>
                   (Inr (foldl (\<lambda>results r.
                            (case snd r of
                               Inr content \<Rightarrow>
                                 obj_set (fst r)
                                   (generateOpenPropsCSS (clock (fst r)) (fst r) content prefix seedHue)
                                   results
                             | Inl e \<Rightarrow> results))
                          [] outcomes),
                    requests))))"

section \<open>The semantic renderer (tokens/semantic.ts)\<close>

record role =
  schemeKey :: string
  semanticName :: string
  roleGroup :: string

definition mk_role :: "string \<Rightarrow> string \<Rightarrow> string \<Rightarrow> role" where
  "mk_role k n g = \<lparr> schemeKey = k, semanticName = n, roleGroup = g \<rparr>"

definition COLOR_ROLE_MAP :: "role list" where
  "COLOR_ROLE_MAP =
     [mk_role ''primary'' ''primary'' ''Primary'',
      mk_role ''onPrimary'' ''primary-on'' ''Primary'',
      mk_role ''primaryContainer'' ''primary-container'' ''Primary'',
      mk_role ''onPrimaryContainer'' ''primary-container-on'' ''Primary'',
      mk_role ''secondary'' ''secondary'' ''Secondary'',
      mk_role ''onSecondary'' ''secondary-on'' ''Secondary'',
      mk_role ''secondaryContainer'' ''secondary-container'' ''Secondary'',
      mk_role ''onSecondaryContainer'' ''secondary-container-on'' ''Secondary'',
      mk_role ''tertiary'' ''tertiary'' ''Tertiary'',
      mk_role ''onTertiary'' ''tertiary-on'' ''Tertiary'',
      mk_role ''tertiaryContainer'' ''tertiary-container'' ''Tertiary'',
      mk_role ''onTertiaryContainer'' ''tertiary-container-on'' ''Tertiary'',
      mk_role ''surface'' ''surface'' ''Surface'',
      mk_role ''onSurface'' ''surface-on'' ''Surface'',
      mk_role ''surfaceVariant'' ''surface-variant'' ''Surface'',
      mk_role ''onSurfaceVariant'' ''surface-variant-on'' ''Surface'',
      mk_role ''surfaceContainer'' ''surface-container'' ''Surface'',
      mk_role ''surfaceContainerLow'' ''surface-container-low'' ''Surface'',
      mk_role ''surfaceContainerLowest'' ''surface-container-lowest'' ''Surface'',
      mk_role ''surfaceContainerHigh'' ''surface-container-high'' ''Surface'',
      mk_role ''surfaceContainerHighest'' ''surface-container-highest'' ''Surface'',
      mk_role ''surfaceDim'' ''surface-dim'' ''Surface'',
      mk_role ''surfaceBright'' ''surface-bright'' ''Surface'',
      mk_role ''background'' ''background'' ''Background'',
      mk_role ''onBackground'' ''background-on'' ''Background'',
      mk_role ''error'' ''error'' ''Error'',
      mk_role ''onError'' ''error-on'' ''Error'',
      mk_role ''errorContainer'' ''error-container'' ''Error'',
      mk_role ''onErrorContainer'' ''error-container-on'' ''Error'',
      mk_role ''outline'' ''outline'' ''Outline'',
      mk_role ''outlineVariant'' ''outline-variant'' ''Outline'',
      mk_role ''inverseSurface'' ''inverse-surface'' ''Inverse'',
      mk_role ''inverseOnSurface'' ''inverse-surface-on'' ''Inverse'',
      mk_role ''inversePrimary'' ''inverse-primary'' ''Inverse'',
      mk_role ''scrim'' ''scrim'' ''Utility'',
      mk_role ''shadow'' ''shadow-color'' ''Utility'',
      mk_role ''surfaceTint'' ''surface-tint'' ''Utility'']"

definition SEMANTIC_CATEGORIES :: "(string \<times> string) list" where
  "SEMANTIC_CATEGORIES =
     [(''space'', ''Spacing Scale''), (''radius'', ''Border Radii''), (''shadow'', ''Shadows''),
      (''weight'', ''Font Weights''), (''leading'', ''Line Heights''), (''duration'', ''Durations''),
      (''ease'', ''Easings''), (''layer'', ''Z-Index Layers'')]"

definition formatSemanticValue :: "string \<Rightarrow> string \<Rightarrow> string" where
  "formatSemanticValue v primitivesPrefix =
     (if v = ''0'' \<or> v = ''none'' then v
      else if (case v of [] \<Rightarrow> False | c # r \<Rightarrow> is_digit c) then v
      else ''var(--'' @ primitivesPrefix @ ''-'' @ v @ '')'')"

text \<open>The declaration of one colour role.\<close>

definition color_decl :: "string \<Rightarrow> role \<Rightarrow> string \<Rightarrow> string \<Rightarrow> string" where
  "color_decl semanticPrefix r lightFormatted darkFormatted =
     ''    '' @ (''--'' @ semanticPrefix @ ''-color-'' @ semanticName r) @
     '': light-dark('' @ lightFormatted @ '', '' @ darkFormatted @ '');''"

text \<open>
  The loop over \<open>COLOR_ROLE_MAP\<close>: the state is \<open>currentGroup\<close> and the lines pushed so
  far; \<open>fmt\<close> is \<open>formatColor\<close> at the chosen format, which may throw.
\<close>

fun color_loop ::
  "(string \<Rightarrow> error + string) \<Rightarrow> string \<Rightarrow> SchemeColors \<Rightarrow> SchemeColors \<Rightarrow>
   role list \<Rightarrow> string \<Rightarrow> string list \<Rightarrow> error + string \<times> string list" where
  "color_loop fmt sp lightScheme darkScheme [] currentGroup lines = Inr (currentGroup, lines)"
| "color_loop fmt sp lightScheme darkScheme (r # roles) currentGroup lines =
     (let lightValue = map_of lightScheme (schemeKey r);
          darkValue = map_of darkScheme (schemeKey r)
      in if \<not> truthy lightValue \<or> \<not> truthy darkValue
         then color_loop fmt sp lightScheme darkScheme roles currentGroup lines
         else
           (let lines1 =
                  (if roleGroup r \<noteq> currentGroup
                   then (if currentGroup \<noteq> [] then lines @ [[]] else lines) @
                        [''    /* '' @ roleGroup r @ '' */'']
                   else lines);
                currentGroup1 = (if roleGroup r \<noteq> currentGroup then roleGroup r else currentGroup)
            in case fmt (the lightValue) of
                 Inl e \<Rightarrow> Inl e
               | Inr lightFormatted \<Rightarrow>
                   (case fmt (the darkValue) of
                      Inl e \<Rightarrow> Inl e
                    | Inr darkFormatted \<Rightarrow>
                        color_loop fmt sp lightScheme darkScheme roles currentGroup1
                          (lines1 @ [color_decl sp r lightFormatted darkFormatted]))))"

text \<open>
  The comparator of the key sort, and \<open>Array.prototype.sort\<close> as a stable insertion
  sort (any stable sort gives the same list for a consistent comparator).
  \<open>localeCompare\<close> depends on the locale and is a parameter.
\<close>

definition SORT_ORDER :: "string list" where
  "SORT_ORDER = [''none'', ''xs'', ''sm'', ''md'', ''base'', ''lg'', ''xl'', ''2xl'', ''3xl'', ''full'']"

fun index_of :: "string \<Rightarrow> string list \<Rightarrow> nat option" where
  "index_of k [] = None"
| "index_of k (x # xs) = (if x = k then Some 0 else map_option Suc (index_of k xs))"

definition key_compare :: "(string \<Rightarrow> string \<Rightarrow> int) \<Rightarrow> string \<Rightarrow> string \<Rightarrow> int" where
  "key_compare localeCompare a b =
     (case (index_of a SORT_ORDER, index_of b SORT_ORDER) of
        (Some i, Some j) \<Rightarrow> int i - int j
      | (Some i, None) \<Rightarrow> - 1
      | (None, Some j) \<Rightarrow> 1
      | (None, None) \<Rightarrow> localeCompare a b)"

fun insert_by :: "('a \<Rightarrow> 'a \<Rightarrow> int) \<Rightarrow> 'a \<Rightarrow> 'a list \<Rightarrow> 'a list" where
  "insert_by cmp x [] = [x]"
| "insert_by cmp x (y # ys) = (if cmp x y < 0 then x # y # ys else y # insert_by cmp x ys)"

definition sort_by :: "('a \<Rightarrow> 'a \<Rightarrow> int) \<Rightarrow> 'a list \<Rightarrow> 'a list" where
  "sort_by cmp xs = foldl (\<lambda>acc x. insert_by cmp x acc) [] xs"

definition category_lines ::
  "(string \<Rightarrow> string \<Rightarrow> int) \<Rightarrow> SemanticConfig \<Rightarrow> Prefixes \<Rightarrow> string \<times> string \<Rightarrow> string list" where
  "category_lines localeCompare sem prefixes category =
     (case map_of sem (fst category) of
        None \<Rightarrow> []
      | Some tokens \<Rightarrow>
          if tokens = [] then []
          else [[], ''    /* '' @ snd category @ '' */''] @
               map (\<lambda>key.
                      ''    '' @ (''--'' @ pfx_semantic prefixes @ ''-'' @ fst category @ ''-'' @ key) @
                      '': '' @ formatSemanticValue (the (map_of tokens key)) (pfx_primitives prefixes) @
                      '';'')
                   (sort_by (key_compare localeCompare) (map fst tokens)))"

definition semantic_header :: "string \<Rightarrow> Prefixes \<Rightarrow> string" where
  "semantic_header nowISO prefixes =
     generateHeader nowISO ''Semantic Tokens (Tier 2) - THE APPLICATION API''
       (Some ''Generated from seed color'')
       (Some (''Naming: --'' @ pfx_semantic prefixes @ ''-[category]-[role]'' @ [CHR 0x0A, CHR 0x0A] @
              ''This is the ONLY file developers should reference.'' @ [CHR 0x0A] @
              ''All tokens start with --'' @ pfx_semantic prefixes @ ''-'' @ [CHR 0x0A, CHR 0x0A] @
              ''Uses CSS light-dark() for reactive theming.''))"

text \<open>The lines pushed before the colour loop, and those pushed after it.\<close>

definition semantic_lines_before :: "string \<Rightarrow> Prefixes \<Rightarrow> string list" where
  "semantic_lines_before nowISO prefixes =
     [semantic_header nowISO prefixes,
      ''@layer ui.theme {'',
      ''  :root {'',
      ''    color-scheme: light dark;'',
      []]"

definition semantic_lines_after ::
  "(string \<Rightarrow> string \<Rightarrow> int) \<Rightarrow> SemanticConfig \<Rightarrow> Prefixes \<Rightarrow> real \<Rightarrow> string list" where
  "semantic_lines_after localeCompare sem prefixes seedHue =
     [[],
      ''    /* Shadow Color (for atomic shadows) */'',
      ''    --'' @ pfx_semantic prefixes @
        ''-color-shadow: light-dark(oklch(0 0 0 / 0.1), oklch(0 0 0 / 0.6));'',
      [],
      ''    /* Shadow Hue (derived from seed color) */'',
      ''    --'' @ pfx_semantic prefixes @ ''-shadow-hue: '' @ int_to_string (Math_round seedHue) @ '';''] @
     concat (map (category_lines localeCompare sem prefixes) SEMANTIC_CATEGORIES) @
     [''  }'',
      [],
      ''  /* Theme Toggles */'',
      ''  :root[data-theme='' @ [CHR 0x22] @ ''light'' @ [CHR 0x22] @ ''] { color-scheme: light; }'',
      ''  :root[data-theme='' @ [CHR 0x22] @ ''dark'' @ [CHR 0x22] @ ''] { color-scheme: dark; }'',
      ''}'',
      []]"

definition generateSemanticCSS ::
  "'color culori \<Rightarrow> (string \<Rightarrow> string \<Rightarrow> int) \<Rightarrow> string \<Rightarrow> SchemeColors \<Rightarrow> SchemeColors \<Rightarrow>
   SemanticConfig \<Rightarrow> Prefixes \<Rightarrow> ColorFormat \<Rightarrow> real \<Rightarrow> error + string" where
  "generateSemanticCSS lib localeCompare nowISO lightScheme darkScheme sem prefixes fmt seedHue =
     (case color_loop (\<lambda>hex. formatColor lib hex fmt) (pfx_semantic prefixes) lightScheme darkScheme
             COLOR_ROLE_MAP [] (semantic_lines_before nowISO prefixes) of
        Inl e \<Rightarrow> Inl e
      | Inr (currentGroup, lines) \<Rightarrow>
          Inr (join_lines (lines @ semantic_lines_after localeCompare sem prefixes seedHue)))"

text \<open>
  The colour-role section as the specification words it: the roles whose light and dark
  values are both present, in the declared order, one declaration each; the comment
  header of a group stands before the first role of the group, after an empty line
  unless it is the first header.
\<close>

definition role_present :: "SchemeColors \<Rightarrow> SchemeColors \<Rightarrow> role \<Rightarrow> bool" where
  "role_present lightScheme darkScheme r =
     (truthy (map_of lightScheme (schemeKey r)) \<and> truthy (map_of darkScheme (schemeKey r)))"

fun grouped_lines :: "string \<Rightarrow> string \<Rightarrow> (role \<times> string \<times> string) list \<Rightarrow> string list" where
  "grouped_lines sp previousGroup [] = []"
| "grouped_lines sp previousGroup ((r, lightFormatted, darkFormatted) # rows) =
     (if roleGroup r \<noteq> previousGroup
      then (if previousGroup \<noteq> [] then [[]] else []) @ [''    /* '' @ roleGroup r @ '' */'']
      else []) @
     [color_decl sp r lightFormatted darkFormatted] @
     grouped_lines sp (roleGroup r) rows"

definition formatted_row ::
  "(string \<Rightarrow> error + string) \<Rightarrow> SchemeColors \<Rightarrow> SchemeColors \<Rightarrow> role \<Rightarrow> role \<times> string \<times> string" where
  "formatted_row fmt lightScheme darkScheme r =
     (r, projr (fmt (the (map_of lightScheme (schemeKey r)))),
         projr (fmt (the (map_of darkScheme (schemeKey r)))))"




section \<open>The palette renderer (tokens/palettes.ts)\<close>

definition PALETTE_ORDER :: "string list" where
  "PALETTE_ORDER = [''primary'', ''secondary'', ''tertiary'', ''error'', ''neutral'', ''neutral-variant'']"

definition TONE_STEPS :: "string list" where
  "TONE_STEPS = [''0'', ''5'', ''10'', ''15'', ''20'', ''25'', ''30'', ''35'', ''40'',
                 ''50'', ''60'', ''70'', ''80'', ''90'', ''95'', ''98'', ''99'', ''100'']"

definition PALETTE_DISPLAY_NAMES :: "(string \<times> string) list" where
  "PALETTE_DISPLAY_NAMES =
     [(''primary'', ''Primary''), (''secondary'', ''Secondary''), (''tertiary'', ''Tertiary''),
      (''error'', ''Error''), (''neutral'', ''Neutral''), (''neutral-variant'', ''Neutral Variant'')]"

text \<open>\<open>palettes[paletteName]\<close>: the theme has no palette named \<open>error\<close>.\<close>

definition palette_named :: "Palettes \<Rightarrow> string \<Rightarrow> TonalPaletteColors option" where
  "palette_named ps paletteName =
     (if paletteName = ''primary'' then Some (pal_primary ps)
      else if paletteName = ''secondary'' then Some (pal_secondary ps)
      else if paletteName = ''tertiary'' then Some (pal_tertiary ps)
      else if paletteName = ''neutral'' then Some (pal_neutral ps)
      else if paletteName = ''neutral-variant'' then Some (pal_neutral_variant ps)
      else None)"

definition format_name :: "ColorFormat \<Rightarrow> string" where
  "format_name f = (case f of Oklch \<Rightarrow> ''oklch'' | Hex \<Rightarrow> ''hex'' | Hsl \<Rightarrow> ''hsl'' | Rgb \<Rightarrow> ''rgb'')"

text \<open>The inner loop over \<open>TONE_STEPS\<close>, and the outer loop over \<open>PALETTE_ORDER\<close> with
  its flag \<open>first\<close>.\<close>

fun tone_loop ::
  "'color culori \<Rightarrow> ColorFormat \<Rightarrow> string \<Rightarrow> string \<Rightarrow> TonalPaletteColors \<Rightarrow> string list \<Rightarrow>
   string list \<Rightarrow> error + string list" where
  "tone_loop lib fmt palettePrefix paletteName palette [] lines = Inr lines"
| "tone_loop lib fmt palettePrefix paletteName palette (step # steps) lines =
     (if \<not> truthy (map_of palette step) then tone_loop lib fmt palettePrefix paletteName palette steps lines
      else (case formatColor lib (the (map_of palette step)) fmt of
              Inl e \<Rightarrow> Inl e
            | Inr cssValue \<Rightarrow>
                tone_loop lib fmt palettePrefix paletteName palette steps
                  (lines @ [''  '' @ (''--'' @ palettePrefix @ ''-palette-'' @ paletteName @ ''-'' @ step) @
                            '': '' @ cssValue @ '';''])))"

fun palette_loop ::
  "'color culori \<Rightarrow> ColorFormat \<Rightarrow> string \<Rightarrow> Palettes \<Rightarrow> string list \<Rightarrow> bool \<Rightarrow> string list \<Rightarrow>
   error + string list" where
  "palette_loop lib fmt palettePrefix ps [] first lines = Inr lines"
| "palette_loop lib fmt palettePrefix ps (paletteName # names) first lines =
     (case palette_named ps paletteName of
        None \<Rightarrow> palette_loop lib fmt palettePrefix ps names first lines
      | Some palette \<Rightarrow>
          (let lines1 = (if \<not> first then lines @ [[]] else lines);
               displayName = (if truthy (map_of PALETTE_DISPLAY_NAMES paletteName)
                              then the (map_of PALETTE_DISPLAY_NAMES paletteName) else paletteName);
               lines2 = lines1 @ [''  /* '' @ displayName @ '' palette */'']
           in case tone_loop lib fmt palettePrefix paletteName palette TONE_STEPS lines2 of
                Inl e \<Rightarrow> Inl e
              | Inr lines3 \<Rightarrow> palette_loop lib fmt palettePrefix ps names False lines3))"

definition generatePalettesCSS ::
  "'color culori \<Rightarrow> string \<Rightarrow> Palettes \<Rightarrow> string \<Rightarrow> Prefixes \<Rightarrow> ColorFormat \<Rightarrow> error + string" where
  "generatePalettesCSS lib nowISO ps seedText prefixes fmt =
     (case hexToOklch lib seedText of
        Inl e \<Rightarrow> Inl e
      | Inr seedFormatted \<Rightarrow>
          (let header = generateHeader nowISO ''Material Design Palettes (Tier 1 Primitives)''
                 (Some ''Material Theme Builder'')
                 (Some (''Seed: '' @ seedText @ '' ('' @ seedFormatted @ '')'' @ [CHR 0x0A] @
                        ''Format: '' @ toUpperCase (format_name fmt) @ [CHR 0x0A] @
                        ''Prefix: --'' @ pfx_palette prefixes @ ''-palette-*''))
           in case palette_loop lib fmt (pfx_palette prefixes) ps PALETTE_ORDER True [header, '':root {''] of
                Inl e \<Rightarrow> Inl e
              | Inr lines \<Rightarrow> Inr (join_lines (lines @ [''}'', []]))))"

section \<open>The index file (tokens/css.ts)\<close>

text \<open>The default order of \<open>Array.prototype.sort\<close>: texts compared by their code units.\<close>

fun str_less :: "string \<Rightarrow> string \<Rightarrow> bool" where
  "str_less [] [] = False"
| "str_less [] (y # ys) = True"
| "str_less (x # xs) [] = False"
| "str_less (x # xs) (y # ys) =
     ((of_char x :: nat) < of_char y \<or> (x = y \<and> str_less xs ys))"

definition default_compare :: "string \<Rightarrow> string \<Rightarrow> int" where
  "default_compare a b = (if str_less a b then - 1 else if str_less b a then 1 else 0)"

definition generateIndexCSS :: "string \<Rightarrow> string list \<Rightarrow> Prefixes \<Rightarrow> string \<Rightarrow> string \<Rightarrow> string" where
  "generateIndexCSS nowISO openPropsFiles prefixes paletteSubdir openpropsSubdir =
     (let sortedFiles = sort_by default_compare openPropsFiles;
          header = generateHeader nowISO ''Tokens Layer - Main Entry Point'' None
            (Some (join_lines
               [''Prefix Legend:'',
                ''  --'' @ pfx_palette prefixes @ ''-palette-* = Material Design palettes (raw color steps)'',
                ''  --'' @ pfx_primitives prefixes @ ''-*      = Open Props primitives (raw values)'',
                ''  --'' @ pfx_semantic prefixes @ ''-*        = Application tokens (USE THESE!)'',
                [],
                ''Tier 1: Warehouses (Primitives)'',
                ''Tier 2: Showroom (Semantic)'',
                ''Tier 3: App-Specific (manual)'']))
      in join_lines
           ([header,
             ''/* === Tier 1: Warehouses (Primitives) === */'',
             ''@import '' @ [CHR 0x22] @ ''./'' @ paletteSubdir @ ''/palettes.css'' @ [CHR 0x22] @ '';''] @
            map (\<lambda>name. ''@import '' @ [CHR 0x22] @ ''./'' @ openpropsSubdir @ ''/'' @ name @ ''.css'' @
                          [CHR 0x22] @ '';'') sortedFiles @
            [[],
             ''/* === Tier 2: Showroom (Semantic) === */'',
             ''@import '' @ [CHR 0x22] @ ''./semantic.css'' @ [CHR 0x22] @ '';'',
             [],
             ''/* === Tier 3: App-Specific === */'',
             ''@import '' @ [CHR 0x22] @ ''./app.css'' @ [CHR 0x22] @ '';'',
             []]))"

section \<open>The orchestrator (tokens/index.ts)\<close>

text \<open>
  The file system is outside the program: its state is a type parameter, and the calls
  the orchestrator makes are parameters of the model. \<open>mkdir(path, {recursive: true})\<close>
  and \<open>writeFile(path, data)\<close> of \<open>node:fs/promises\<close> give the error they throw, if any,
  and the file system as they leave it; \<open>stat\<close> resolves or rejects and changes nothing;
  \<open>join\<close> of \<open>node:path\<close> makes one path of two.
\<close>

text \<open>
  Everything outside the program that a run depends on: the colour engine, the colour
  library, the collation of the locale, the text of a built-in function, the network,
  the clock (the reading at the time the named file's text is generated), and the file
  system calls.
\<close>

record ('hct, 'scheme, 'pal, 'color, 'fs) world =
  w_engine :: "('hct, 'scheme, 'pal) engine"
  w_culori :: "'color culori"
  w_localeCompare :: "string \<Rightarrow> string \<Rightarrow> int"
  w_showInherited :: "string \<Rightarrow> string"
  w_net :: "string \<Rightarrow> fetch_outcome"
  w_clock :: "string \<Rightarrow> string"
  w_join :: "string \<Rightarrow> string \<Rightarrow> string"
  w_mkdir :: "string \<Rightarrow> 'fs \<Rightarrow> error option \<times> 'fs"
  w_writeFile :: "string \<Rightarrow> string \<Rightarrow> 'fs \<Rightarrow> error option \<times> 'fs"
  w_stat :: "string \<Rightarrow> 'fs \<Rightarrow> bool"

text \<open>
  \<open>fileExists\<close>: \<open>true\<close> when \<open>stat\<close> resolves, \<open>false\<close> when it rejects. \<open>stat\<close> resolves for
  whatever is at the path, a directory as well as a file.
\<close>

definition fileExists ::
  "('hct, 'scheme, 'pal, 'color, 'fs) world \<Rightarrow> 'fs \<Rightarrow> string \<Rightarrow> bool" where
  "fileExists w fs path = w_stat w path fs"

text \<open>One awaited call after another: an error thrown by the first ends the run.\<close>

definition and_then ::
  "error option \<times> 'fs \<Rightarrow> ('fs \<Rightarrow> error option \<times> 'fs) \<Rightarrow> error option \<times> 'fs" where
  "and_then r f = (case r of (Some e, fs) \<Rightarrow> (Some e, fs) | (None, fs) \<Rightarrow> f fs)"

record TokenGeneratorOptions =
  opt_seed :: string
  opt_output :: "string option"
  opt_format :: "ColorFormat option"
  opt_scheme :: "SchemeVariant option"
  opt_config :: "UserConfig option"

text \<open>The configuration that \<open>generateTokens\<close> resolves from its options.\<close>

definition resolveConfig :: "TokenGeneratorOptions \<Rightarrow> TokenConfig" where
  "resolveConfig options =
     (let fmt = override Oklch (opt_format options);
          userConfig = override \<lparr> u_format = None, u_prefixes = None, u_output = None,
                                  u_openprops = None, u_semantic = None \<rparr> (opt_config options);
          userOutput = override \<lparr> u_dir = None, u_paletteSubdir = None, u_openpropsSubdir = None \<rparr>
                         (u_output userConfig);
          dir = (if truthy (opt_output options) then the (opt_output options)
                 else if truthy (u_dir userOutput) then the (u_dir userOutput)
                 else out_dir (cfg_output DEFAULT_CONFIG))
      in mergeConfig (userConfig \<lparr> u_format := Some fmt,
                                    u_output := Some (userOutput \<lparr> u_dir := Some dir \<rparr>) \<rparr>))"

text \<open>The loop that writes the adapted third-party files, in the order of the entries.\<close>

fun write_openprops ::
  "('hct, 'scheme, 'pal, 'color, 'fs) world \<Rightarrow> string \<Rightarrow> (string \<times> string) list \<Rightarrow> 'fs \<Rightarrow>
   error option \<times> 'fs" where
  "write_openprops w openPropsDir [] fs = (None, fs)"
| "write_openprops w openPropsDir (entry # rest) fs =
     and_then (w_writeFile w (w_join w openPropsDir (fst entry @ ''.css'')) (snd entry) fs)
       (write_openprops w openPropsDir rest)"

text \<open>
  \<open>generateTokens\<close>: the result is the error thrown, if any, and the file system as the
  run leaves it.
\<close>

definition generateTokens ::
  "('hct, 'scheme, 'pal, 'color, 'fs) world \<Rightarrow> TokenGeneratorOptions \<Rightarrow> 'fs \<Rightarrow>
   error option \<times> 'fs" where
  "generateTokens w options fs0 =
     (let config = resolveConfig options;
          scheme = override TonalSpot (opt_scheme options);
          outputDir = out_dir (cfg_output config);
          materialDir = w_join w outputDir (out_paletteSubdir (cfg_output config));
          openPropsDir = w_join w outputDir (out_openpropsSubdir (cfg_output config))
      in and_then (w_mkdir w outputDir fs0) (\<lambda>fs.
         and_then (w_mkdir w materialDir fs) (\<lambda>fs.
         and_then (w_mkdir w openPropsDir fs) (\<lambda>fs.
         case generateTheme (w_engine w) (w_clock w ''theme'') (opt_seed options) scheme of
           Inl msg \<Rightarrow> (Some (EngineError msg), fs)
         | Inr theme \<Rightarrow>
        (case getHue (w_culori w) (opt_seed options) of
           Inl e \<Rightarrow> (Some e, fs)
         | Inr seedHue \<Rightarrow>
        (case generatePalettesCSS (w_culori w) (w_clock w ''palettes'') (palettes theme)
                (opt_seed options) (cfg_prefixes config) (cfg_format config) of
           Inl e \<Rightarrow> (Some e, fs)
         | Inr palettesCSS \<Rightarrow>
         and_then (w_writeFile w (w_join w materialDir ''palettes.css'') palettesCSS fs) (\<lambda>fs.
         case fst (fetchAllOpenProps (w_showInherited w) (w_net w) (w_clock w)
                     (op_baseUrl (cfg_openprops config)) (op_files (cfg_openprops config))
                     (pfx_primitives (cfg_prefixes config)) seedHue) of
           Inl e \<Rightarrow> (Some e, fs)
         | Inr openPropsFiles \<Rightarrow>
         and_then (write_openprops w openPropsDir openPropsFiles fs) (\<lambda>fs.
         case generateSemanticCSS (w_culori w) (w_localeCompare w) (w_clock w ''semantic'')
                (light (schemes theme)) (dark (schemes theme)) (cfg_semantic config)
                (cfg_prefixes config) (cfg_format config) seedHue of
           Inl e \<Rightarrow> (Some e, fs)
         | Inr semanticCSS \<Rightarrow>
         and_then (w_writeFile w (w_join w outputDir ''semantic.css'') semanticCSS fs) (\<lambda>fs.
         and_then (w_writeFile w (w_join w outputDir ''index.css'')
                     (generateIndexCSS (w_clock w ''index'') (op_files (cfg_openprops config))
                        (cfg_prefixes config) (out_paletteSubdir (cfg_output config))
                        (out_openpropsSubdir (cfg_output config))) fs) (\<lambda>fs.
         if \<not> fileExists w fs (w_join w outputDir ''app.css'')
         then w_writeFile w (w_join w outputDir ''app.css'') generateAppCSS fs
         else (None, fs)))))))))))"

text \<open>The directories a run makes, the paths of the files that every successful run
  writes, and the path of the scaffold file.\<close>

definition made_dirs ::
  "('hct, 'scheme, 'pal, 'color, 'fs) world \<Rightarrow> TokenConfig \<Rightarrow> string list" where
  "made_dirs w config =
     (let outputDir = out_dir (cfg_output config) in
      [outputDir, w_join w outputDir (out_paletteSubdir (cfg_output config)),
       w_join w outputDir (out_openpropsSubdir (cfg_output config))])"

definition generated_paths ::
  "('hct, 'scheme, 'pal, 'color, 'fs) world \<Rightarrow> TokenConfig \<Rightarrow> string list" where
  "generated_paths w config =
     (let outputDir = out_dir (cfg_output config) in
      [w_join w (w_join w outputDir (out_paletteSubdir (cfg_output config))) ''palettes.css''] @
      map (\<lambda>name. w_join w (w_join w outputDir (out_openpropsSubdir (cfg_output config)))
                    (name @ ''.css''))
          (op_files (cfg_openprops config)) @
      [w_join w outputDir ''semantic.css'', w_join w outputDir ''index.css''])"

definition app_path ::
  "('hct, 'scheme, 'pal, 'color, 'fs) world \<Rightarrow> TokenConfig \<Rightarrow> string" where
  "app_path w config = w_join w (out_dir (cfg_output config)) ''app.css''"

text \<open>
  What the theorems on \<open>generateTokens\<close> ask of the file system, for the directories
  \<open>dirs\<close> the run makes, the paths \<open>paths\<close> of the files it writes and the path \<open>app\<close> of
  the scaffold file; \<open>content p fs\<close> is the text of the file at \<open>p\<close>, if a file is there. A
  write that succeeds leaves the text written; a write, whether it succeeds or not,
  leaves the text of the files at the other paths; making a directory leaves the text of
  every file; making the directories and writing the other files neither puts anything
  at the scaffold path nor takes it away; a file that is there can be \<open>stat\<close>ed; and the
  scaffold path is none of the other paths.
\<close>

definition fs_laws ::
  "('hct, 'scheme, 'pal, 'color, 'fs) world \<Rightarrow> (string \<Rightarrow> 'fs \<Rightarrow> string option) \<Rightarrow>
   string list \<Rightarrow> string list \<Rightarrow> string \<Rightarrow> bool" where
  "fs_laws w content dirs paths app =
     ((\<forall>p\<in>set (app # paths). \<forall>c fs.
         fst (w_writeFile w p c fs) = None \<longrightarrow> content p (snd (w_writeFile w p c fs)) = Some c) \<and>
      (\<forall>p\<in>set (app # paths). \<forall>q\<in>set (app # paths). p \<noteq> q \<longrightarrow>
         (\<forall>c fs. content q (snd (w_writeFile w p c fs)) = content q fs)) \<and>
      (\<forall>d\<in>set dirs. \<forall>q\<in>set (app # paths). \<forall>fs.
         content q (snd (w_mkdir w d fs)) = content q fs) \<and>
      (\<forall>p\<in>set paths. \<forall>c fs. w_stat w app (snd (w_writeFile w p c fs)) = w_stat w app fs) \<and>
      (\<forall>d\<in>set dirs. \<forall>fs. w_stat w app (snd (w_mkdir w d fs)) = w_stat w app fs) \<and>
      (\<forall>c fs. content app fs = Some c \<longrightarrow> w_stat w app fs) \<and>
      app \<notin> set paths)"

text \<open>
  The file-system calls of a run up to the scaffold check, in their order, and the point
  where a computation throws: \<open>steps\<close> lists them, \<open>perform\<close> makes them. None of the
  computations reads the file system, so \<open>generateTokens\<close> is \<open>perform\<close> on \<open>steps\<close> followed
  by the scaffold check (lemma \<open>generateTokens_steps\<close>).
\<close>

datatype fs_step = Mkdir string | WriteFile string string | Throw error

fun perform ::
  "('hct, 'scheme, 'pal, 'color, 'fs) world \<Rightarrow> fs_step list \<Rightarrow> 'fs \<Rightarrow> error option \<times> 'fs" where
  "perform w [] fs = (None, fs)"
| "perform w (Mkdir d # rest) fs = and_then (w_mkdir w d fs) (perform w rest)"
| "perform w (WriteFile p c # rest) fs = and_then (w_writeFile w p c fs) (perform w rest)"
| "perform w (Throw e # rest) fs = (Some e, fs)"

definition steps ::
  "('hct, 'scheme, 'pal, 'color, 'fs) world \<Rightarrow> TokenGeneratorOptions \<Rightarrow> fs_step list" where
  "steps w options =
     (let config = resolveConfig options;
          scheme = override TonalSpot (opt_scheme options);
          outputDir = out_dir (cfg_output config);
          materialDir = w_join w outputDir (out_paletteSubdir (cfg_output config));
          openPropsDir = w_join w outputDir (out_openpropsSubdir (cfg_output config))
      in [Mkdir outputDir, Mkdir materialDir, Mkdir openPropsDir] @
         (case generateTheme (w_engine w) (w_clock w ''theme'') (opt_seed options) scheme of
            Inl msg \<Rightarrow> [Throw (EngineError msg)]
          | Inr theme \<Rightarrow>
         (case getHue (w_culori w) (opt_seed options) of
            Inl e \<Rightarrow> [Throw e]
          | Inr seedHue \<Rightarrow>
         (case generatePalettesCSS (w_culori w) (w_clock w ''palettes'') (palettes theme)
                 (opt_seed options) (cfg_prefixes config) (cfg_format config) of
            Inl e \<Rightarrow> [Throw e]
          | Inr palettesCSS \<Rightarrow>
          [WriteFile (w_join w materialDir ''palettes.css'') palettesCSS] @
         (case fst (fetchAllOpenProps (w_showInherited w) (w_net w) (w_clock w)
                      (op_baseUrl (cfg_openprops config)) (op_files (cfg_openprops config))
                      (pfx_primitives (cfg_prefixes config)) seedHue) of
            Inl e \<Rightarrow> [Throw e]
          | Inr openPropsFiles \<Rightarrow>
          map (\<lambda>entry. WriteFile (w_join w openPropsDir (fst entry @ ''.css'')) (snd entry))
            openPropsFiles @
         (case generateSemanticCSS (w_culori w) (w_localeCompare w) (w_clock w ''semantic'')
                 (light (schemes theme)) (dark (schemes theme)) (cfg_semantic config)
                 (cfg_prefixes config) (cfg_format config) seedHue of
            Inl e \<Rightarrow> [Throw e]
          | Inr semanticCSS \<Rightarrow>
          [WriteFile (w_join w outputDir ''semantic.css'') semanticCSS,
           WriteFile (w_join w outputDir ''index.css'')
             (generateIndexCSS (w_clock w ''index'') (op_files (cfg_openprops config))
                (cfg_prefixes config) (out_paletteSubdir (cfg_output config))
                (out_openpropsSubdir (cfg_output config)))]))))))"

fun writes_of :: "fs_step list \<Rightarrow> (string \<times> string) list" where
  "writes_of [] = []"
| "writes_of (WriteFile p c # rest) = (p, c) # writes_of rest"
| "writes_of (s # rest) = writes_of rest"

text \<open>
  A sample world and sample options, used to run the orchestrator on concrete input: a
  colour engine and a colour library that answer with constants, a network that serves
  one small style sheet for every address, a clock that stands still, and a small file
  system: a map from paths to files and directories, in which a directory cannot be made
  where a file is, a file cannot be written where a directory is, and \<open>join\<close> puts a
  slash between its arguments.
\<close>

datatype entry = File string | Directory

definition sample_mkdir ::
  "string \<Rightarrow> (string \<Rightarrow> entry option) \<Rightarrow> error option \<times> (string \<Rightarrow> entry option)" where
  "sample_mkdir d fs =
     (case fs d of
        Some (File c) \<Rightarrow> (Some (FsError ''EEXIST''), fs)
      | _ \<Rightarrow> (None, fs(d \<mapsto> Directory)))"

definition sample_writeFile ::
  "string \<Rightarrow> string \<Rightarrow> (string \<Rightarrow> entry option) \<Rightarrow> error option \<times> (string \<Rightarrow> entry option)" where
  "sample_writeFile p c fs =
     (case fs p of
        Some Directory \<Rightarrow> (Some (FsError ''EISDIR''), fs)
      | _ \<Rightarrow> (None, fs(p \<mapsto> File c)))"

definition sample_content :: "string \<Rightarrow> (string \<Rightarrow> entry option) \<Rightarrow> string option" where
  "sample_content p fs = (case fs p of Some (File c) \<Rightarrow> Some c | _ \<Rightarrow> None)"

definition sample_world ::
  "string \<Rightarrow> (nat, unit, unit, unit, string \<Rightarrow> entry option) world" where
  "sample_world now =
     \<lparr> w_engine = \<lparr> argbFromHex = (\<lambda>h. Inr 0), hctFromInt = (\<lambda>n. n),
                     newScheme = (\<lambda>v h d c. ()), schemeRole = (\<lambda>s k. 0),
                     schemePalette = (\<lambda>s k. ()), paletteTone = (\<lambda>p t. 0),
                     hexFromArgbLower = (\<lambda>n. ''#000000'') \<rparr>,
       w_culori = \<lparr> c_parse = (\<lambda>s. Some ()), c_oklch = (\<lambda>c. (Some (3 / 5), Some 0, None)),
                     c_formatHsl = (\<lambda>s. None), c_formatRgb = (\<lambda>s. None),
                     c_formatHex_other = (\<lambda>s. None) \<rparr>,
       w_localeCompare = (\<lambda>a b. 0),
       w_showInherited = (\<lambda>k. ''function'' ),
       w_net = (\<lambda>url. Response 200 (Some '':where(html) { --size-1: .25rem; }'')),
       w_clock = (\<lambda>label. now),
       w_join = (\<lambda>a b. a @ ''/'' @ b),
       w_mkdir = sample_mkdir,
       w_writeFile = sample_writeFile,
       w_stat = (\<lambda>p fs. fs p \<noteq> None) \<rparr>"

definition sample_options :: TokenGeneratorOptions where
  "sample_options =
     \<lparr> opt_seed = ''#769CDF'', opt_output = None, opt_format = Some Hex, opt_scheme = None,
       opt_config = Some \<lparr> u_format = None, u_prefixes = None, u_output = None,
                           u_openprops = Some \<lparr> u_baseUrl = None, u_files = Some [''sizes''] \<rparr>,
                           u_semantic = None \<rparr> \<rparr>"

definition sample_files :: "string \<Rightarrow> entry option" where
  "sample_files =
     [''./tokens/app.css'' \<mapsto> File ''/* mine */'', ''./tokens/index.css'' \<mapsto> File ''old'']"

text \<open>
  The replacement of \<open>prefixOpenPropsCSS\<close> taken up in the middle of a text: \<open>pre\<close> is
  the text before the position and \<open>s\<close> the text from it. \<open>prefixOpenPropsCSS\<close> is the
  replacement from the start of the text.
\<close>

definition prefixFrom :: "string \<Rightarrow> string \<Rightarrow> string \<Rightarrow> string" where
  "prefixFrom prefix pre s = replace_global match_decl (''$1--'' @ prefix @ ''-$3:'') pre s"

text \<open>\<open>occurs l s\<close>: the text \<open>l\<close> occurs somewhere in \<open>s\<close> (\<open>s.includes(l)\<close>).\<close>

fun occurs :: "string \<Rightarrow> string \<Rightarrow> bool" where
  "occurs l [] = (l = [])"
| "occurs l (c # s) = (startsWith (c # s) l \<or> occurs l s)"

text \<open>A sample in the layout of the Open Props shadows source file.\<close>

definition shadows_sample :: string where
  "shadows_sample =
     ''@import '' @ [CHR 0x27] @ ''props.media.css'' @ [CHR 0x27] @ '';'' @ [CHR 0x0A, CHR 0x0A] @
     '':where(html) {'' @ [CHR 0x0A] @
     ''  --shadow-color: 220 3% 15%;'' @ [CHR 0x0A] @
     ''  --shadow-strength: 1%;'' @ [CHR 0x0A] @
     ''  --shadow-1: 0 1px 2px -1px hsl(var(--shadow-color) / calc(var(--shadow-strength) + 9%));'' @
     [CHR 0x0A] @
     ''}'' @ [CHR 0x0A, CHR 0x0A] @
     ''@media (--OSdark) {'' @ [CHR 0x0A] @
     ''  :where(html) {'' @ [CHR 0x0A] @
     ''    --shadow-color: 220 40% 2%;'' @ [CHR 0x0A] @
     ''    --shadow-strength: 25%;'' @ [CHR 0x0A] @
     ''  }'' @ [CHR 0x0A] @
     ''}'' @ [CHR 0x0A]"

section \<open>Hex normalisation\<close>

lemma hex_chars:
  "list_all (\<lambda>c. upper_units c = [upper_char c] \<and>
                upper_char c \<in> set ''0123456789ABCDEF'' \<and>
                lower_char (upper_char c) = lower_char c \<and>
                upper_char (lower_char c) = upper_char c \<and>
                upper_char (upper_char c) = upper_char c \<and>
                upper_units (upper_char c) = [upper_char c] \<and>
                is_hex (upper_char c) \<and> is_hex (lower_char c))
     ''0123456789abcdefABCDEF''"
  by code_simp

lemma hex_char:
  assumes "is_hex c"
  shows "upper_units c = [upper_char c]" "upper_char c \<in> set ''0123456789ABCDEF''"
    "lower_char (upper_char c) = lower_char c" "upper_char (lower_char c) = upper_char c"
    "upper_char (upper_char c) = upper_char c" "upper_units (upper_char c) = [upper_char c]"
    "is_hex (upper_char c)" "is_hex (lower_char c)"
  using hex_chars assms unfolding list_all_iff is_hex_def by blast+

lemma canonical_chars:
  "list_all (\<lambda>c. upper_char c = c \<and> is_hex c) ''0123456789ABCDEF''"
  by (simp add: upper_char_def lowerAlpha_def upperAlpha_def is_hex_def)

lemma canonical_char:
  assumes "c \<in> set ''0123456789ABCDEF''"
  shows "upper_char c = c" "is_hex c"
  using canonical_chars assms unfolding list_all_iff by blast+

lemma upper_units_hash: "upper_units (CHR ''#'') = ''#''"
  by (simp add: upper_units_def upper_char_def lowerAlpha_def upperAlpha_def)

lemma toUpperCase_Cons: "toUpperCase (c # s) = upper_units c @ toUpperCase s"
  by (simp add: toUpperCase_def)

lemma toUpperCase_hash: "toUpperCase (CHR ''#'' # s) = CHR ''#'' # toUpperCase s"
  by (simp add: toUpperCase_Cons upper_units_hash)

lemma toUpperCase_hex:
  "list_all is_hex body \<Longrightarrow> toUpperCase body = map upper_char body"
  by (induction body) (simp_all add: toUpperCase_def hex_char(1))

lemma upper_hex:
  assumes "list_all is_hex body"
  shows "list_all is_hex (map upper_char body)"
    and "map lower_char (map upper_char body) = map lower_char body"
    and "map upper_char (map lower_char body) = map upper_char body"
    and "map upper_char (map upper_char body) = map upper_char body"
  using assms by (induction body) (simp_all add: hex_char)

lemma upper_hex_canonical:
  assumes "list_all is_hex body"
  shows "list_all (\<lambda>c. c \<in> set ''0123456789ABCDEF'') (map upper_char body)"
  unfolding list_all_iff
proof
  fix x
  assume "x \<in> set (map upper_char body)"
  then obtain c where c: "c \<in> set body" "x = upper_char c" by auto
  from c(1) assms have "is_hex c" by (simp add: list_all_iff)
  from hex_char(2) [OF this] c(2) show "x \<in> set ''0123456789ABCDEF''" by blast
qed

lemma lower_hex: "list_all is_hex body \<Longrightarrow> list_all is_hex (map lower_char body)"
  by (induction body) (simp_all add: hex_char)

lemma hex_not_hash: "list_all is_hex body \<Longrightarrow> \<not> startsWith body ''#''"
  by (cases body) (auto simp: startsWith_def is_hex_def)

lemma formatHex_six:
  assumes "length body = 6" and "list_all is_hex body"
  shows "formatHex lib body = Some (''#'' @ map lower_char body)"
    and "formatHex lib (''#'' @ body) = Some (''#'' @ map lower_char body)"
  using assms hex_not_hash [OF assms(2)]
  by (simp_all add: formatHex_def toLowerCase_def startsWith_def)

lemma normalizeHex_six:
  assumes "length body = 6" and "list_all is_hex body"
  shows "normalizeHex lib body = Inr (''#'' @ toUpperCase body)"
    and "normalizeHex lib (''#'' @ body) = Inr (''#'' @ toUpperCase body)"
proof -
  have l: "list_all is_hex (map lower_char body)" using assms(2) by (rule lower_hex)
  have "toUpperCase (''#'' @ map lower_char body) = ''#'' @ toUpperCase body"
    using toUpperCase_hex [OF l] toUpperCase_hex [OF assms(2)] upper_hex(3) [OF assms(2)]
    by (simp add: toUpperCase_hash)
  then show "normalizeHex lib body = Inr (''#'' @ toUpperCase body)"
    and "normalizeHex lib (''#'' @ body) = Inr (''#'' @ toUpperCase body)"
    using formatHex_six [OF assms, of lib] by (simp_all add: normalizeHex_def truthy_def)
qed

lemma normalizeSeed_six:
  assumes "list_all is_hex body"
  shows "normalizeSeed body = ''#'' @ toUpperCase body"
    and "normalizeSeed (''#'' @ body) = ''#'' @ toUpperCase body"
  using hex_not_hash [OF assms]
  by (simp_all add: normalizeSeed_def startsWith_def toUpperCase_hash)

lemma canonicalHex_split:
  assumes "canonicalHex s"
  obtains body where "s = CHR ''#'' # body" "length body = 6"
    "list_all (\<lambda>c. c \<in> set ''0123456789ABCDEF'') body"
proof -
  from assms obtain c body where s: "s = c # body"
    by (cases s) (auto simp: canonicalHex_def)
  with assms have "c = CHR ''#''" "length body = 6"
    "list_all (\<lambda>c. c \<in> set ''0123456789ABCDEF'') body"
    by (auto simp: canonicalHex_def)
  with s that show thesis by blast
qed

lemma canonical_fixed:
  assumes "canonicalHex s"
  shows "normalizeHex lib s = Inr s" and "normalizeSeed s = s"
proof -
  from assms obtain body where s: "s = CHR ''#'' # body" and l: "length body = 6"
    and b: "list_all (\<lambda>c. c \<in> set ''0123456789ABCDEF'') body"
    by (rule canonicalHex_split)
  from b have h: "list_all is_hex body"
    by (induction body) (simp_all add: canonical_char)
  from b have "map upper_char body = body"
    by (induction body) (simp_all add: canonical_char)
  with toUpperCase_hex [OF h] have u: "toUpperCase body = body" by simp
  show "normalizeHex lib s = Inr s" using normalizeHex_six(2) [OF l h, of lib] u s by simp
  show "normalizeSeed s = s" using normalizeSeed_six(2) [OF h] u s by simp
qed

lemmas eval_hex = normalizeHex_def formatHex_def truthy_def startsWith_def toUpperCase_def
  toLowerCase_def upper_units_def upper_char_def lower_char_def lowerAlpha_def upperAlpha_def
  is_hex_def normalizeSeed_def

text \<open>
  C5. Hex normalisation is canonicalising and idempotent, for \<open>normalizeHex\<close> and for
  the seed normalisation of \<open>generateTheme\<close>. Every text of six hex digits, in any casing
  and with or without the leading \<open>#\<close>, is normalised to \<open>#\<close> and the six digits in upper
  case: a text of the form \<open>#RRGGBB\<close> in upper case that differs from the input in casing
  only. Normalising the result again returns it, and so does normalising any value
  already of that form. Each of \<open>769cdf\<close>, \<open>#769cdf\<close> and \<open>#769CDF\<close> gives \<open>#769CDF\<close>.
\<close>

theorem hex_normalization_canonical_idempotent:
  assumes "length body = 6" and "list_all is_hex body"
  shows "normalizeHex lib body = Inr (''#'' @ toUpperCase body) \<and>
         normalizeHex lib (''#'' @ body) = Inr (''#'' @ toUpperCase body) \<and>
         normalizeSeed body = ''#'' @ toUpperCase body \<and>
         normalizeSeed (''#'' @ body) = ''#'' @ toUpperCase body \<and>
         canonicalHex (''#'' @ toUpperCase body) \<and>
         toLowerCase (toUpperCase body) = toLowerCase body \<and>
         normalizeHex lib (''#'' @ toUpperCase body) = Inr (''#'' @ toUpperCase body) \<and>
         normalizeSeed (''#'' @ toUpperCase body) = ''#'' @ toUpperCase body \<and>
         (canonicalHex s \<longrightarrow> normalizeHex lib s = Inr s \<and> normalizeSeed s = s) \<and>
         normalizeHex lib ''769cdf'' = Inr ''#769CDF'' \<and>
         normalizeHex lib ''#769cdf'' = Inr ''#769CDF'' \<and>
         normalizeHex lib ''#769CDF'' = Inr ''#769CDF'' \<and>
         normalizeSeed ''769cdf'' = ''#769CDF'' \<and>
         normalizeSeed ''#769cdf'' = ''#769CDF'' \<and>
         normalizeSeed ''#769CDF'' = ''#769CDF''"
proof -
  note u = toUpperCase_hex [OF assms(2)]
  have c: "canonicalHex (''#'' @ toUpperCase body)"
    using assms(1) upper_hex_canonical [OF assms(2)] unfolding u by (simp add: canonicalHex_def)
  have l: "toLowerCase (toUpperCase body) = toLowerCase body"
    unfolding u using upper_hex(2) [OF assms(2)] by (simp add: toLowerCase_def)
  have a: "normalizeHex lib ''769cdf'' = Inr ''#769CDF''" by (simp add: eval_hex)
  have b: "normalizeHex lib ''#769cdf'' = Inr ''#769CDF''" by (simp add: eval_hex)
  have c': "normalizeHex lib ''#769CDF'' = Inr ''#769CDF''" by (simp add: eval_hex)
  have d: "normalizeSeed ''769cdf'' = ''#769CDF''" by (simp add: eval_hex)
  have e: "normalizeSeed ''#769cdf'' = ''#769CDF''" by (simp add: eval_hex)
  have f: "normalizeSeed ''#769CDF'' = ''#769CDF''" by (simp add: eval_hex)
  show ?thesis
    using normalizeHex_six [OF assms, of lib] normalizeSeed_six [OF assms(2)] c l
      canonical_fixed(1) [OF c, of lib] canonical_fixed(2) [OF c]
      canonical_fixed(1) [of s lib] canonical_fixed(2) [of s] a b c' d e f
    by simp
qed

theorem hex_normalization_witness:
  "normalizeHex \<lparr> c_parse = (\<lambda>s. None :: unit option), c_oklch = (\<lambda>c. (None, None, None)),
      c_formatHsl = (\<lambda>s. None), c_formatRgb = (\<lambda>s. None), c_formatHex_other = (\<lambda>s. None) \<rparr>
     ''00ff7a'' = Inr ''#00FF7A'' \<and>
   normalizeHex \<lparr> c_parse = (\<lambda>s. None :: unit option), c_oklch = (\<lambda>c. (None, None, None)),
      c_formatHsl = (\<lambda>s. None), c_formatRgb = (\<lambda>s. None), c_formatHex_other = (\<lambda>s. None) \<rparr>
     ''#00ff7a'' = Inr ''#00FF7A'' \<and>
   normalizeSeed ''00ff7a'' = ''#00FF7A'' \<and>
   normalizeSeed ''#00ff7a'' = ''#00FF7A'' \<and>
   canonicalHex ''#00FF7A'' \<and>
   normalizeHex \<lparr> c_parse = (\<lambda>s. None :: unit option), c_oklch = (\<lambda>c. (None, None, None)),
      c_formatHsl = (\<lambda>s. None), c_formatRgb = (\<lambda>s. None), c_formatHex_other = (\<lambda>s. None) \<rparr>
     ''#00FF7A'' = Inr ''#00FF7A'' \<and>
   normalizeSeed ''#00FF7A'' = ''#00FF7A''"
proof -
  have h: "length ''00ff7a'' = 6" "list_all is_hex ''00ff7a''"
    by (simp_all add: is_hex_def)
  have u: "toUpperCase ''00ff7a'' = ''00FF7A''"
    by (simp add: toUpperCase_def upper_units_def upper_char_def lowerAlpha_def upperAlpha_def)
  note t = hex_normalization_canonical_idempotent [OF h, where s = "''#00FF7A''" and lib =
      "\<lparr> c_parse = (\<lambda>s. None :: unit option), c_oklch = (\<lambda>c. (None, None, None)),
      c_formatHsl = (\<lambda>s. None), c_formatRgb = (\<lambda>s. None), c_formatHex_other = (\<lambda>s. None) \<rparr>",
      unfolded u]
  from t show ?thesis by simp
qed

section \<open>The generated theme\<close>

lemma normalizeSeed_prefixed:
  "normalizeSeed seedHex =
     ''#'' @ toUpperCase (if startsWith seedHex ''#'' then drop 1 seedHex else seedHex)"
proof (cases "startsWith seedHex ''#''")
  case True
  then obtain r where r: "seedHex = CHR ''#'' # r"
    by (cases seedHex) (auto simp: startsWith_def)
  with True show ?thesis
    by (simp add: normalizeSeed_def toUpperCase_hash)
next
  case False
  then show ?thesis by (simp add: normalizeSeed_def)
qed

lemma generateTheme_Inl:
  "argbFromHex eng (normalizeSeed seedHex) = Inl msg \<Longrightarrow>
     generateTheme eng nowISO seedHex variant = Inl msg"
  by (simp add: generateTheme_def)

lemma generateTheme_Inr:
  "argbFromHex eng (normalizeSeed seedHex) = Inr argb \<Longrightarrow>
     generateTheme eng nowISO seedHex variant =
       Inr \<lparr> description =
                 ''TYPE: CUSTOM'' @ [CHR 0x0A] @ ''Material Theme Builder export '' @ timestamp_of nowISO,
             seed = normalizeSeed seedHex,
             coreColors = \<lparr> primary = normalizeSeed seedHex \<rparr>,
             extendedColors = [],
             schemes = generateSchemes eng (hctFromInt eng argb) variant,
             palettes = generatePalettes eng (hctFromInt eng argb) variant \<rparr>"
  by (simp add: generateTheme_def Let_def)

text \<open>
  C9. For every valid seed, \<open>generateTheme\<close> returns a theme (unless the engine's own
  parser throws, and then that error is the result) whose \<open>seed\<close> is the input seed in
  upper case behind one \<open>#\<close>, and whose \<open>coreColors.primary\<close> is that same text: it is
  the seed field, not a colour computed by the engine.
\<close>

theorem generateTheme_seed_and_primary:
  assumes "isValidHexColor seedHex"
  shows "(case argbFromHex eng (normalizeSeed seedHex) of
           Inl msg \<Rightarrow> generateTheme eng nowISO seedHex variant = Inl msg
         | Inr argb \<Rightarrow> (\<exists>t. generateTheme eng nowISO seedHex variant = Inr t
               \<and> seed t = ''#'' @ toUpperCase (if startsWith seedHex ''#'' then drop 1 seedHex else seedHex)
               \<and> primary (coreColors t) = seed t))"
proof (cases "argbFromHex eng (normalizeSeed seedHex)")
  case (Inl msg)
  then show ?thesis by (simp add: generateTheme_Inl)
next
  case (Inr argb)
  from generateTheme_Inr [OF this, of nowISO variant] Inr normalizeSeed_prefixed [of seedHex]
  show ?thesis by simp
qed

theorem generateTheme_seed_and_primary_witness:
  "isValidHexColor ''769cdf'' \<and>
   (\<exists>t. generateTheme \<lparr> argbFromHex = (\<lambda>h. Inr 0), hctFromInt = (\<lambda>n. n),
        newScheme = (\<lambda>v h d c. ()), schemeRole = (\<lambda>s k. 0), schemePalette = (\<lambda>s k. ()),
        paletteTone = (\<lambda>p t. 0), hexFromArgbLower = (\<lambda>n. ''#000000'') \<rparr>
        ''2026-01-01T00:00:00.000Z'' ''769cdf'' TonalSpot = Inr t
      \<and> seed t = ''#769CDF'' \<and> primary (coreColors t) = ''#769CDF'')"
proof -
  have v: "isValidHexColor ''769cdf''"
    by (simp add: isValidHexColor_def startsWith_def is_hex_def)
  have u: "toUpperCase ''769cdf'' = ''769CDF''"
    by (simp add: toUpperCase_def upper_units_def upper_char_def lowerAlpha_def upperAlpha_def)
  show ?thesis
    using v u generateTheme_seed_and_primary [OF v, of
        "\<lparr> argbFromHex = (\<lambda>h. Inr 0), hctFromInt = (\<lambda>n. n),
        newScheme = (\<lambda>v h d c. ()), schemeRole = (\<lambda>s k. 0), schemePalette = (\<lambda>s k. ()),
        paletteTone = (\<lambda>p t. 0), hexFromArgbLower = (\<lambda>n. ''#000000'') \<rparr>"
        "''2026-01-01T00:00:00.000Z''" TonalSpot]
    by (auto simp: startsWith_def)
qed

text \<open>
  C10. Two calls of \<open>generateTheme\<close> with the same seed and variant, at the clock
  readings \<open>now1\<close> and \<open>now2\<close>: when the engine's parser throws on the seed, both calls
  throw that error; when it accepts the seed, both calls return a theme. The two themes
  have the same \<open>schemes\<close>, \<open>palettes\<close>, \<open>seed\<close>, \<open>coreColors\<close> and \<open>extendedColors\<close>, each
  a function of the seed and the variant alone. The \<open>description\<close> of each holds the time
  stamp of its call, so the descriptions, and with them the whole themes, are equal
  exactly when the two time stamps are.
\<close>

theorem generateTheme_deterministic_up_to_description:
  "(case argbFromHex eng (normalizeSeed seedHex) of
      Inl msg \<Rightarrow>
        generateTheme eng now1 seedHex variant = Inl msg \<and>
        generateTheme eng now2 seedHex variant = Inl msg
    | Inr argb \<Rightarrow>
        (\<exists>t1 t2.
           generateTheme eng now1 seedHex variant = Inr t1 \<and>
           generateTheme eng now2 seedHex variant = Inr t2 \<and>
           schemes t1 = schemes t2 \<and> palettes t1 = palettes t2 \<and> seed t1 = seed t2 \<and>
           coreColors t1 = coreColors t2 \<and> extendedColors t1 = extendedColors t2 \<and>
           schemes t1 = generateSchemes eng (hctFromInt eng argb) variant \<and>
           palettes t1 = generatePalettes eng (hctFromInt eng argb) variant \<and>
           seed t1 = normalizeSeed seedHex \<and>
           coreColors t1 = \<lparr> primary = normalizeSeed seedHex \<rparr> \<and>
           extendedColors t1 = [] \<and>
           description t1 =
             ''TYPE: CUSTOM'' @ [CHR 0x0A] @ ''Material Theme Builder export '' @ timestamp_of now1 \<and>
           description t2 =
             ''TYPE: CUSTOM'' @ [CHR 0x0A] @ ''Material Theme Builder export '' @ timestamp_of now2 \<and>
           (description t1 = description t2) = (timestamp_of now1 = timestamp_of now2) \<and>
           (t1 = t2) = (timestamp_of now1 = timestamp_of now2)))"
proof (cases "argbFromHex eng (normalizeSeed seedHex)")
  case (Inl msg)
  then show ?thesis by (simp add: generateTheme_Inl)
next
  case (Inr argb)
  from generateTheme_Inr [OF this, of now1 variant] generateTheme_Inr [OF this, of now2 variant] Inr
  show ?thesis by simp
qed

text \<open>Two calls one second apart: the colour fields agree, the descriptions do not.\<close>

theorem generateTheme_deterministic_witness:
  "\<exists>t1 t2.
     generateTheme \<lparr> argbFromHex = (\<lambda>h. Inr 0), hctFromInt = (\<lambda>n. n),
        newScheme = (\<lambda>v h d c. ()), schemeRole = (\<lambda>s k. 0), schemePalette = (\<lambda>s k. ()),
        paletteTone = (\<lambda>p t. 0), hexFromArgbLower = (\<lambda>n. ''#000000'') \<rparr>
        ''2026-01-01T00:00:00.000Z'' ''#769CDF'' TonalSpot = Inr t1 \<and>
     generateTheme \<lparr> argbFromHex = (\<lambda>h. Inr 0), hctFromInt = (\<lambda>n. n),
        newScheme = (\<lambda>v h d c. ()), schemeRole = (\<lambda>s k. 0), schemePalette = (\<lambda>s k. ()),
        paletteTone = (\<lambda>p t. 0), hexFromArgbLower = (\<lambda>n. ''#000000'') \<rparr>
        ''2026-01-01T00:00:01.000Z'' ''#769CDF'' TonalSpot = Inr t2 \<and>
     schemes t1 = schemes t2 \<and> palettes t1 = palettes t2 \<and> seed t1 = seed t2 \<and>
     coreColors t1 = coreColors t2 \<and> extendedColors t1 = extendedColors t2 \<and>
     description t1 = ''TYPE: CUSTOM'' @ [CHR 0x0A] @
       ''Material Theme Builder export 2026-01-01 00:00:00'' \<and>
     description t2 = ''TYPE: CUSTOM'' @ [CHR 0x0A] @
       ''Material Theme Builder export 2026-01-01 00:00:01'' \<and>
     description t1 \<noteq> description t2 \<and> t1 \<noteq> t2"
proof -
  have ts: "timestamp_of ''2026-01-01T00:00:00.000Z'' = ''2026-01-01 00:00:00''"
    "timestamp_of ''2026-01-01T00:00:01.000Z'' = ''2026-01-01 00:00:01''"
    by (simp_all add: timestamp_of_def)
  show ?thesis
    using generateTheme_deterministic_up_to_description [where eng =
        "\<lparr> argbFromHex = (\<lambda>h. Inr 0), hctFromInt = (\<lambda>n. n),
        newScheme = (\<lambda>v h d c. ()), schemeRole = (\<lambda>s k. 0), schemePalette = (\<lambda>s k. ()),
        paletteTone = (\<lambda>p t. 0), hexFromArgbLower = (\<lambda>n. ''#000000'') \<rparr>"
        and seedHex = "''#769CDF''" and ?now1.0 = "''2026-01-01T00:00:00.000Z''"
        and variant = TonalSpot and ?now2.0 = "''2026-01-01T00:00:01.000Z''"]
    unfolding ts by auto
qed

section \<open>Merging the configuration\<close>

lemma map_of_obj_set:
  "map_of (obj_set k v kvs) k' = (if k' = k then Some v else map_of kvs k')"
  by (induction kvs) auto

lemma map_of_obj_spread:
  "map_of (obj_spread a b) k =
     (case map_of (rev b) k of Some v \<Rightarrow> Some v | None \<Rightarrow> map_of a k)"
proof (induction b arbitrary: a)
  case Nil
  then show ?case by (simp add: obj_spread_def)
next
  case (Cons kv b)
  have "obj_spread a (kv # b) = obj_spread (obj_set (fst kv) (snd kv) a) b"
    by (simp add: obj_spread_def)
  then show ?case
    using Cons [of "obj_set (fst kv) (snd kv) a"]
    by (cases kv) (auto simp: map_of_obj_set map_add_def split: option.splits)
qed

text \<open>
  C4 (as amended). \<open>mergeConfig\<close> merges one level below each section. In
  \<open>prefixes\<close>, \<open>output\<close> and \<open>openprops\<close> a key the user does not give keeps its
  default, and \<open>format\<close> is the default unless the user gives one. In
  \<open>semantic\<close> the unit is the category: a category the user does not give keeps the
  default category, and a category the user gives is taken as the user wrote it, in place
  of the default category.
\<close>

theorem mergeConfig_one_level:
  "map_of (cfg_semantic (mergeConfig userConfig)) category =
     (case u_semantic userConfig of
        None \<Rightarrow> map_of (cfg_semantic DEFAULT_CONFIG) category
      | Some s \<Rightarrow>
          (case map_of (rev s) category of
             Some entries \<Rightarrow> Some entries
           | None \<Rightarrow> map_of (cfg_semantic DEFAULT_CONFIG) category))
   \<and> cfg_prefixes (mergeConfig userConfig) =
     (case u_prefixes userConfig of
        None \<Rightarrow> cfg_prefixes DEFAULT_CONFIG
      | Some p \<Rightarrow>
          \<lparr> pfx_primitives = (case u_primitives p of None \<Rightarrow> ''op'' | Some v \<Rightarrow> v),
            pfx_palette = (case u_palette p of None \<Rightarrow> ''md'' | Some v \<Rightarrow> v),
            pfx_semantic = (case u_semantic_pfx p of None \<Rightarrow> ''ui'' | Some v \<Rightarrow> v) \<rparr>)
   \<and> cfg_output (mergeConfig userConfig) =
     (case u_output userConfig of
        None \<Rightarrow> cfg_output DEFAULT_CONFIG
      | Some out \<Rightarrow>
          \<lparr> out_dir = (case u_dir out of None \<Rightarrow> ''./tokens'' | Some v \<Rightarrow> v),
            out_paletteSubdir = (case u_paletteSubdir out of None \<Rightarrow> ''material'' | Some v \<Rightarrow> v),
            out_openpropsSubdir =
              (case u_openpropsSubdir out of None \<Rightarrow> ''open-props'' | Some v \<Rightarrow> v) \<rparr>)
   \<and> cfg_openprops (mergeConfig userConfig) =
     (case u_openprops userConfig of
        None \<Rightarrow> cfg_openprops DEFAULT_CONFIG
      | Some op \<Rightarrow>
          \<lparr> op_baseUrl =
              (case u_baseUrl op of None \<Rightarrow> op_baseUrl (cfg_openprops DEFAULT_CONFIG) | Some v \<Rightarrow> v),
            op_files =
              (case u_files op of None \<Rightarrow> op_files (cfg_openprops DEFAULT_CONFIG) | Some v \<Rightarrow> v) \<rparr>)
   \<and> cfg_format (mergeConfig userConfig) =
     (case u_format userConfig of None \<Rightarrow> cfg_format DEFAULT_CONFIG | Some v \<Rightarrow> v)"
proof -
  have sem: "cfg_semantic (mergeConfig userConfig) =
      obj_spread (cfg_semantic DEFAULT_CONFIG)
        (case u_semantic userConfig of None \<Rightarrow> [] | Some s \<Rightarrow> s)"
    by (simp add: mergeConfig_def)
  have a: "map_of (cfg_semantic (mergeConfig userConfig)) category =
     (case u_semantic userConfig of
        None \<Rightarrow> map_of (cfg_semantic DEFAULT_CONFIG) category
      | Some s \<Rightarrow>
          (case map_of (rev s) category of
             Some entries \<Rightarrow> Some entries
           | None \<Rightarrow> map_of (cfg_semantic DEFAULT_CONFIG) category))"
    unfolding sem map_of_obj_spread by (cases "u_semantic userConfig") simp_all
  have b: "cfg_prefixes (mergeConfig userConfig) =
     (case u_prefixes userConfig of
        None \<Rightarrow> cfg_prefixes DEFAULT_CONFIG
      | Some p \<Rightarrow>
          \<lparr> pfx_primitives = (case u_primitives p of None \<Rightarrow> ''op'' | Some v \<Rightarrow> v),
            pfx_palette = (case u_palette p of None \<Rightarrow> ''md'' | Some v \<Rightarrow> v),
            pfx_semantic = (case u_semantic_pfx p of None \<Rightarrow> ''ui'' | Some v \<Rightarrow> v) \<rparr>)"
    by (cases "u_prefixes userConfig") (simp_all add: mergeConfig_def override_def DEFAULT_CONFIG_def)
  have c: "cfg_output (mergeConfig userConfig) =
     (case u_output userConfig of
        None \<Rightarrow> cfg_output DEFAULT_CONFIG
      | Some out \<Rightarrow>
          \<lparr> out_dir = (case u_dir out of None \<Rightarrow> ''./tokens'' | Some v \<Rightarrow> v),
            out_paletteSubdir = (case u_paletteSubdir out of None \<Rightarrow> ''material'' | Some v \<Rightarrow> v),
            out_openpropsSubdir =
              (case u_openpropsSubdir out of None \<Rightarrow> ''open-props'' | Some v \<Rightarrow> v) \<rparr>)"
    by (cases "u_output userConfig") (simp_all add: mergeConfig_def override_def DEFAULT_CONFIG_def)
  have d: "cfg_openprops (mergeConfig userConfig) =
     (case u_openprops userConfig of
        None \<Rightarrow> cfg_openprops DEFAULT_CONFIG
      | Some op \<Rightarrow>
          \<lparr> op_baseUrl =
              (case u_baseUrl op of None \<Rightarrow> op_baseUrl (cfg_openprops DEFAULT_CONFIG) | Some v \<Rightarrow> v),
            op_files =
              (case u_files op of None \<Rightarrow> op_files (cfg_openprops DEFAULT_CONFIG) | Some v \<Rightarrow> v) \<rparr>)"
    by (cases "u_openprops userConfig") (simp_all add: mergeConfig_def override_def)
  have e: "cfg_format (mergeConfig userConfig) =
     (case u_format userConfig of None \<Rightarrow> cfg_format DEFAULT_CONFIG | Some v \<Rightarrow> v)"
    by (simp add: mergeConfig_def override_def)
  from a b c d e show ?thesis by blast
qed

text \<open>
  The claim as stated fails: when the user overrides only \<open>semantic.space.xs\<close>, the
  default entry \<open>semantic.space.sm\<close> is not in the resolved configuration.
\<close>

theorem mergeConfig_drops_default_entries:
  "(case map_of (cfg_semantic DEFAULT_CONFIG) ''space'' of
      Some entries \<Rightarrow> map_of entries ''sm'' | None \<Rightarrow> None) = Some ''size-3'' \<and>
   (case map_of (cfg_semantic (mergeConfig
       \<lparr> u_format = None, u_prefixes = None, u_output = None, u_openprops = None,
         u_semantic = Some [(''space'', [(''xs'', ''size-1'')])] \<rparr>)) ''space'' of
      Some entries \<Rightarrow> map_of entries ''sm'' | None \<Rightarrow> None) = None \<and>
   map_of (cfg_semantic (mergeConfig
       \<lparr> u_format = None, u_prefixes = None, u_output = None, u_openprops = None,
         u_semantic = Some [(''space'', [(''xs'', ''size-1'')])] \<rparr>)) ''space'' =
     Some [(''xs'', ''size-1'')]"
  by (simp add: mergeConfig_def DEFAULT_CONFIG_def obj_spread_def)

section \<open>The OKLCH format\<close>

lemma digit_at: "d < 10 \<Longrightarrow> is_digit (decDigits ! d) \<and> digit_val (decDigits ! d) = d \<and> decDigits ! d \<noteq> CHR ''.'' \<and> decDigits ! d \<noteq> CHR ''-'' \<and> decDigits ! d \<noteq> CHR ''$''"
proof -
  have "\<forall>d\<in>set [0..<10]. is_digit (decDigits ! d) \<and> digit_val (decDigits ! d) = d \<and> decDigits ! d \<noteq> CHR ''.'' \<and> decDigits ! d \<noteq> CHR ''-'' \<and> decDigits ! d \<noteq> CHR ''$''"
    by (simp add: upt_rec is_digit_def digit_val_def decDigits_def)
  then show "d < 10 \<Longrightarrow> ?thesis" by simp
qed

lemma nat_to_string_digits: "list_all is_digit (nat_to_string n) \<and> nat_to_string n \<noteq> []"
proof (induction n rule: nat_to_string.induct)
  case (1 n)
  show ?case
  proof (cases "n < 10")
    case True
    then show ?thesis by (subst nat_to_string.simps, subst nat_to_string.simps) (simp add: digit_at)
  next
    case False
    with 1 show ?thesis
      by (subst nat_to_string.simps, subst (2) nat_to_string.simps) (simp add: digit_at)
  qed
qed

















section \<open>The colour roles of the semantic file\<close>

lemma color_loop_grouped:
  assumes "\<forall>r\<in>set roles. role_present l d r \<longrightarrow>
             (\<exists>lf. fmt (the (map_of l (schemeKey r))) = Inr lf) \<and>
             (\<exists>df. fmt (the (map_of d (schemeKey r))) = Inr df)"
  shows "\<exists>g. color_loop fmt sp l d roles cur lines =
           Inr (g, lines @ grouped_lines sp cur
                  (map (formatted_row fmt l d) (filter (role_present l d) roles)))"
  using assms
proof (induction roles arbitrary: cur lines)
  case Nil
  then show ?case by simp
next
  case (Cons r roles)
  show ?case
  proof (cases "role_present l d r")
    case False
    then have "color_loop fmt sp l d (r # roles) cur lines = color_loop fmt sp l d roles cur lines"
      by (auto simp: role_present_def Let_def)
    with False Cons show ?thesis by simp
  next
    case True
    with Cons.prems obtain lf df where
      lf: "fmt (the (map_of l (schemeKey r))) = Inr lf" and
      df: "fmt (the (map_of d (schemeKey r))) = Inr df"
      by auto
    let ?lines1 = "(if roleGroup r \<noteq> cur
                   then (if cur \<noteq> [] then lines @ [[]] else lines) @
                        [''    /* '' @ roleGroup r @ '' */'']
                   else lines)"
    have step: "color_loop fmt sp l d (r # roles) cur lines =
        color_loop fmt sp l d roles (roleGroup r) (?lines1 @ [color_decl sp r lf df])"
      using True lf df by (auto simp: role_present_def Let_def)
    from Cons.prems have "\<forall>r\<in>set roles. role_present l d r \<longrightarrow>
             (\<exists>lf. fmt (the (map_of l (schemeKey r))) = Inr lf) \<and>
             (\<exists>df. fmt (the (map_of d (schemeKey r))) = Inr df)"
      by simp
    from Cons.IH [OF this, of "roleGroup r" "?lines1 @ [color_decl sp r lf df]"]
    obtain g where "color_loop fmt sp l d roles (roleGroup r) (?lines1 @ [color_decl sp r lf df]) =
        Inr (g, (?lines1 @ [color_decl sp r lf df]) @ grouped_lines sp (roleGroup r)
                  (map (formatted_row fmt l d) (filter (role_present l d) roles)))"
      by blast
    moreover have "formatted_row fmt l d r = (r, lf, df)"
      using lf df by (simp add: formatted_row_def)
    ultimately show ?thesis
      using step True by auto
  qed
qed

text \<open>
  C7. In the semantic renderer a colour role is emitted exactly when its light and its
  dark value are both truthy. Provided the values of those roles can be formatted, the
  renderer returns, and between the lines before and after the colour section stand the
  declarations of exactly the present roles, in the order of \<open>COLOR_ROLE_MAP\<close>, each
  group's comment header before the first present role of the group: an absent role is
  skipped without an error and changes nothing else.
\<close>

theorem semantic_color_roles_emitted_iff_present:
  assumes "\<forall>r\<in>set COLOR_ROLE_MAP. role_present lightScheme darkScheme r \<longrightarrow>
             (\<exists>lf. formatColor lib (the (map_of lightScheme (schemeKey r))) fmt = Inr lf) \<and>
             (\<exists>df. formatColor lib (the (map_of darkScheme (schemeKey r))) fmt = Inr df)"
  shows "generateSemanticCSS lib localeCompare nowISO lightScheme darkScheme sem prefixes fmt seedHue =
           Inr (join_lines
                 (semantic_lines_before nowISO prefixes @
                  grouped_lines (pfx_semantic prefixes) []
                    (map (formatted_row (\<lambda>hex. formatColor lib hex fmt) lightScheme darkScheme)
                       (filter (role_present lightScheme darkScheme) COLOR_ROLE_MAP)) @
                  semantic_lines_after localeCompare sem prefixes seedHue))"
proof -
  from color_loop_grouped [of COLOR_ROLE_MAP lightScheme darkScheme "\<lambda>hex. formatColor lib hex fmt",
      OF assms, of "pfx_semantic prefixes" "[]" "semantic_lines_before nowISO prefixes"]
  obtain g where "color_loop (\<lambda>hex. formatColor lib hex fmt) (pfx_semantic prefixes)
      lightScheme darkScheme COLOR_ROLE_MAP [] (semantic_lines_before nowISO prefixes) =
     Inr (g, semantic_lines_before nowISO prefixes @
            grouped_lines (pfx_semantic prefixes) []
              (map (formatted_row (\<lambda>hex. formatColor lib hex fmt) lightScheme darkScheme)
                 (filter (role_present lightScheme darkScheme) COLOR_ROLE_MAP)))"
    by blast
  then show ?thesis by (simp add: generateSemanticCSS_def)
qed


theorem semantic_color_roles_witness:
  "generateSemanticCSS
     \<lparr> c_parse = (\<lambda>s. None :: unit option), c_oklch = (\<lambda>c. (None, None, None)),
       c_formatHsl = (\<lambda>s. None), c_formatRgb = (\<lambda>s. None), c_formatHex_other = (\<lambda>s. None) \<rparr>
     (\<lambda>a b. 0) ''2026-01-01T00:00:00.000Z''
     [(''primary'', ''#769CDF''), (''onPrimary'', ''#FFFFFF''), (''secondary'', []), (''error'', ''#BA1A1A'')]
     [(''primary'', ''#AAC7FF''), (''onPrimary'', ''#0A305F''), (''secondary'', ''#BEC6DC'')]
     [] \<lparr> pfx_primitives = ''op'', pfx_palette = ''md'', pfx_semantic = ''ui'' \<rparr> Hex 217 =
   Inr (join_lines
         (semantic_lines_before ''2026-01-01T00:00:00.000Z''
            \<lparr> pfx_primitives = ''op'', pfx_palette = ''md'', pfx_semantic = ''ui'' \<rparr> @
          [''    /* Primary */'',
           ''    --ui-color-primary: light-dark(#769CDF, #AAC7FF);'',
           ''    --ui-color-primary-on: light-dark(#FFFFFF, #0A305F);''] @
          semantic_lines_after (\<lambda>a b. 0) []
            \<lparr> pfx_primitives = ''op'', pfx_palette = ''md'', pfx_semantic = ''ui'' \<rparr> 217))"
proof -
  let ?lib = "\<lparr> c_parse = (\<lambda>s. None :: unit option), c_oklch = (\<lambda>c. (None, None, None)),
       c_formatHsl = (\<lambda>s. None), c_formatRgb = (\<lambda>s. None), c_formatHex_other = (\<lambda>s. None) \<rparr>"
  let ?l = "[(''primary'', ''#769CDF''), (''onPrimary'', ''#FFFFFF''), (''secondary'', []), (''error'', ''#BA1A1A'')]"
  let ?d = "[(''primary'', ''#AAC7FF''), (''onPrimary'', ''#0A305F''), (''secondary'', ''#BEC6DC'')]"
  have present: "filter (role_present ?l ?d) COLOR_ROLE_MAP =
      [mk_role ''primary'' ''primary'' ''Primary'', mk_role ''onPrimary'' ''primary-on'' ''Primary'']"
    by (simp add: COLOR_ROLE_MAP_def role_present_def mk_role_def truthy_def)
  have f1: "formatColor ?lib ''#769CDF'' Hex = Inr ''#769CDF''"
    by (simp add: canonical_fixed(1) canonicalHex_def)
  have f2: "formatColor ?lib ''#AAC7FF'' Hex = Inr ''#AAC7FF''"
    by (simp add: canonical_fixed(1) canonicalHex_def)
  have f3: "formatColor ?lib ''#FFFFFF'' Hex = Inr ''#FFFFFF''"
    by (simp add: canonical_fixed(1) canonicalHex_def)
  have f4: "formatColor ?lib ''#0A305F'' Hex = Inr ''#0A305F''"
    by (simp add: canonical_fixed(1) canonicalHex_def)
  have "\<forall>r\<in>set (filter (role_present ?l ?d) COLOR_ROLE_MAP).
          (\<exists>lf. formatColor ?lib (the (map_of ?l (schemeKey r))) Hex = Inr lf) \<and>
          (\<exists>df. formatColor ?lib (the (map_of ?d (schemeKey r))) Hex = Inr df)"
    unfolding present using f1 f2 f3 f4 by (simp add: mk_role_def)
  then have hyp: "\<forall>r\<in>set COLOR_ROLE_MAP. role_present ?l ?d r \<longrightarrow>
          (\<exists>lf. formatColor ?lib (the (map_of ?l (schemeKey r))) Hex = Inr lf) \<and>
          (\<exists>df. formatColor ?lib (the (map_of ?d (schemeKey r))) Hex = Inr df)"
    by simp
  have rows: "grouped_lines ''ui'' []
      (map (formatted_row (\<lambda>hex. formatColor ?lib hex Hex) ?l ?d)
         (filter (role_present ?l ?d) COLOR_ROLE_MAP)) =
      [''    /* Primary */'',
       ''    --ui-color-primary: light-dark(#769CDF, #AAC7FF);'',
       ''    --ui-color-primary-on: light-dark(#FFFFFF, #0A305F);'']"
    unfolding present using f1 f2 f3 f4
    by (simp add: formatted_row_def mk_role_def color_decl_def)
  show ?thesis
    unfolding semantic_color_roles_emitted_iff_present [OF hyp, of "\<lambda>a b. 0"
        "''2026-01-01T00:00:00.000Z''" "[]"
        "\<lparr> pfx_primitives = ''op'', pfx_palette = ''md'', pfx_semantic = ''ui'' \<rparr>" 217]
    unfolding Prefixes.simps rows by simp
qed

section \<open>Unknown third-party file names\<close>

lemma fetchOpenProps_undefined_name:
  assumes "lookup_property OPENPROPS_SOURCE_FILES fileName = Undefined"
  shows "fetchOpenProps showInherited net baseUrl fileName = (Inl (UnknownOpenPropsFile fileName), [])"
  using assms by (simp add: fetchOpenProps_def)

lemma fetchOpenProps_nonexistent:
  "fetchOpenProps showInherited net baseUrl ''nonexistent'' =
     (Inl (UnknownOpenPropsFile ''nonexistent''), [])"
  by (rule fetchOpenProps_undefined_name)
     (simp add: lookup_property_def OPENPROPS_SOURCE_FILES_def OBJECT_PROTOTYPE_KEYS_def)

text \<open>
  C8. The name \<open>constructor\<close> is not a key of \<open>OPENPROPS_SOURCE_FILES\<close>, but the lookup
  finds the property inherited from \<open>Object.prototype\<close>, which is truthy: no error is
  thrown by the lookup, and a request is started.
\<close>

theorem fetchOpenProps_inherited_name_is_requested:
  "map_of OPENPROPS_SOURCE_FILES ''constructor'' = None \<and>
   fetchOpenProps showInherited net baseUrl ''constructor'' =
     request net (baseUrl @ ''/'' @ showInherited ''constructor'') \<and>
   snd (fetchOpenProps showInherited net baseUrl ''constructor'') =
     [baseUrl @ ''/'' @ showInherited ''constructor'']"
  by (simp add: fetchOpenProps_def lookup_property_def OPENPROPS_SOURCE_FILES_def
        OBJECT_PROTOTYPE_KEYS_def request_def)

section \<open>The scaffold file and the generated files\<close>

subsection \<open>The run as a list of file-system calls\<close>

lemma and_then_simps [simp]:
  "and_then (None, s) f = f s"
  "and_then (Some e, s) f = (Some e, s)"
  by (simp_all add: and_then_def)

lemma and_then_assoc:
  "and_then (and_then r f) g = and_then r (\<lambda>s. and_then (f s) g)"
  by (auto simp: and_then_def split: option.splits prod.splits)

lemma perform_append:
  "perform w (xs @ ys) fs = and_then (perform w xs fs) (perform w ys)"
proof (induction xs arbitrary: fs)
  case Nil
  show ?case by simp
next
  case (Cons x xs)
  then have ih: "perform w (xs @ ys) = (\<lambda>s. and_then (perform w xs s) (perform w ys))"
    by (intro ext)
  show ?case by (cases x) (simp_all add: and_then_assoc ih)
qed

lemma perform_writes:
  "perform w (map (\<lambda>entry. WriteFile (w_join w dir (fst entry @ ''.css'')) (snd entry)) files) fs =
     write_openprops w dir files fs"
proof (induction files arbitrary: fs)
  case Nil
  show ?case by simp
next
  case (Cons entry files)
  then have "perform w (map (\<lambda>entry. WriteFile (w_join w dir (fst entry @ ''.css'')) (snd entry)) files) =
      write_openprops w dir files"
    by (intro ext)
  then show ?case by simp
qed

lemma generateTokens_steps:
  "generateTokens w options fs =
     and_then (perform w (steps w options) fs)
       (\<lambda>s. if \<not> fileExists w s (app_path w (resolveConfig options))
            then w_writeFile w (app_path w (resolveConfig options)) generateAppCSS s
            else (None, s))"
proof -
  have tail: "and_then (perform w (map (\<lambda>entry. WriteFile (w_join w dir (fst entry @ ''.css'')) (snd entry)) files @ rest) s) g =
      and_then (write_openprops w dir files s) (\<lambda>s. and_then (perform w rest s) g)" for dir files rest s g
    by (simp add: perform_append perform_writes and_then_assoc)
  show ?thesis
    unfolding generateTokens_def steps_def Let_def app_path_def
    by (simp add: and_then_assoc tail split: sum.splits)
qed


lemma snd_and_then:
  "snd (and_then r f) = (if fst r = None then snd (f (snd r)) else snd r)"
  by (auto simp: and_then_def split: option.splits prod.splits)

lemma fst_and_then:
  "fst (and_then r f) = (if fst r = None then fst (f (snd r)) else fst r)"
  by (auto simp: and_then_def split: option.splits prod.splits)

text \<open>What every call of the list keeps, the run keeps.\<close>

lemma perform_invariant:
  assumes "I fs"
    and "\<And>d s. Mkdir d \<in> set sts \<Longrightarrow> I s \<Longrightarrow> I (snd (w_mkdir w d s))"
    and "\<And>p c s. WriteFile p c \<in> set sts \<Longrightarrow> I s \<Longrightarrow> I (snd (w_writeFile w p c s))"
  shows "I (snd (perform w sts fs))"
  using assms
proof (induction sts arbitrary: fs)
  case Nil
  then show ?case by simp
next
  case (Cons x sts)
  have rest: "I s \<Longrightarrow> I (snd (perform w sts s))" for s
    by (rule Cons.IH) (simp_all add: Cons.prems(2,3))
  show ?case
  proof (cases x)
    case (Mkdir d)
    have "I (snd (w_mkdir w d fs))" using Cons.prems(1,2) Mkdir by simp
    with rest Mkdir show ?thesis by (simp add: snd_and_then)
  next
    case (WriteFile p c)
    have "I (snd (w_writeFile w p c fs))" using Cons.prems(1,3) WriteFile by simp
    with rest WriteFile show ?thesis by (simp add: snd_and_then)
  next
    case (Throw e)
    with Cons.prems(1) show ?thesis by simp
  qed
qed

lemma perform_ok_no_throw:
  "fst (perform w sts fs) = None \<Longrightarrow> Throw e \<notin> set sts"
proof (induction sts arbitrary: fs)
  case Nil
  then show ?case by simp
next
  case (Cons x sts)
  then show ?case by (cases x) (auto simp: fst_and_then split: if_splits)
qed

text \<open>After a list of calls that all succeed, a file holds the text of the last write to
  its path, or the text it had when there was none.\<close>

lemma perform_content:
  assumes "fst (perform w sts fs) = None"
    and "\<And>c s. WriteFile q c \<in> set sts \<Longrightarrow> fst (w_writeFile w q c s) = None \<Longrightarrow>
            content q (snd (w_writeFile w q c s)) = Some c"
    and "\<And>p c s. WriteFile p c \<in> set sts \<Longrightarrow> p \<noteq> q \<Longrightarrow>
            content q (snd (w_writeFile w p c s)) = content q s"
    and "\<And>d s. Mkdir d \<in> set sts \<Longrightarrow> content q (snd (w_mkdir w d s)) = content q s"
  shows "content q (snd (perform w sts fs)) =
           (case map_of (rev (writes_of sts)) q of Some c \<Rightarrow> Some c | None \<Rightarrow> content q fs)"
  using assms
proof (induction sts arbitrary: fs)
  case Nil
  then show ?case by simp
next
  case (Cons x sts)
  have rest: "fst (perform w sts s) = None \<Longrightarrow>
      content q (snd (perform w sts s)) =
        (case map_of (rev (writes_of sts)) q of Some c \<Rightarrow> Some c | None \<Rightarrow> content q s)" for s
    by (rule Cons.IH) (simp_all add: Cons.prems(2,3,4))
  show ?case
  proof (cases x)
    case (Mkdir d)
    with Cons.prems(1) have ok: "fst (w_mkdir w d fs) = None"
      "fst (perform w sts (snd (w_mkdir w d fs))) = None"
      by (auto simp: fst_and_then split: if_splits)
    have "content q (snd (w_mkdir w d fs)) = content q fs" using Cons.prems(4) Mkdir by simp
    with rest [OF ok(2)] ok(1) Mkdir show ?thesis
      by (simp add: snd_and_then split: option.splits)
  next
    case (WriteFile p c)
    with Cons.prems(1) have ok: "fst (w_writeFile w p c fs) = None"
      "fst (perform w sts (snd (w_writeFile w p c fs))) = None"
      by (auto simp: fst_and_then split: if_splits)
    have here: "content q (snd (w_writeFile w p c fs)) = (if p = q then Some c else content q fs)"
      using Cons.prems(2) [of c fs] Cons.prems(3) [of p c fs] WriteFile ok(1) by auto
    have m: "map_of (rev (writes_of (x # sts))) q =
        (case map_of (rev (writes_of sts)) q of
           Some c' \<Rightarrow> Some c' | None \<Rightarrow> if p = q then Some c else None)"
      using WriteFile by (auto simp: map_add_def split: option.splits)
    have "perform w (x # sts) fs = perform w sts (snd (w_writeFile w p c fs))"
      using WriteFile ok(1) by (cases "w_writeFile w p c fs") simp
    then show ?thesis
      unfolding m using rest [OF ok(2)] here
      by (cases "map_of (rev (writes_of sts)) q") simp_all
  next
    case (Throw e)
    with Cons.prems(1) show ?thesis by simp
  qed
qed

subsection \<open>The calls of a run\<close>

lemma first_error_None:
  "first_error rs = None \<Longrightarrow> r \<in> set rs \<Longrightarrow> \<exists>c. snd r = Inr c"
proof (induction rs rule: first_error.induct)
  case 1
  then show ?case by simp
next
  case (2 name e rs)
  then show ?case by simp
next
  case (3 name c rs)
  then show ?case by auto
qed

lemma obj_set_keys: "fst ` set (obj_set k v kvs) = insert k (fst ` set kvs)"
proof (induction kvs)
  case Nil
  then show ?case by simp
next
  case (Cons kv kvs)
  then show ?case by (cases kv) (simp add: insert_commute)
qed

lemma fetched_keys:
  assumes "\<forall>r\<in>set rs. \<exists>c. snd r = Inr c"
  shows "fst ` set (foldl (\<lambda>results r.
            (case snd r of Inr content \<Rightarrow> obj_set (fst r) (g r content) results
                         | Inl e \<Rightarrow> results)) acc rs) = fst ` set acc \<union> fst ` set rs"
  using assms
proof (induction rs arbitrary: acc)
  case Nil
  then show ?case by simp
next
  case (Cons r rs)
  from Cons.prems obtain c where c: "snd r = Inr c" by auto
  from Cons.prems have rest: "\<forall>r\<in>set rs. \<exists>c. snd r = Inr c" by simp
  show ?case
    using Cons.IH [OF rest, of "obj_set (fst r) (g r c) acc"] c
    by (simp add: obj_set_keys)
qed

lemma fetchAllOpenProps_keys:
  assumes "fst (fetchAllOpenProps si net clock baseUrl fileNames prefix seedHue) = Inr entries"
  shows "fst ` set entries = set fileNames"
proof -
  define outcomes where
    "outcomes = map (\<lambda>name. (name, fst (fetchOpenProps si net baseUrl name))) fileNames"
  have o: "map (\<lambda>r. (fst r, fst (snd r)))
             (map (\<lambda>name. (name, fetchOpenProps si net baseUrl name)) fileNames) = outcomes"
    by (simp add: outcomes_def comp_def)
  from assms have none: "first_error outcomes = None"
    unfolding fetchAllOpenProps_def Let_def o by (auto split: option.splits)
  then have all: "\<forall>r\<in>set outcomes. \<exists>c. snd r = Inr c"
    using first_error_None by blast
  from assms none have "entries = foldl (\<lambda>results r.
            (case snd r of
               Inr content \<Rightarrow>
                 obj_set (fst r) (generateOpenPropsCSS (clock (fst r)) (fst r) content prefix seedHue) results
             | Inl e \<Rightarrow> results)) [] outcomes"
    unfolding fetchAllOpenProps_def Let_def o by (auto split: option.splits)
  then have "fst ` set entries = fst ` set outcomes"
    using fetched_keys [OF all, of "\<lambda>r content. generateOpenPropsCSS (clock (fst r)) (fst r) content prefix seedHue" "[]"]
    by simp
  then show ?thesis by (simp add: outcomes_def image_image)
qed

lemma steps_dirs:
  "Mkdir d \<in> set (steps w options) \<Longrightarrow> d \<in> set (made_dirs w (resolveConfig options))"
  by (auto simp: steps_def made_dirs_def Let_def split: sum.splits)

lemma steps_paths:
  assumes "WriteFile p c \<in> set (steps w options)"
  shows "p \<in> set (generated_paths w (resolveConfig options))"
proof -
  have names: "fst entry \<in> set (op_files (cfg_openprops (resolveConfig options)))"
    if "fst (fetchAllOpenProps si net clock baseUrl
          (op_files (cfg_openprops (resolveConfig options))) prefix seedHue) = Inr entries"
      and "entry \<in> set entries" for si net clock baseUrl prefix seedHue entries entry
    using fetchAllOpenProps_keys [OF that(1)] that(2) by auto
  from assms show ?thesis
    by (auto simp: steps_def generated_paths_def Let_def split: sum.splits dest: names)
qed

text \<open>When no computation throws, the list of calls is the three directories and one
  write for each generated file.\<close>

lemma steps_no_throw:
  assumes "\<And>e. Throw e \<notin> set (steps w options)"
  obtains entries :: "(string \<times> string) list" where
    "fst ` set entries = set (op_files (cfg_openprops (resolveConfig options)))"
    "map fst (writes_of (steps w options)) =
       [w_join w (w_join w (out_dir (cfg_output (resolveConfig options)))
                   (out_paletteSubdir (cfg_output (resolveConfig options)))) ''palettes.css''] @
       map (\<lambda>entry. w_join w (w_join w (out_dir (cfg_output (resolveConfig options)))
                   (out_openpropsSubdir (cfg_output (resolveConfig options)))) (fst entry @ ''.css''))
         entries @
       [w_join w (out_dir (cfg_output (resolveConfig options))) ''semantic.css'',
        w_join w (out_dir (cfg_output (resolveConfig options))) ''index.css'']"
proof -
  define config where "config = resolveConfig options"
  have wr: "writes_of (xs @ ys) = writes_of xs @ writes_of ys" for xs ys
    by (induction xs rule: writes_of.induct) simp_all
  have wm: "writes_of (map (\<lambda>entry. WriteFile (f entry) (g entry)) es) =
      map (\<lambda>entry. (f entry, g entry)) es" for f g and es :: "(string \<times> string) list"
    by (induction es) simp_all
  let ?theme = "generateTheme (w_engine w) (w_clock w ''theme'') (opt_seed options)
                  (override TonalSpot (opt_scheme options))"
  obtain theme where theme: "?theme = Inr theme"
  proof (cases ?theme)
    case (Inl msg)
    then have "Throw (EngineError msg) \<in> set (steps w options)"
      by (simp add: steps_def Let_def)
    with assms show ?thesis by blast
  qed
  let ?hue = "getHue (w_culori w) (opt_seed options)"
  obtain seedHue where hue: "?hue = Inr seedHue"
  proof (cases ?hue)
    case (Inl e)
    then have "Throw e \<in> set (steps w options)"
      using theme by (simp add: steps_def Let_def)
    with assms show ?thesis by blast
  qed
  let ?pal = "generatePalettesCSS (w_culori w) (w_clock w ''palettes'') (palettes theme)
                (opt_seed options) (cfg_prefixes config) (cfg_format config)"
  obtain palettesCSS where pal: "?pal = Inr palettesCSS"
  proof (cases ?pal)
    case (Inl e)
    then have "Throw e \<in> set (steps w options)"
      using theme hue by (simp add: steps_def Let_def config_def)
    with assms show ?thesis by blast
  qed
  let ?fetch = "fst (fetchAllOpenProps (w_showInherited w) (w_net w) (w_clock w)
                  (op_baseUrl (cfg_openprops config)) (op_files (cfg_openprops config))
                  (pfx_primitives (cfg_prefixes config)) seedHue)"
  obtain entries where fetch: "?fetch = Inr entries"
  proof (cases ?fetch)
    case (Inl e)
    then have "Throw e \<in> set (steps w options)"
      using theme hue pal by (simp add: steps_def Let_def config_def)
    with assms show ?thesis by blast
  qed
  let ?sem = "generateSemanticCSS (w_culori w) (w_localeCompare w) (w_clock w ''semantic'')
                (light (schemes theme)) (dark (schemes theme)) (cfg_semantic config)
                (cfg_prefixes config) (cfg_format config) seedHue"
  obtain semanticCSS where sem: "?sem = Inr semanticCSS"
  proof (cases ?sem)
    case (Inl e)
    then have "Throw e \<in> set (steps w options)"
      using theme hue pal fetch by (simp add: steps_def Let_def config_def)
    with assms show ?thesis by blast
  qed
  have keys: "fst ` set entries = set (op_files (cfg_openprops (resolveConfig options)))"
    using fetchAllOpenProps_keys [OF fetch] by (simp add: config_def)
  have eq: "map fst (writes_of (steps w options)) =
       [w_join w (w_join w (out_dir (cfg_output (resolveConfig options)))
                   (out_paletteSubdir (cfg_output (resolveConfig options)))) ''palettes.css''] @
       map (\<lambda>entry. w_join w (w_join w (out_dir (cfg_output (resolveConfig options)))
                   (out_openpropsSubdir (cfg_output (resolveConfig options)))) (fst entry @ ''.css''))
         entries @
       [w_join w (out_dir (cfg_output (resolveConfig options))) ''semantic.css'',
        w_join w (out_dir (cfg_output (resolveConfig options))) ''index.css'']"
  proof -
    define D where "D = out_dir (cfg_output (resolveConfig options))"
    define md where "md = w_join w D (out_paletteSubdir (cfg_output (resolveConfig options)))"
    define od where "od = w_join w D (out_openpropsSubdir (cfg_output (resolveConfig options)))"
    define ix where "ix = generateIndexCSS (w_clock w ''index'') (op_files (cfg_openprops config))
                (cfg_prefixes config) (out_paletteSubdir (cfg_output config))
                (out_openpropsSubdir (cfg_output config))"
    have st: "steps w options =
        [Mkdir D, Mkdir md, Mkdir od] @ [WriteFile (w_join w md ''palettes.css'') palettesCSS] @
        map (\<lambda>entry. WriteFile (w_join w od (fst entry @ ''.css'')) (snd entry)) entries @
        [WriteFile (w_join w D ''semantic.css'') semanticCSS, WriteFile (w_join w D ''index.css'') ix]"
      unfolding steps_def Let_def
      by (simp only: theme hue pal [unfolded config_def] fetch [unfolded config_def]
          sem [unfolded config_def] sum.case D_def md_def od_def ix_def config_def)
    have writes: "writes_of (steps w options) =
        [(w_join w md ''palettes.css'', palettesCSS)] @
        map (\<lambda>entry. (w_join w od (fst entry @ ''.css''), snd entry)) entries @
        [(w_join w D ''semantic.css'', semanticCSS), (w_join w D ''index.css'', ix)]"
      unfolding st by (simp add: wr wm)
    have "map fst (writes_of (steps w options)) =
        [w_join w md ''palettes.css''] @
        map (\<lambda>entry. w_join w od (fst entry @ ''.css'')) entries @
        [w_join w D ''semantic.css'', w_join w D ''index.css'']"
      unfolding writes by (simp add: comp_def)
    then show ?thesis unfolding md_def od_def D_def .
  qed
  show thesis by (rule that [OF keys eq])
qed

lemma steps_written:
  assumes "fst (perform w (steps w options) fs) = None"
    and "p \<in> set (generated_paths w (resolveConfig options))"
  shows "map_of (rev (writes_of (steps w options))) p \<noteq> None"
proof -
  from perform_ok_no_throw [OF assms(1)]
  have nt: "\<And>e. Throw e \<notin> set (steps w options)" by blast
  obtain entries :: "(string \<times> string) list" where
    keys: "fst ` set entries = set (op_files (cfg_openprops (resolveConfig options)))"
    and ws: "map fst (writes_of (steps w options)) =
       [w_join w (w_join w (out_dir (cfg_output (resolveConfig options)))
                   (out_paletteSubdir (cfg_output (resolveConfig options)))) ''palettes.css''] @
       map (\<lambda>entry. w_join w (w_join w (out_dir (cfg_output (resolveConfig options)))
                   (out_openpropsSubdir (cfg_output (resolveConfig options)))) (fst entry @ ''.css''))
         entries @
       [w_join w (out_dir (cfg_output (resolveConfig options))) ''semantic.css'',
        w_join w (out_dir (cfg_output (resolveConfig options))) ''index.css'']"
    by (rule steps_no_throw [OF nt])
  have "set (generated_paths w (resolveConfig options)) =
      set (map fst (writes_of (steps w options)))"
  proof -
    define od where "od = w_join w (out_dir (cfg_output (resolveConfig options)))
                   (out_openpropsSubdir (cfg_output (resolveConfig options)))"
    have "(\<lambda>name. w_join w od (name @ ''.css'')) ` set (op_files (cfg_openprops (resolveConfig options))) =
        (\<lambda>entry. w_join w od (fst entry @ ''.css'')) ` set entries"
      unfolding keys [symmetric] by (simp add: image_image)
    then show ?thesis
      unfolding ws generated_paths_def Let_def od_def [symmetric] by simp
  qed
  with assms(2) have "p \<in> fst ` set (rev (writes_of (steps w options)))" by simp
  then show ?thesis by (simp only: map_of_eq_None_iff not_not)
qed

subsection \<open>One run\<close>

lemma fs_laws_same_calls:
  assumes "w_mkdir w2 = w_mkdir w" and "w_writeFile w2 = w_writeFile w" and "w_stat w2 = w_stat w"
  shows "fs_laws w2 content dirs paths app = fs_laws w content dirs paths app"
  using assms by (simp add: fs_laws_def)

lemma run_facts:
  assumes laws: "fs_laws w content (made_dirs w (resolveConfig options))
                   (generated_paths w (resolveConfig options)) (app_path w (resolveConfig options))"
  shows "w_stat w (app_path w (resolveConfig options)) fs \<Longrightarrow>
           content (app_path w (resolveConfig options)) (snd (generateTokens w options fs)) =
           content (app_path w (resolveConfig options)) fs"
    and "\<not> w_stat w (app_path w (resolveConfig options)) fs \<Longrightarrow>
           fst (generateTokens w options fs) = None \<Longrightarrow>
           content (app_path w (resolveConfig options)) (snd (generateTokens w options fs)) =
           Some generateAppCSS"
    and "fst (generateTokens w options fs) = None \<Longrightarrow>
           w_stat w (app_path w (resolveConfig options)) (snd (generateTokens w options fs))"
    and "fst (generateTokens w options fs) = None \<Longrightarrow>
           p \<in> set (generated_paths w (resolveConfig options)) \<Longrightarrow>
           content p (snd (generateTokens w options fs)) =
             map_of (rev (writes_of (steps w options))) p \<and>
           map_of (rev (writes_of (steps w options))) p \<noteq> None"
proof -
  define app where "app = app_path w (resolveConfig options)"
  define paths where "paths = generated_paths w (resolveConfig options)"
  define dirs where "dirs = made_dirs w (resolveConfig options)"
  define mid where "mid = perform w (steps w options) fs"
  define check where "check = (\<lambda>s. if \<not> fileExists w s app
      then w_writeFile w app generateAppCSS s else (None, s))"
  have gen: "generateTokens w options fs = and_then mid check"
    unfolding mid_def check_def app_def by (rule generateTokens_steps)
  from laws have L: "fs_laws w content dirs paths app"
    by (simp add: app_def paths_def dirs_def)
  have L1: "content p (snd (w_writeFile w p c s)) = Some c"
    if "p \<in> set (app # paths)" "fst (w_writeFile w p c s) = None" for p c s
    using L that unfolding fs_laws_def by blast
  have L2: "content q (snd (w_writeFile w p c s)) = content q s"
    if "p \<in> set (app # paths)" "q \<in> set (app # paths)" "p \<noteq> q" for p q c s
    using L that unfolding fs_laws_def by blast
  have L3: "content q (snd (w_mkdir w d s)) = content q s"
    if "d \<in> set dirs" "q \<in> set (app # paths)" for d q s
    using L that unfolding fs_laws_def by blast
  have L4: "w_stat w app (snd (w_writeFile w p c s)) = w_stat w app s"
    if "p \<in> set paths" for p c s
    using L that unfolding fs_laws_def by blast
  have L5: "w_stat w app (snd (w_mkdir w d s)) = w_stat w app s" if "d \<in> set dirs" for d s
    using L that unfolding fs_laws_def by blast
  have L6: "w_stat w app s" if "content app s = Some c" for c s
    using L that unfolding fs_laws_def by blast
  have L7: "app \<notin> set paths" using L unfolding fs_laws_def by blast
  have sd: "d \<in> set dirs" if "Mkdir d \<in> set (steps w options)" for d
    using steps_dirs [OF that] by (simp add: dirs_def)
  have sp: "p \<in> set paths" if "WriteFile p c \<in> set (steps w options)" for p c
    using steps_paths [OF that] by (simp add: paths_def)
  have stat_mid: "w_stat w app (snd mid) = w_stat w app fs"
    unfolding mid_def
    by (rule perform_invariant [where I = "\<lambda>s. w_stat w app s = w_stat w app fs"])
       (simp_all add: L4 L5 sd sp)
  have app_mid: "content app (snd mid) = content app fs"
    unfolding mid_def
  proof (rule perform_invariant [where I = "\<lambda>s. content app s = content app fs"])
    show "content app fs = content app fs" by simp
  next
    fix d s
    assume "Mkdir d \<in> set (steps w options)" "content app s = content app fs"
    then show "content app (snd (w_mkdir w d s)) = content app fs"
      using L3 [OF sd, of d app s] by simp
  next
    fix p c s
    assume p: "WriteFile p c \<in> set (steps w options)" and "content app s = content app fs"
    moreover from sp [OF p] L7 have "p \<noteq> app" by auto
    ultimately show "content app (snd (w_writeFile w p c s)) = content app fs"
      using L2 [of p app c s] sp [OF p] by simp
  qed
  have ok_mid: "fst mid = None" if "fst (generateTokens w options fs) = None"
    using that unfolding gen by (simp add: fst_and_then split: if_splits)
  have final: "snd (generateTokens w options fs) =
      (if fst mid = None \<and> \<not> w_stat w app fs
       then snd (w_writeFile w app generateAppCSS (snd mid)) else snd mid)"
    unfolding gen by (simp add: snd_and_then check_def fileExists_def stat_mid)
  have wrote: "fst (w_writeFile w app generateAppCSS (snd mid)) = None"
    if "fst (generateTokens w options fs) = None" "\<not> w_stat w app fs"
    using that ok_mid [OF that(1)] unfolding gen
    by (simp add: fst_and_then check_def fileExists_def stat_mid)
  show "content app (snd (generateTokens w options fs)) = content app fs" if "w_stat w app fs"
    unfolding final using that app_mid by simp
  show template: "content app (snd (generateTokens w options fs)) = Some generateAppCSS"
    if "\<not> w_stat w app fs" "fst (generateTokens w options fs) = None"
    unfolding final using that ok_mid [OF that(2)] L1 [OF _ wrote [OF that(2,1)]] by simp
  show "w_stat w app (snd (generateTokens w options fs))"
    if ok: "fst (generateTokens w options fs) = None"
  proof (cases "w_stat w app fs")
    case True
    then show ?thesis unfolding final using stat_mid by simp
  next
    case False
    from template [OF False ok] show ?thesis by (rule L6)
  qed
  show "content p (snd (generateTokens w options fs)) =
          map_of (rev (writes_of (steps w options))) p \<and>
        map_of (rev (writes_of (steps w options))) p \<noteq> None"
    if ok: "fst (generateTokens w options fs) = None" and p: "p \<in> set paths"
  proof -
    from ok_mid [OF ok] have okm: "fst (perform w (steps w options) fs) = None"
      by (simp add: mid_def)
    from steps_written [OF okm] p
    have some: "map_of (rev (writes_of (steps w options))) p \<noteq> None" by (simp add: paths_def)
    have "content p (snd (perform w (steps w options) fs)) =
        (case map_of (rev (writes_of (steps w options))) p of
           Some c \<Rightarrow> Some c | None \<Rightarrow> content p fs)"
    proof (rule perform_content [OF okm])
      fix c s
      assume "WriteFile p c \<in> set (steps w options)" "fst (w_writeFile w p c s) = None"
      then show "content p (snd (w_writeFile w p c s)) = Some c"
        using L1 [of p c s] p by simp
    next
      fix p' c s
      assume "WriteFile p' c \<in> set (steps w options)" "p' \<noteq> p"
      then show "content p (snd (w_writeFile w p' c s)) = content p s"
        using L2 [of p' p c s] sp [of p' c] p by simp
    next
      fix d s
      assume "Mkdir d \<in> set (steps w options)"
      then show "content p (snd (w_mkdir w d s)) = content p s"
        using L3 [of d p s] sd [of d] p by simp
    qed
    with some have m: "content p (snd mid) = map_of (rev (writes_of (steps w options))) p"
      by (auto simp: mid_def)
    from p L7 have "app \<noteq> p" by auto
    then have "content p (snd (w_writeFile w app generateAppCSS (snd mid))) = content p (snd mid)"
      using L2 [of app p generateAppCSS "snd mid"] p by simp
    with m some show ?thesis unfolding final by simp
  qed
qed


subsection \<open>The sample file system\<close>

lemma sample_fs_laws:
  assumes "app \<notin> set paths" and "app \<notin> set dirs"
  shows "fs_laws (sample_world now) sample_content dirs paths app"
proof -
  have wr: "fst (sample_writeFile p c fs) = None \<Longrightarrow>
      sample_content p (snd (sample_writeFile p c fs)) = Some c" for p c fs
    by (auto simp: sample_writeFile_def sample_content_def split: option.splits entry.splits)
  have fr: "p \<noteq> q \<Longrightarrow> sample_content q (snd (sample_writeFile p c fs)) = sample_content q fs"
    for p q c fs
    by (auto simp: sample_writeFile_def sample_content_def split: option.splits entry.splits)
  have mk: "sample_content q (snd (sample_mkdir d fs)) = sample_content q fs" for q d fs
    by (auto simp: sample_mkdir_def sample_content_def split: option.splits entry.splits)
  have st: "p \<noteq> q \<Longrightarrow> (snd (sample_writeFile p c fs) q \<noteq> None) = (fs q \<noteq> None)" for p q c fs
    by (auto simp: sample_writeFile_def split: option.splits entry.splits)
  have sm: "d \<noteq> q \<Longrightarrow> (snd (sample_mkdir d fs) q \<noteq> None) = (fs q \<noteq> None)" for d q fs
    by (auto simp: sample_mkdir_def split: option.splits entry.splits)
  have rd: "sample_content q fs = Some c \<Longrightarrow> fs q \<noteq> None" for q c fs
    by (auto simp: sample_content_def split: option.splits entry.splits)
  have ne: "p \<in> set paths \<Longrightarrow> p \<noteq> app" "d \<in> set dirs \<Longrightarrow> d \<noteq> app" for p d
    using assms by auto
  show ?thesis
    unfolding fs_laws_def sample_world_def world.simps
    using wr fr mk st [OF ne(1)] sm [OF ne(2)] rd assms(1) by (intro conjI ballI allI impI) auto
qed

subsection \<open>The scaffold file is written once, the other files every time\<close>

text \<open>
  C3. Let the file system keep the laws \<open>fs_laws\<close> for the directories the run makes, the
  files it generates and the scaffold path: in particular, making the directories and
  writing the generated files puts nothing at the scaffold path. Then a run of
  \<open>generateTokens\<close> leaves the text of an \<open>app.css\<close> that is already there as it is,
  whether the run succeeds or not, and a run that succeeds where nothing was at the path
  leaves the template there. After a run that succeeds, every other generated file
  (\<open>palettes.css\<close>, one file for each configured third-party name, \<open>semantic.css\<close>,
  \<open>index.css\<close>) is there with a text that does not depend on what the file system held
  before: it is overwritten. A second run, at another time and with another answer of the
  network, on the files the first run left keeps \<open>app.css\<close> byte for byte and overwrites
  the others in the same way.
\<close>

theorem generateTokens_scaffold_once:
  assumes "fs_laws w content dirs paths app"
    and "dirs = made_dirs w (resolveConfig options)"
    and "paths = generated_paths w (resolveConfig options)"
    and "app = app_path w (resolveConfig options)"
    and "w2 = w \<lparr> w_net := net2, w_clock := clock2 \<rparr>"
  shows "(w_stat w app fs \<longrightarrow>
            content app (snd (generateTokens w options fs)) = content app fs) \<and>
         (\<not> w_stat w app fs \<and> fst (generateTokens w options fs) = None \<longrightarrow>
            content app (snd (generateTokens w options fs)) = Some generateAppCSS) \<and>
         (fst (generateTokens w options fs) = None \<and> fst (generateTokens w options fs') = None \<longrightarrow>
            (\<forall>p\<in>set paths.
               content p (snd (generateTokens w options fs)) \<noteq> None \<and>
               content p (snd (generateTokens w options fs)) =
               content p (snd (generateTokens w options fs')))) \<and>
         (fst (generateTokens w options fs) = None \<longrightarrow>
            content app (snd (generateTokens w2 options (snd (generateTokens w options fs)))) =
            content app (snd (generateTokens w options fs)) \<and>
            (fst (generateTokens w2 options (snd (generateTokens w options fs))) = None \<and>
             fst (generateTokens w2 options fs') = None \<longrightarrow>
               (\<forall>p\<in>set paths.
                  content p (snd (generateTokens w2 options (snd (generateTokens w options fs)))) \<noteq> None \<and>
                  content p (snd (generateTokens w2 options (snd (generateTokens w options fs)))) =
                  content p (snd (generateTokens w2 options fs')))))"
proof -
  have laws: "fs_laws w content (made_dirs w (resolveConfig options))
      (generated_paths w (resolveConfig options)) (app_path w (resolveConfig options))"
    using assms(1-4) by simp
  have same: "made_dirs w2 (resolveConfig options) = dirs"
    "generated_paths w2 (resolveConfig options) = paths"
    "app_path w2 (resolveConfig options) = app" "w_stat w2 = w_stat w"
    using assms(2-5) by (simp_all add: made_dirs_def generated_paths_def app_path_def)
  have "fs_laws w2 content dirs paths app"
    using assms(1) fs_laws_same_calls [of w2 w content dirs paths app] assms(5) by simp
  then have laws2: "fs_laws w2 content (made_dirs w2 (resolveConfig options))
      (generated_paths w2 (resolveConfig options)) (app_path w2 (resolveConfig options))"
    by (simp add: same)
  note r = run_facts [OF laws, folded assms(3,4)]
  note r2 = run_facts [OF laws2, unfolded same]
  have a: "w_stat w app fs \<longrightarrow>
      content app (snd (generateTokens w options fs)) = content app fs"
    using r(1) by blast
  have b: "\<not> w_stat w app fs \<and> fst (generateTokens w options fs) = None \<longrightarrow>
      content app (snd (generateTokens w options fs)) = Some generateAppCSS"
    using r(2) by blast
  have c: "fst (generateTokens w options fs) = None \<and> fst (generateTokens w options fs') = None \<longrightarrow>
      (\<forall>p\<in>set paths.
         content p (snd (generateTokens w options fs)) \<noteq> None \<and>
         content p (snd (generateTokens w options fs)) =
         content p (snd (generateTokens w options fs')))"
    using r(4) [of fs] r(4) [of fs'] by simp
  have d: "fst (generateTokens w options fs) = None \<longrightarrow>
      content app (snd (generateTokens w2 options (snd (generateTokens w options fs)))) =
      content app (snd (generateTokens w options fs)) \<and>
      (fst (generateTokens w2 options (snd (generateTokens w options fs))) = None \<and>
       fst (generateTokens w2 options fs') = None \<longrightarrow>
         (\<forall>p\<in>set paths.
            content p (snd (generateTokens w2 options (snd (generateTokens w options fs)))) \<noteq> None \<and>
            content p (snd (generateTokens w2 options (snd (generateTokens w options fs)))) =
            content p (snd (generateTokens w2 options fs'))))"
  proof (intro impI conjI)
    assume ok: "fst (generateTokens w options fs) = None"
    from r(3) [OF ok] show "content app (snd (generateTokens w2 options (snd (generateTokens w options fs)))) =
        content app (snd (generateTokens w options fs))"
      by (rule r2(1))
  next
    assume "fst (generateTokens w options fs) = None"
      and "fst (generateTokens w2 options (snd (generateTokens w options fs))) = None \<and>
        fst (generateTokens w2 options fs') = None"
    then show "\<forall>p\<in>set paths.
        content p (snd (generateTokens w2 options (snd (generateTokens w options fs)))) \<noteq> None \<and>
        content p (snd (generateTokens w2 options (snd (generateTokens w options fs)))) =
        content p (snd (generateTokens w2 options fs'))"
      using r2(4) [of "snd (generateTokens w options fs)"] r2(4) [of fs'] by simp
  qed
  from a b c d show ?thesis by blast
qed


theorem generateTokens_scaffold_once_witness:
  "fst (generateTokens (sample_world ''2026-01-01T00:00:00.000Z'') sample_options sample_files) = None \<and>
   sample_content ''./tokens/app.css''
     (snd (generateTokens (sample_world ''2026-01-01T00:00:00.000Z'') sample_options sample_files)) =
     Some ''/* mine */'' \<and>
   sample_content ''./tokens/app.css''
     (snd (generateTokens (sample_world ''2026-01-01T00:00:00.000Z'') sample_options Map.empty)) =
     Some generateAppCSS \<and>
   sample_content ''./tokens/index.css''
     (snd (generateTokens (sample_world ''2026-01-01T00:00:00.000Z'') sample_options sample_files)) \<noteq>
     None \<and>
   sample_content ''./tokens/index.css''
     (snd (generateTokens (sample_world ''2026-01-01T00:00:00.000Z'') sample_options sample_files)) =
   sample_content ''./tokens/index.css''
     (snd (generateTokens (sample_world ''2026-01-01T00:00:00.000Z'') sample_options Map.empty)) \<and>
   sample_content ''./tokens/app.css''
     (snd (generateTokens (sample_world ''2026-01-02T00:00:00.000Z'') sample_options
        (snd (generateTokens (sample_world ''2026-01-01T00:00:00.000Z'') sample_options
                sample_files)))) =
     Some ''/* mine */''"
proof -
  let ?w = "sample_world ''2026-01-01T00:00:00.000Z''"
  let ?w2 = "sample_world ''2026-01-02T00:00:00.000Z''"
  let ?dirs = "[''./tokens'', ''./tokens/material'', ''./tokens/open-props'']"
  let ?paths = "[''./tokens/material/palettes.css'', ''./tokens/open-props/sizes.css'',
       ''./tokens/semantic.css'', ''./tokens/index.css'']"
  let ?app = "''./tokens/app.css''"
  have dirs: "?dirs = made_dirs ?w (resolveConfig sample_options)" by code_simp
  have paths: "?paths = generated_paths ?w (resolveConfig sample_options)" by code_simp
  have app: "?app = app_path ?w (resolveConfig sample_options)" by code_simp
  have w2: "?w2 = ?w \<lparr> w_net := w_net ?w, w_clock := (\<lambda>label. ''2026-01-02T00:00:00.000Z'') \<rparr>"
    by (simp add: sample_world_def)
  have laws: "fs_laws ?w sample_content ?dirs ?paths ?app"
    by (rule sample_fs_laws) simp_all
  have ok: "fst (generateTokens ?w sample_options sample_files) = None" by code_simp
  have ok0: "fst (generateTokens ?w sample_options Map.empty) = None" by code_simp
  have there: "w_stat ?w ?app sample_files" "sample_content ?app sample_files = Some ''/* mine */''"
    by (simp_all add: sample_world_def sample_files_def sample_content_def)
  have empty: "\<not> w_stat ?w ?app Map.empty" by (simp add: sample_world_def)
  have index: "''./tokens/index.css'' \<in> set ?paths" by simp
  note t = generateTokens_scaffold_once [OF laws dirs paths app w2, of sample_files Map.empty]
  note t0 = generateTokens_scaffold_once [OF laws dirs paths app w2, of Map.empty Map.empty]
  have a: "sample_content ?app (snd (generateTokens ?w sample_options sample_files)) =
      Some ''/* mine */''"
    using t [THEN conjunct1, rule_format, OF there(1)] there(2) by simp
  have b: "sample_content ?app (snd (generateTokens ?w sample_options Map.empty)) =
      Some generateAppCSS"
    using t0 [THEN conjunct2, THEN conjunct1, rule_format, OF conjI [OF empty ok0]] .
  note c = t [THEN conjunct2, THEN conjunct2, THEN conjunct1, rule_format, OF conjI [OF ok ok0] index]
  have d: "sample_content ?app (snd (generateTokens ?w2 sample_options
        (snd (generateTokens ?w sample_options sample_files)))) = Some ''/* mine */''"
    using t [THEN conjunct2, THEN conjunct2, THEN conjunct2, rule_format, OF ok, THEN conjunct1] a
    by simp
  from ok a b c d show ?thesis by blast
qed


text \<open>
  When the palette subdirectory is named \<open>app.css\<close>, the run makes a directory at the
  scaffold path: it succeeds, \<open>stat\<close> resolves there, and no scaffold file is written. The
  laws \<open>fs_laws\<close> do not hold of such a configuration.
\<close>

lemma generateTokens_directory_at_scaffold_path:
  "(case generateTokens (sample_world ''2026-01-01T00:00:00.000Z'')
          (sample_options \<lparr> opt_config := Some \<lparr> u_format = None, u_prefixes = None,
             u_output = Some \<lparr> u_dir = None, u_paletteSubdir = Some ''app.css'',
                                u_openpropsSubdir = None \<rparr>,
             u_openprops = Some \<lparr> u_baseUrl = None, u_files = Some [''sizes''] \<rparr>,
             u_semantic = None \<rparr> \<rparr>) Map.empty of
      (e, fs) \<Rightarrow> e = None \<and> fs ''./tokens/app.css'' = Some Directory)"
  by code_simp


section \<open>Prefixing custom-property definitions\<close>

subsection \<open>Templates without a dollar sign\<close>

lemma getSubstitution_plain:
  "CHR ''$'' \<notin> set p \<Longrightarrow> getSubstitution m b a caps (p @ t) = p @ getSubstitution m b a caps t"
proof (induction p)
  case Nil
  then show ?case by simp
next
  case (Cons c p)
  then have c: "c \<noteq> CHR ''$''" and p: "CHR ''$'' \<notin> set p" by auto
  show ?case
  proof (cases "p @ t")
    case Nil
    then show ?thesis using c by simp
  next
    case (Cons d r)
    have "getSubstitution m b a caps ((c # p) @ t) = c # getSubstitution m b a caps (p @ t)"
      using c Cons by simp
    with Cons.IH [OF p] show ?thesis by simp
  qed
qed

lemma getSubstitution_plain_all:
  "CHR ''$'' \<notin> set p \<Longrightarrow> getSubstitution m b a caps p = p"
  using getSubstitution_plain [of p m b a caps "[]"] by simp

lemma getSubstitution_prefix_template:
  assumes "CHR ''$'' \<notin> set prefix"
  shows "getSubstitution m b a [c1, c2, c3, c4] (''$1--'' @ prefix @ ''-$3:'') =
           c1 @ ''--'' @ prefix @ ''-'' @ c3 @ '':''"
proof -
  have d1: "is_digit (CHR ''1'')" "digit_val (CHR ''1'') = 1" "is_digit (CHR ''3'')"
    "digit_val (CHR ''3'') = 3" "\<not> is_digit (CHR ''-'')" "\<not> is_digit (CHR '':'')"
    by (simp_all add: is_digit_def digit_val_def decDigits_def)
  have tail: "getSubstitution m b a [c1, c2, c3, c4] ''-$3:'' = ''-'' @ c3 @ '':''"
    using d1 by simp
  have mid: "getSubstitution m b a [c1, c2, c3, c4] (''--'' @ prefix @ ''-$3:'') =
      ''--'' @ prefix @ ''-'' @ c3 @ '':''"
  proof -
    have "CHR ''$'' \<notin> set (''--'' @ prefix)" using assms by simp
    from getSubstitution_plain [OF this, of m b a "[c1, c2, c3, c4]" "''-$3:''"] tail
    show ?thesis by simp
  qed
  have "getSubstitution m b a [c1, c2, c3, c4] (CHR ''$'' # CHR ''1'' # (''--'' @ prefix @ ''-$3:'')) =
      c1 @ getSubstitution m b a [c1, c2, c3, c4] (''--'' @ prefix @ ''-$3:'')"
    using d1 by simp
  with mid show ?thesis by simp
qed

subsection \<open>What a match of the definition pattern looks like\<close>

lemma lit_Some: "lit l s = Some r \<Longrightarrow> s = l @ r"
  by (auto simp: lit_def startsWith_def split: if_splits) (metis append_take_drop_id)

lemma lit_append: "lit l (l @ r) = Some r"
  by (simp add: lit_def startsWith_def)

lemma skip_ws_suffix: "\<exists>u. s = u @ skip_ws s \<and> list_all is_space u"
  unfolding skip_ws_def
  by (rule exI [of _ "takeWhile is_space s"]) (auto simp: list_all_iff dest: set_takeWhileD)

lemma match_decl_body_Some:
  assumes "match_decl_body s = Some (name, rest)"
  shows "\<exists>u. s = ''--'' @ u @ rest \<and> u \<noteq> []"
proof -
  from assms obtain r1 where r1: "lit ''--'' s = Some r1"
    by (auto simp: match_decl_body_def split: bind_splits)
  with assms obtain c r2 where r2: "r1 = c # r2" "is_alpha c"
    and rest: "lit '':'' (skip_ws (dropWhile is_name_char r2)) = Some rest"
    by (auto simp: match_decl_body_def split: bind_splits list.splits if_splits)
  from skip_ws_suffix [of "dropWhile is_name_char r2"] obtain u where
    u: "dropWhile is_name_char r2 = u @ skip_ws (dropWhile is_name_char r2)" by blast
  have "r2 = takeWhile is_name_char r2 @ dropWhile is_name_char r2" by simp
  with u lit_Some [OF rest] have "r2 = takeWhile is_name_char r2 @ u @ '':'' @ rest"
    by metis
  with r2 lit_Some [OF r1] have "s = ''--'' @ (c # takeWhile is_name_char r2 @ u @ '':'') @ rest"
    by simp
  then show ?thesis by blast
qed

lemma match_decl_Some:
  assumes "match_decl pre s = Some (m, caps, rest)"
  shows "s = m @ rest \<and> length rest < length s \<and> (\<exists>l name. caps = [l, ''--'', name, name])"
proof -
  have cut: "matched_of (u @ rest) rest = u" for u :: string
    by (simp add: matched_of_def)
  show ?thesis
  proof (cases "if at_line_start pre then match_decl_body s else None")
    case (Some nr)
    obtain name r where nr: "nr = (name, r)" by (cases nr)
    with Some assms have eq: "m = matched_of s rest" "caps = [[], ''--'', name, name]" "r = rest"
      by (auto simp: match_decl_def)
    from Some nr eq have "match_decl_body s = Some (name, rest)" by (auto split: if_splits)
    from match_decl_body_Some [OF this] obtain u where u: "s = ''--'' @ u @ rest" by blast
    then have "s = (''--'' @ u) @ rest" by simp
    with eq cut [of "''--'' @ u"] show ?thesis by auto
  next
    case None
    with assms obtain c r where s: "s = c # r" and lead: "is_space c \<or> c = CHR '';''"
      by (auto simp: match_decl_def split: list.splits if_splits)
    with None assms obtain name where b: "match_decl_body r = Some (name, rest)"
      and eq: "m = matched_of s rest" "caps = [[c], ''--'', name, name]"
      by (auto simp: match_decl_def split: option.splits)
    from match_decl_body_Some [OF b] obtain u where u: "r = ''--'' @ u @ rest" by blast
    with s have "s = (c # ''--'' @ u) @ rest" by simp
    with eq cut [of "c # ''--'' @ u"] show ?thesis by auto
  qed
qed
subsection \<open>Text that cannot take part in a match\<close>

lemma takeWhile_stop: "\<not> P c \<Longrightarrow> takeWhile P (xs @ c # ys) = takeWhile P xs"
  by (induction xs) auto

lemma dropWhile_stop: "\<not> P c \<Longrightarrow> dropWhile P (xs @ c # ys) = dropWhile P xs @ c # ys"
  by (induction xs) auto

lemma lit_colon_skip_append:
  assumes "lit '':'' (skip_ws S) = None"
  shows "lit '':'' (skip_ws (Y @ S)) = map_option (\<lambda>r. r @ S) (lit '':'' (skip_ws Y))"
proof (induction Y)
  case Nil
  show ?case using assms by (simp add: lit_def startsWith_def skip_ws_def)
next
  case (Cons y Y)
  show ?case
  proof (cases "is_space y")
    case True
    then show ?thesis using Cons by (simp add: skip_ws_def)
  next
    case False
    then show ?thesis by (simp add: skip_ws_def lit_def startsWith_def)
  qed
qed

lemma is_alpha_name_char: "is_alpha c \<Longrightarrow> is_name_char c"
  by (simp add: is_name_char_def)

lemma dash_name_char: "is_name_char (CHR ''-'')"
  by (simp add: is_name_char_def)

lemma match_decl_body_append:
  assumes c: "\<not> is_name_char c" and colon: "lit '':'' (skip_ws (c # S)) = None"
  shows "match_decl_body (A @ c # S) =
           map_option (\<lambda>(name, rest). (name, rest @ c # S)) (match_decl_body A)"
proof -
  have cd: "c \<noteq> CHR ''-''" using c dash_name_char by auto
  have ca: "\<not> is_alpha c" using c is_alpha_name_char by auto
  show ?thesis
  proof (cases A)
    case Nil
    then show ?thesis using cd by (simp add: match_decl_body_def lit_def startsWith_def)
  next
    case A1: (Cons a A1)
    show ?thesis
    proof (cases A1)
      case Nil
      then show ?thesis using cd A1 by (simp add: match_decl_body_def lit_def startsWith_def)
    next
      case A2: (Cons b A2)
      show ?thesis
      proof (cases "a = CHR ''-'' \<and> b = CHR ''-''")
        case False
        then show ?thesis using A1 A2 by (auto simp: match_decl_body_def lit_def startsWith_def)
      next
        case True
        then have l1: "lit ''--'' (A @ c # S) = Some (A2 @ c # S)" "lit ''--'' A = Some A2"
          using A1 A2 by (simp_all add: lit_def startsWith_def)
        show ?thesis
        proof (cases A2)
          case Nil
          then show ?thesis using l1 ca by (simp add: match_decl_body_def)
        next
          case (Cons x r2)
          have tw: "takeWhile is_name_char (r2 @ c # S) = takeWhile is_name_char r2"
            using c by (rule takeWhile_stop)
          have dw: "dropWhile is_name_char (r2 @ c # S) = dropWhile is_name_char r2 @ c # S"
            using c by (rule dropWhile_stop)
          show ?thesis
            using l1 Cons tw dw lit_colon_skip_append [OF colon, of "dropWhile is_name_char r2"]
            by (cases "lit '':'' (skip_ws (dropWhile is_name_char r2))")
               (simp_all add: match_decl_body_def)
        qed
      qed
    qed
  qed
qed

lemma matched_of_append:
  "length rest \<le> length A \<Longrightarrow> matched_of (A @ S) (rest @ S) = matched_of A rest"
  by (simp add: matched_of_def)

lemma match_decl_body_shorter:
  "match_decl_body s = Some (name, rest) \<Longrightarrow> length rest \<le> length s"
  using match_decl_body_Some [of s name rest] by auto

lemma match_decl_append:
  assumes body: "\<And>A. match_decl_body (A @ S) =
      map_option (\<lambda>(name, rest). (name, rest @ S)) (match_decl_body A)"
    and A: "A \<noteq> []"
  shows "match_decl pre (A @ S) =
           map_option (\<lambda>(m, caps, rest). (m, caps, rest @ S)) (match_decl pre A)"
proof -
  from A obtain a A1 where A1: "A = a # A1" by (cases A) auto
  show ?thesis
  proof (cases "if at_line_start pre then match_decl_body A else None")
    case (Some nr)
    obtain name rest where nr: "nr = (name, rest)" by (cases nr)
    from Some nr have b: "match_decl_body A = Some (name, rest)" and ls: "at_line_start pre"
      by (auto split: if_splits)
    from match_decl_body_shorter [OF b] have "matched_of (A @ S) (rest @ S) = matched_of A rest"
      by (rule matched_of_append)
    then show ?thesis using b ls body [of A] by (simp add: match_decl_def)
  next
    case None
    then have n1: "(if at_line_start pre then match_decl_body (A @ S) else None) = None"
      using body [of A] by (auto split: if_splits)
    show ?thesis
    proof (cases "is_space a \<or> a = CHR '';''")
      case False
      then show ?thesis unfolding match_decl_def None n1 using A1 by simp
    next
      case True
      show ?thesis
      proof (cases "match_decl_body A1")
        case None2: None
        then show ?thesis unfolding match_decl_def None n1 using A1 True body [of A1] by simp
      next
        case (Some nr)
        obtain name rest where nr: "nr = (name, rest)" by (cases nr)
        from match_decl_body_shorter [of A1 name rest] Some nr A1
        have "length rest \<le> length A" by simp
        then have "matched_of (A @ S) (rest @ S) = matched_of A rest"
          by (rule matched_of_append)
        then show ?thesis unfolding match_decl_def None n1 using A1 True body [of A1] Some nr
          by simp
      qed
    qed
  qed
qed

lemma prefixFrom_Nil: "prefixFrom prefix pre [] = []"
  by (simp add: prefixFrom_def match_decl_def match_decl_body_def lit_def startsWith_def)

lemma prefixFrom_step:
  "match_decl pre (a # s) = None \<Longrightarrow>
     prefixFrom prefix pre (a # s) = a # prefixFrom prefix (pre @ [a]) s"
  by (simp add: prefixFrom_def)

lemma prefixFrom_match:
  assumes "match_decl pre s = Some (m, caps, rest)" and "CHR ''$'' \<notin> set prefix"
  shows "prefixFrom prefix pre s =
           hd caps @ ''--'' @ prefix @ ''-'' @ (caps ! 2) @ '':'' @ prefixFrom prefix (pre @ m) rest"
proof -
  from match_decl_Some [OF assms(1)] obtain l name where
    len: "length rest < length s" and caps: "caps = [l, ''--'', name, name]" by blast
  have "prefixFrom prefix pre s =
      getSubstitution m pre rest caps (''$1--'' @ prefix @ ''-$3:'') @ prefixFrom prefix (pre @ m) rest"
    unfolding prefixFrom_def
    by (subst replace_global.simps) (simp add: assms(1) len)
  also have "getSubstitution m pre rest caps (''$1--'' @ prefix @ ''-$3:'') =
      l @ ''--'' @ prefix @ ''-'' @ name @ '':''"
    unfolding caps by (rule getSubstitution_prefix_template [OF assms(2)])
  finally show ?thesis using caps by simp
qed

lemma prefixFrom_append:
  assumes body: "\<And>A. match_decl_body (A @ S) =
      map_option (\<lambda>(name, rest). (name, rest @ S)) (match_decl_body A)"
    and p: "CHR ''$'' \<notin> set prefix"
  shows "prefixFrom prefix pre (A @ S) = prefixFrom prefix pre A @ prefixFrom prefix (pre @ A) S"
proof (induction A arbitrary: pre rule: length_induct)
  case (1 A)
  show ?case
  proof (cases A)
    case Nil
    then show ?thesis by (simp add: prefixFrom_Nil)
  next
    case (Cons a A1)
    then have ne: "A \<noteq> []" by simp
    note ma = match_decl_append [of S, OF body ne, of pre]
    show ?thesis
    proof (cases "match_decl pre A")
      case None
      with ma have n: "match_decl pre (a # A1 @ S) = None" using Cons by simp
      from 1 [rule_format, of A1 "pre @ [a]"] Cons
      have ih: "prefixFrom prefix (pre @ [a]) (A1 @ S) =
          prefixFrom prefix (pre @ [a]) A1 @ prefixFrom prefix (pre @ a # A1) S" by simp
      from None Cons have "match_decl pre (a # A1) = None" by simp
      from prefixFrom_step [OF this] prefixFrom_step [OF n] ih Cons show ?thesis by simp
    next
      case (Some r)
      obtain m caps rest where r: "r = (m, caps, rest)" by (cases r)
      with Some have mA: "match_decl pre A = Some (m, caps, rest)" by simp
      with ma have mAS: "match_decl pre (A @ S) = Some (m, caps, rest @ S)" by simp
      from match_decl_Some [OF mA] have A: "A = m @ rest" and len: "length rest < length A" by auto
      from 1 [rule_format, OF len, of "pre @ m"] A
      have ih: "prefixFrom prefix (pre @ m) (rest @ S) =
          prefixFrom prefix (pre @ m) rest @ prefixFrom prefix (pre @ A) S" by simp
      from prefixFrom_match [OF mA p] prefixFrom_match [OF mAS p] ih show ?thesis by simp
    qed
  qed
qed

lemma prefixFrom_barrier:
  assumes "\<not> is_name_char c" and "lit '':'' (skip_ws (c # S)) = None"
    and "CHR ''$'' \<notin> set prefix"
  shows "prefixFrom prefix pre (A @ c # S) =
           prefixFrom prefix pre A @ prefixFrom prefix (pre @ A) (c # S)"
  by (rule prefixFrom_append [OF match_decl_body_append [OF assms(1,2)] assms(3)])

subsection \<open>The texts that the definition pattern matches\<close>

lemma space_not_name_char: "is_space c \<Longrightarrow> \<not> is_name_char c"
  by (auto simp: is_space_def is_name_char_def is_alpha_def is_digit_def lowerAlpha_def
      upperAlpha_def decDigits_def)

lemma name_char_not_colon: "is_name_char c \<Longrightarrow> c \<noteq> CHR '':''"
  by (auto simp: is_name_char_def is_alpha_def is_digit_def lowerAlpha_def
      upperAlpha_def decDigits_def)

lemma space_not_colon: "is_space c \<Longrightarrow> c \<noteq> CHR '':''"
  by (auto simp: is_space_def)

lemma space_not_dash: "is_space c \<Longrightarrow> c \<noteq> CHR ''-''"
  by (auto simp: is_space_def)

lemma punct_not_name_char:
  "\<not> is_name_char (CHR '';'')" "\<not> is_name_char (CHR ''('')" "\<not> is_name_char (CHR '')'')"
  "\<not> is_name_char (CHR '':'')"
  by (simp_all add: is_name_char_def is_alpha_def is_digit_def lowerAlpha_def
      upperAlpha_def decDigits_def)

lemma punct_not_space:
  "\<not> is_space (CHR '';'')" "\<not> is_space (CHR ''('')" "\<not> is_space (CHR '')'')"
  "\<not> is_space (CHR '':'')" "\<not> is_space (CHR ''-'')"
  by (simp_all add: is_space_def)

lemma skip_ws_spaces:
  "list_all is_space ws \<Longrightarrow> \<not> is_space c \<Longrightarrow> skip_ws (ws @ c # B) = c # B"
  by (induction ws) (simp_all add: skip_ws_def)

lemma dropWhile_name_spaces:
  assumes "list_all is_name_char cs" "list_all is_space ws"
  shows "dropWhile is_name_char (cs @ ws @ CHR '':'' # B) = ws @ CHR '':'' # B"
    and "takeWhile is_name_char (cs @ ws @ CHR '':'' # B) = cs"
proof -
  have hd: "\<not> is_name_char (hd (ws @ CHR '':'' # B))"
    using assms(2) space_not_name_char punct_not_name_char(4) by (cases ws) auto
  obtain d D where D: "ws @ CHR '':'' # B = d # D" by (cases ws) auto
  with hd have d: "\<not> is_name_char d" by simp
  have all: "\<And>x. x \<in> set cs \<Longrightarrow> is_name_char x" using assms(1) by (simp add: list_all_iff)
  show "dropWhile is_name_char (cs @ ws @ CHR '':'' # B) = ws @ CHR '':'' # B"
    unfolding D using d all by (simp add: dropWhile_append2)
  show "takeWhile is_name_char (cs @ ws @ CHR '':'' # B) = cs"
    unfolding D using takeWhile_stop [of is_name_char d cs D] d all
    by (simp add: takeWhile_eq_all_conv)
qed

lemma match_decl_body_intro:
  assumes "is_alpha c0" "list_all is_name_char cs" "list_all is_space ws"
  shows "match_decl_body (''--'' @ (c0 # cs) @ ws @ '':'' @ B) = Some (c0 # cs, B)"
proof -
  have l: "lit ''--'' (''--'' @ (c0 # cs) @ ws @ '':'' @ B) = Some (c0 # cs @ ws @ CHR '':'' # B)"
    using lit_append [of "''--''" "(c0 # cs) @ ws @ '':'' @ B"] by simp
  have s: "skip_ws (ws @ CHR '':'' # B) = CHR '':'' # B"
    by (rule skip_ws_spaces [OF assms(3) punct_not_space(4)])
  have c: "lit '':'' (CHR '':'' # B) = Some B" using lit_append [of "'':''" B] by simp
  show ?thesis
    unfolding match_decl_body_def l
    using assms(1) dropWhile_name_spaces [OF assms(2,3), of B] s c by simp
qed

lemma match_decl_body_shape:
  assumes "match_decl_body s = Some (name, rest)"
  shows "\<exists>c0 cs ws. s = ''--'' @ (c0 # cs) @ ws @ '':'' @ rest \<and> is_alpha c0 \<and>
           list_all is_name_char cs \<and> list_all is_space ws \<and> name = c0 # cs"
proof -
  from assms obtain r1 where r1: "lit ''--'' s = Some r1"
    by (auto simp: match_decl_body_def split: bind_splits)
  with assms obtain c r2 where r2: "r1 = c # r2" "is_alpha c"
    and rest: "lit '':'' (skip_ws (dropWhile is_name_char r2)) = Some rest"
    and name: "name = c # takeWhile is_name_char r2"
    by (auto simp: match_decl_body_def split: bind_splits list.splits if_splits)
  from skip_ws_suffix [of "dropWhile is_name_char r2"] obtain u where
    u: "dropWhile is_name_char r2 = u @ skip_ws (dropWhile is_name_char r2)"
    and us: "list_all is_space u" by blast
  have "r2 = takeWhile is_name_char r2 @ dropWhile is_name_char r2" by simp
  with u lit_Some [OF rest] have "r2 = takeWhile is_name_char r2 @ u @ '':'' @ rest"
    by metis
  with r2 lit_Some [OF r1]
  have s: "s = ''--'' @ (c # takeWhile is_name_char r2) @ u @ '':'' @ rest" by simp
  have "list_all is_name_char (takeWhile is_name_char r2)"
    by (auto simp: list_all_iff dest: set_takeWhileD)
  with s r2 us name show ?thesis by blast
qed

lemma match_decl_body_colon_free:
  assumes S: "CHR '':'' \<notin> set S"
  shows "match_decl_body (A @ S) = map_option (\<lambda>(name, rest). (name, rest @ S)) (match_decl_body A)"
proof (cases "match_decl_body A")
  case (Some nr)
  obtain name rest where nr: "nr = (name, rest)" by (cases nr)
  from match_decl_body_shape [of A name rest] Some nr obtain c0 cs ws where
    A: "A = ''--'' @ (c0 # cs) @ ws @ '':'' @ rest" and ok: "is_alpha c0" "list_all is_name_char cs"
      "list_all is_space ws" and name: "name = c0 # cs" by auto
  from A have "A @ S = ''--'' @ (c0 # cs) @ ws @ '':'' @ (rest @ S)" by simp
  with match_decl_body_intro [OF ok, of "rest @ S"] Some nr name show ?thesis by simp
next
  case None
  have "match_decl_body (A @ S) = None"
  proof (rule ccontr)
    assume "match_decl_body (A @ S) \<noteq> None"
    then obtain name r where b: "match_decl_body (A @ S) = Some (name, r)" by auto
    from match_decl_body_shape [OF b] obtain c0 cs ws where
      AS: "A @ S = ''--'' @ (c0 # cs) @ ws @ '':'' @ r" and ok: "is_alpha c0" "list_all is_name_char cs"
        "list_all is_space ws" by auto
    define P where "P = ''--'' @ (c0 # cs) @ ws"
    from AS have eq: "A @ S = P @ CHR '':'' # r" by (simp add: P_def)
    then obtain us where "(A = P @ us \<and> us @ S = CHR '':'' # r) \<or> (A @ us = P \<and> S = us @ CHR '':'' # r)"
      by (auto simp: append_eq_append_conv2)
    then obtain r' where A: "A = P @ CHR '':'' # r'"
      using S by (cases us) auto
    then have "A = ''--'' @ (c0 # cs) @ ws @ '':'' @ r'" by (simp add: P_def)
    with match_decl_body_intro [OF ok, of r'] None show False by simp
  qed
  with None show ?thesis by simp
qed

lemma match_decl_colon:
  assumes "match_decl pre s = Some r"
  shows "CHR '':'' \<in> set s"
proof -
  from assms have "(\<exists>x. match_decl_body s = Some x) \<or> (\<exists>c t x. s = c # t \<and> match_decl_body t = Some x)"
    by (auto simp: match_decl_def split: option.splits if_splits list.splits)
  then show ?thesis using match_decl_body_shape by fastforce
qed

lemma prefixFrom_colon_free:
  "CHR '':'' \<notin> set S \<Longrightarrow> prefixFrom prefix pre S = S"
proof (induction S arbitrary: pre)
  case Nil
  show ?case by (rule prefixFrom_Nil)
next
  case (Cons a S)
  have "match_decl pre (a # S) = None"
    using match_decl_colon [of pre "a # S"] Cons.prems by (cases "match_decl pre (a # S)") auto
  from prefixFrom_step [OF this] Cons show ?case by simp
qed

lemma prefixFrom_colon_free_suffix:
  assumes "CHR '':'' \<notin> set S" and "CHR ''$'' \<notin> set prefix"
  shows "prefixFrom prefix pre (A @ S) = prefixFrom prefix pre A @ S"
  using prefixFrom_append [OF match_decl_body_colon_free [OF assms(1)] assms(2), of pre A]
    prefixFrom_colon_free [OF assms(1)] by simp
subsection \<open>Definitions are prefixed, references are not\<close>

lemma prefixFrom_line_start:
  assumes p: "CHR ''$'' \<notin> set prefix"
    and ok: "is_alpha c0" "list_all is_name_char cs" "list_all is_space ws"
    and ls: "at_line_start pre"
  shows "prefixFrom prefix pre (''--'' @ (c0 # cs) @ ws @ '':'' @ B) =
           ''--'' @ prefix @ ''-'' @ (c0 # cs) @ '':'' @
           prefixFrom prefix (pre @ ''--'' @ (c0 # cs) @ ws @ '':'') B"
proof -
  let ?s = "''--'' @ (c0 # cs) @ ws @ '':'' @ B"
  have "?s = (''--'' @ (c0 # cs) @ ws @ '':'') @ B" by simp
  then have cut: "matched_of ?s B = ''--'' @ (c0 # cs) @ ws @ '':''"
    unfolding matched_of_def by (metis add_diff_cancel_right' append_eq_conv_conj length_append)
  have "match_decl pre ?s = Some (matched_of ?s B, [[], ''--'', c0 # cs, c0 # cs], B)"
    unfolding match_decl_def using ls match_decl_body_intro [OF ok, of B] by simp
  from prefixFrom_match [OF this p] cut show ?thesis by simp
qed

lemma prefixFrom_lead:
  assumes p: "CHR ''$'' \<notin> set prefix"
    and ok: "is_alpha c0" "list_all is_name_char cs" "list_all is_space ws"
    and l: "is_space l \<or> l = CHR '';''"
  shows "prefixFrom prefix pre (l # ''--'' @ (c0 # cs) @ ws @ '':'' @ B) =
           l # ''--'' @ prefix @ ''-'' @ (c0 # cs) @ '':'' @
           prefixFrom prefix (pre @ l # ''--'' @ (c0 # cs) @ ws @ '':'') B"
proof -
  let ?s = "l # ''--'' @ (c0 # cs) @ ws @ '':'' @ B"
  have "?s = (l # ''--'' @ (c0 # cs) @ ws @ '':'') @ B" by simp
  then have cut: "matched_of ?s B = l # ''--'' @ (c0 # cs) @ ws @ '':''"
    unfolding matched_of_def by (metis add_diff_cancel_right' append_eq_conv_conj length_append)
  have ld: "l \<noteq> CHR ''-''" using l space_not_dash by auto
  have first: "match_decl_body ?s = None"
    using ld by (simp add: match_decl_body_def lit_def startsWith_def)
  have "match_decl pre ?s = Some (matched_of ?s B, [[l], ''--'', c0 # cs, c0 # cs], B)"
    unfolding match_decl_def first using l match_decl_body_intro [OF ok, of B] by simp
  from prefixFrom_match [OF this p] cut show ?thesis by simp
qed

lemma lead_barrier:
  assumes "is_space l \<or> l = CHR '';''"
  shows "\<not> is_name_char l" and "lit '':'' (skip_ws (l # CHR ''-'' # S)) = None"
proof -
  show "\<not> is_name_char l" using assms space_not_name_char punct_not_name_char(1) by auto
  show "lit '':'' (skip_ws (l # CHR ''-'' # S)) = None"
    using assms punct_not_space by (auto simp: skip_ws_def lit_def startsWith_def)
qed

lemma prefixFrom_reference:
  assumes p: "CHR ''$'' \<notin> set prefix" and X: "CHR '':'' \<notin> set X"
    and c: "c = CHR '')'' \<or> c = CHR '',''"
  shows "prefixFrom prefix pre (A @ ''var('' @ X @ [c] @ B) =
           prefixFrom prefix pre A @ ''var('' @ X @ [c] @
           prefixFrom prefix (pre @ A @ ''var('' @ X @ [c]) B"
proof -
  have cn: "\<not> is_name_char c" "\<not> is_space c" "c \<noteq> CHR '':''" "c \<noteq> CHR ''-''"
    "c \<noteq> CHR '';''"
    using c by (auto simp: is_name_char_def is_alpha_def is_digit_def lowerAlpha_def
        upperAlpha_def decDigits_def is_space_def)
  have open_par: "lit '':'' (skip_ws (CHR ''('' # T)) = None" for T
    using punct_not_space by (simp add: skip_ws_def lit_def startsWith_def)
  have close_par: "lit '':'' (skip_ws (c # T)) = None" for T
    using cn by (simp add: skip_ws_def lit_def startsWith_def)
  have var: "CHR '':'' \<notin> set ''var''" by simp
  have inner: "CHR '':'' \<notin> set (CHR ''('' # X)" using X by simp
  have "prefixFrom prefix pre (A @ ''var('' @ X @ [c] @ B) =
      prefixFrom prefix pre ((A @ ''var'') @ CHR ''('' # (X @ [c] @ B))" by simp
  also have "\<dots> = prefixFrom prefix pre (A @ ''var'') @
      prefixFrom prefix (pre @ A @ ''var'') (CHR ''('' # (X @ [c] @ B))"
    using prefixFrom_barrier [OF punct_not_name_char(2) open_par p, of pre "A @ ''var''"] by simp
  also have "prefixFrom prefix pre (A @ ''var'') = prefixFrom prefix pre A @ ''var''"
    by (rule prefixFrom_colon_free_suffix [OF var p])
  also have "prefixFrom prefix (pre @ A @ ''var'') (CHR ''('' # (X @ [c] @ B)) =
      prefixFrom prefix (pre @ A @ ''var'') ((CHR ''('' # X) @ c # B)" by simp
  also have "\<dots> = prefixFrom prefix (pre @ A @ ''var'') (CHR ''('' # X) @
      prefixFrom prefix ((pre @ A @ ''var'') @ CHR ''('' # X) (c # B)"
    by (rule prefixFrom_barrier [OF cn(1) close_par p])
  also have "prefixFrom prefix (pre @ A @ ''var'') (CHR ''('' # X) = CHR ''('' # X"
    by (rule prefixFrom_colon_free [OF inner])
  also have "prefixFrom prefix ((pre @ A @ ''var'') @ CHR ''('' # X) (c # B) =
      c # prefixFrom prefix (((pre @ A @ ''var'') @ CHR ''('' # X) @ [c]) B"
  proof (rule prefixFrom_step)
    have "match_decl_body (c # B) = None"
      using cn by (simp add: match_decl_body_def lit_def startsWith_def)
    then show "match_decl ((pre @ A @ ''var'') @ CHR ''('' # X) (c # B) = None"
      using cn by (simp add: match_decl_def)
  qed
  finally show ?thesis by simp
qed

text \<open>
  What the pattern rewrites and what it leaves, for a prefix without a dollar sign. A
  definition \<open>--name:\<close> (a name of one ASCII letter followed by letters, digits and
  hyphens, then white space or none, then the colon) becomes \<open>--prefix-name:\<close> when it
  stands at the start of the text or of a line, or directly after one white-space
  character or a semicolon, whatever text comes before and after; the text before is
  rewritten as it is on its own, and the rewriting goes on after the colon. A reference,
  the text from \<open>var(\<close> to the closing parenthesis or the comma that ends the property
  name, is copied as it is, whatever stands before and after it.
\<close>

theorem prefixOpenPropsCSS_definitions_not_references:
  assumes "CHR ''$'' \<notin> set prefix"
    and "is_alpha c0" and "list_all is_name_char cs" and "list_all is_space ws"
  shows "prefixOpenPropsCSS css prefix = prefixFrom prefix [] css \<and>
         (at_line_start pre \<longrightarrow>
            prefixFrom prefix pre (''--'' @ (c0 # cs) @ ws @ '':'' @ B) =
              ''--'' @ prefix @ ''-'' @ (c0 # cs) @ '':'' @
              prefixFrom prefix (pre @ ''--'' @ (c0 # cs) @ ws @ '':'') B) \<and>
         (is_space l \<or> l = CHR '';'' \<longrightarrow>
            prefixFrom prefix pre (A @ [l] @ ''--'' @ (c0 # cs) @ ws @ '':'' @ B) =
              prefixFrom prefix pre A @ [l] @ ''--'' @ prefix @ ''-'' @ (c0 # cs) @ '':'' @
              prefixFrom prefix (pre @ A @ [l] @ ''--'' @ (c0 # cs) @ ws @ '':'') B) \<and>
         (CHR '':'' \<notin> set X \<and> (c = CHR '')'' \<or> c = CHR '','') \<longrightarrow>
            prefixFrom prefix pre (A @ ''var('' @ X @ [c] @ B) =
              prefixFrom prefix pre A @ ''var('' @ X @ [c] @
              prefixFrom prefix (pre @ A @ ''var('' @ X @ [c]) B)"
proof (intro conjI impI)
  show "prefixOpenPropsCSS css prefix = prefixFrom prefix [] css"
    by (simp add: prefixOpenPropsCSS_def prefixFrom_def)
next
  assume "at_line_start pre"
  from prefixFrom_line_start [OF assms this]
  show "prefixFrom prefix pre (''--'' @ (c0 # cs) @ ws @ '':'' @ B) =
      ''--'' @ prefix @ ''-'' @ (c0 # cs) @ '':'' @
      prefixFrom prefix (pre @ ''--'' @ (c0 # cs) @ ws @ '':'') B" .
next
  assume l: "is_space l \<or> l = CHR '';''"
  let ?S = "CHR ''-'' # (''-'' @ (c0 # cs) @ ws @ '':'' @ B)"
  have "prefixFrom prefix pre (A @ l # ?S) =
      prefixFrom prefix pre A @ prefixFrom prefix (pre @ A) (l # ?S)"
    by (rule prefixFrom_barrier [OF lead_barrier [OF l] assms(1)])
  with prefixFrom_lead [OF assms l, of "pre @ A" B]
  show "prefixFrom prefix pre (A @ [l] @ ''--'' @ (c0 # cs) @ ws @ '':'' @ B) =
      prefixFrom prefix pre A @ [l] @ ''--'' @ prefix @ ''-'' @ (c0 # cs) @ '':'' @
      prefixFrom prefix (pre @ A @ [l] @ ''--'' @ (c0 # cs) @ ws @ '':'') B" by simp
next
  assume "CHR '':'' \<notin> set X \<and> (c = CHR '')'' \<or> c = CHR '','')"
  then have X: "CHR '':'' \<notin> set X" and c: "c = CHR '')'' \<or> c = CHR '',''" by simp_all
  from prefixFrom_reference [OF assms(1) X c]
  show "prefixFrom prefix pre (A @ ''var('' @ X @ [c] @ B) =
      prefixFrom prefix pre A @ ''var('' @ X @ [c] @
      prefixFrom prefix (pre @ A @ ''var('' @ X @ [c]) B" .
qed

text \<open>The rewriting of a definition followed on the same line by a reference to it.\<close>

theorem prefixOpenPropsCSS_definition_and_reference_example:
  "prefixOpenPropsCSS '':root { --size-1 : 1rem; --gap: var(--size-1);--x:0 }'' ''op'' =
     '':root { --op-size-1: 1rem; --op-gap: var(--size-1);--op-x:0 }''"
proof -
  have p: "CHR ''$'' \<notin> set ''op''" by simp
  have c0: "is_alpha (CHR ''s'')" by (simp add: is_alpha_def lowerAlpha_def upperAlpha_def)
  have cs: "list_all is_name_char ''ize-1''"
    by (simp add: is_name_char_def is_alpha_def is_digit_def lowerAlpha_def upperAlpha_def
        decDigits_def)
  have ws: "list_all is_space '' ''" by (simp add: is_space_def)
  have l: "is_space (CHR '' '') \<or> CHR '' '' = CHR '';''" by (simp add: is_space_def)
  note T = prefixOpenPropsCSS_definitions_not_references [OF p c0 cs ws,
      of "'':root { --size-1 : 1rem; --gap: var(--size-1);--x:0 }''" "[]"
         "'' 1rem; --gap: var(--size-1);--x:0 }''" "CHR '' ''" "'':root {''" "[]"]
  from T have e1: "prefixOpenPropsCSS '':root { --size-1 : 1rem; --gap: var(--size-1);--x:0 }'' ''op'' =
      prefixFrom ''op'' [] '':root { --size-1 : 1rem; --gap: var(--size-1);--x:0 }''"
    by (rule conjunct1)
  from T [THEN conjunct2, THEN conjunct2, THEN conjunct1, rule_format, OF l]
  have e2: "prefixFrom ''op'' [] '':root { --size-1 : 1rem; --gap: var(--size-1);--x:0 }'' =
      prefixFrom ''op'' [] '':root {'' @ '' --op-size-1:'' @
      prefixFrom ''op'' '':root { --size-1 :'' '' 1rem; --gap: var(--size-1);--x:0 }''"
    by simp
  have e3: "prefixFrom ''op'' [] '':root {'' = '':root {''" by code_simp
  have e4: "prefixFrom ''op'' '':root { --size-1 :'' '' 1rem; --gap: var(--size-1);--x:0 }'' =
      '' 1rem; --op-gap: var(--size-1);--op-x:0 }''" by code_simp
  show ?thesis unfolding e1 e2 e3 e4 by simp
qed

text \<open>
  Claim C1: every custom-property definition at top level of a rule block is rewritten to
  carry the prefix, and no reference inside \<open>var(...)\<close> is. The pattern asks for the start
  of a line, a white-space character or a semicolon before the two hyphens: a definition
  that follows the opening brace of its block with nothing in between is at top level of a
  rule block, and \<open>prefixOpenPropsCSS\<close> returns it without the prefix.
\<close>

theorem prefixOpenPropsCSS_skips_definition_after_brace:
  "prefixOpenPropsCSS '':root{--size-1:1rem}'' ''op'' = '':root{--size-1:1rem}''"
  by code_simp

section \<open>The shadows file\<close>

subsection \<open>Scanning over text where the pattern cannot match\<close>

lemma replace_global_skip:
  assumes "\<And>i p. i < length A \<Longrightarrow> m p (drop i A @ S) = None"
  shows "replace_global m tmpl pre (A @ S) = A @ replace_global m tmpl (pre @ A) S"
  using assms
proof (induction A arbitrary: pre)
  case Nil
  show ?case by simp
next
  case (Cons a A)
  from Cons.prems [of 0 pre] have n: "m pre (a # A @ S) = None" by simp
  have "\<And>i p. i < length A \<Longrightarrow> m p (drop i A @ S) = None"
    using Cons.prems [of "Suc i" for i] by simp
  from Cons.IH [OF this, of "pre @ [a]"] n show ?case
    by (subst replace_global.simps) simp
qed

lemma search_first_skip:
  assumes "\<And>i p. i < length A \<Longrightarrow> m p (drop i A @ S) = None"
  shows "search_first m pre (A @ S) = search_first m (pre @ A) S"
  using assms
proof (induction A arbitrary: pre)
  case Nil
  show ?case by simp
next
  case (Cons a A)
  from Cons.prems [of 0 pre] have n: "m pre (a # A @ S) = None" by simp
  have "\<And>i p. i < length A \<Longrightarrow> m p (drop i A @ S) = None"
    using Cons.prems [of "Suc i" for i] by simp
  from Cons.IH [OF this, of "pre @ [a]"] n show ?case by simp
qed

lemma replace_first_skip:
  assumes "\<And>i p. i < length A \<Longrightarrow> m p (drop i A @ S) = None"
  shows "replace_first m tmpl pre (A @ S) = A @ replace_first m tmpl (pre @ A) S"
  using assms
proof (induction A arbitrary: pre)
  case Nil
  show ?case by simp
next
  case (Cons a A)
  from Cons.prems [of 0 pre] have n: "m pre (a # A @ S) = None" by simp
  have "\<And>i p. i < length A \<Longrightarrow> m p (drop i A @ S) = None"
    using Cons.prems [of "Suc i" for i] by simp
  from Cons.IH [OF this, of "pre @ [a]"] n show ?case by simp
qed

subsection \<open>Where the shadow-colour pattern matches\<close>

lemma not_occurs_drop:
  "\<not> occurs l A \<Longrightarrow> i < length A \<Longrightarrow> \<not> startsWith (drop i A) l"
proof (induction A arbitrary: i)
  case Nil
  then show ?case by simp
next
  case (Cons a A)
  then show ?case by (cases i) auto
qed

lemma not_occurs_Nil: "\<not> occurs l A \<Longrightarrow> l \<noteq> []"
  by (induction A) (auto simp: startsWith_def)

lemma not_occurs_before:
  assumes A: "\<not> occurs L A" and i: "i < length A"
    and ov: "\<And>k. 0 < k \<Longrightarrow> k < length L \<Longrightarrow> drop k L \<noteq> take (length L - k) L"
  shows "\<not> startsWith (drop i A @ L @ R) L"
proof
  define u where "u = drop i A"
  define k where "k = length u"
  assume "startsWith (drop i A @ L @ R) L"
  then have t: "take (length L) (u @ L @ R) = L" by (simp add: startsWith_def u_def)
  have une: "0 < k" using i by (simp add: u_def k_def)
  show False
  proof (cases "length L \<le> k")
    case True
    with t have "take (length L) u = L" by (simp add: k_def)
    then have "startsWith (drop i A) L" by (simp add: startsWith_def u_def)
    with not_occurs_drop [OF A i] show False by simp
  next
    case False
    have "take (length L) (u @ L @ R) = u @ take (length L - k) L"
      using False by (simp add: k_def)
    with t have "u @ take (length L - k) L = L" by simp
    then have "drop k (u @ take (length L - k) L) = drop k L" by simp
    then have "take (length L - k) L = drop k L" by (simp add: k_def)
    with ov [OF une] False show False by simp
  qed
qed

lemma shadow_color_overlaps:
  "list_all (\<lambda>k. drop k ''--shadow-color:'' \<noteq> take (15 - k) ''--shadow-color:'') [1..<15]"
  by code_simp

lemma shadow_color_no_overlap:
  assumes "0 < k" and "k < length ''--shadow-color:''"
  shows "drop k ''--shadow-color:'' \<noteq>
         take (length ''--shadow-color:'' - k) ''--shadow-color:''"
proof -
  have len: "length ''--shadow-color:'' = 15" by simp
  from assms have "k \<in> set [1..<15]" unfolding len by auto
  with shadow_color_overlaps
  have "drop k ''--shadow-color:'' \<noteq> take (15 - k) ''--shadow-color:''"
    unfolding list_all_iff by blast
  then show ?thesis unfolding len .
qed

lemma not_occurs_before_decl:
  assumes "\<not> occurs ''--shadow-color:'' A" and "i < length A"
  shows "\<not> startsWith (drop i A @ ''--shadow-color:'' @ R) ''--shadow-color:''"
  using assms shadow_color_no_overlap by (rule not_occurs_before)

lemma match_shadow_color_None:
  "\<not> startsWith s ''--shadow-color:'' \<Longrightarrow> match_shadow_color pre s = None"
  by (simp add: match_shadow_color_def lit_def)

lemma shadow_skip_before_decl:
  assumes "\<not> occurs ''--shadow-color:'' A"
  shows "replace_global match_shadow_color tmpl pre (A @ ''--shadow-color:'' @ R) =
           A @ replace_global match_shadow_color tmpl (pre @ A) (''--shadow-color:'' @ R)"
  by (rule replace_global_skip)
     (rule match_shadow_color_None, rule not_occurs_before_decl [OF assms])

lemma shadow_skip_all:
  assumes "\<not> occurs ''--shadow-color:'' A"
  shows "replace_global match_shadow_color tmpl pre A = A"
proof -
  have n: "match_shadow_color p [] = None" for p
    by (simp add: match_shadow_color_def lit_def startsWith_def)
  have "replace_global match_shadow_color tmpl pre (A @ []) =
      A @ replace_global match_shadow_color tmpl (pre @ A) []"
    by (rule replace_global_skip)
       (rule match_shadow_color_None, use not_occurs_drop [OF assms] in simp)
  then show ?thesis using n by simp
qed

lemma tint_chars:
  "is_space c \<Longrightarrow> is_tint_char c" "is_digit c \<Longrightarrow> is_tint_char c"
  "\<not> is_tint_char (CHR '';'')" "is_digit c \<Longrightarrow> \<not> is_space c"
  by (auto simp: is_tint_char_def is_space_def is_digit_def decDigits_def)

lemma digit_not_dollar: "is_digit c \<Longrightarrow> c \<noteq> CHR ''$''"
  by (auto simp: is_digit_def decDigits_def)

lemma shadow_template:
  assumes h: "list_all is_digit h" "h \<noteq> []" and t: "CHR ''$'' \<notin> set tail"
  shows "getSubstitution m b a [c] (''$1'' @ h @ tail) = c @ h @ tail"
proof -
  obtain d h' where dh: "h = d # h'" using h by (cases h) auto
  then have d: "is_digit d" using h by simp
  have "CHR ''$'' \<notin> set h" using h(1) digit_not_dollar by (auto simp: list_all_iff)
  with t have nd: "CHR ''$'' \<notin> set (h @ tail)" by simp
  have one: "is_digit (CHR ''1'')" "digit_val (CHR ''1'') = 1"
    by (simp_all add: is_digit_def digit_val_def decDigits_def)
  have "getSubstitution m b a [c] (CHR ''$'' # CHR ''1'' # d # (h' @ tail)) =
      c @ getSubstitution m b a [c] (d # (h' @ tail))"
    by (simp only: getSubstitution.simps one d Let_def list.case) simp
  with getSubstitution_plain_all [OF nd, of m b a "[c]"] dh show ?thesis by simp
qed

lemma takeWhile_all_stop:
  "list_all P xs \<Longrightarrow> \<not> P c \<Longrightarrow> takeWhile P (xs @ c # ys) = xs"
  by (induction xs) auto

lemma dropWhile_all_stop:
  "list_all P xs \<Longrightarrow> \<not> P c \<Longrightarrow> dropWhile P (xs @ c # ys) = c # ys"
  by (induction xs) auto

lemma matched_of_cut: "matched_of (u @ rest) rest = u"
  by (simp add: matched_of_def)

lemma match_shadow_color_decl:
  assumes ws: "list_all is_space ws" and v: "list_all is_tint_char v"
    and hd: "v \<noteq> []" "\<not> is_space (hd v)"
  shows "match_shadow_color pre (''--shadow-color:'' @ ws @ v @ '';'' @ B) =
           Some (''--shadow-color:'' @ ws @ v @ '';'', [''--shadow-color:'' @ ws], B)"
proof -
  define L where "L = ''--shadow-color:''"
  define r where "r = ws @ v @ CHR '';'' # B"
  obtain d v' where dv: "v = d # v'" using hd by (cases v) auto
  have l: "lit L (L @ r) = Some r" by (rule lit_append)
  have wsv: "list_all is_tint_char (ws @ v)"
    using ws v tint_chars(1) by (auto simp: list_all_iff)
  have r2: "r = (ws @ v) @ CHR '';'' # B" by (simp add: r_def)
  have run: "takeWhile is_tint_char r = ws @ v"
    unfolding r2 by (rule takeWhile_all_stop [OF wsv tint_chars(3)])
  have rest: "dropWhile is_tint_char r = CHR '';'' # B"
    unfolding r2 by (rule dropWhile_all_stop [OF wsv tint_chars(3)])
  have r3: "r = ws @ d # (v' @ CHR '';'' # B)" by (simp add: r_def dv)
  have d: "\<not> is_space d" using hd dv by simp
  have sp: "takeWhile is_space r = ws"
    unfolding r3 by (rule takeWhile_all_stop [OF ws d])
  have semi: "lit '';'' (CHR '';'' # B) = Some B" using lit_append [of "'';''" B] by simp
  have "L @ r = (L @ ws @ v @ '';'') @ B" by (simp add: r_def)
  then have cut: "matched_of (L @ r) B = L @ ws @ v @ '';''"
    using matched_of_cut [of "L @ ws @ v @ '';''" B] by simp
  have len: "length ws < length (ws @ v)" using hd by simp
  have ne: "ws @ v \<noteq> []" using hd by simp
  have "match_shadow_color pre (L @ r) = Some (L @ ws @ v @ '';'', [L @ ws], B)"
    unfolding match_shadow_color_def L_def [symmetric] l
    by (simp only: Option.bind.simps Let_def run rest sp semi cut len ne if_True if_False)
  then show ?thesis unfolding L_def r_def by simp
qed

lemma replace_global_match:
  assumes "m pre s = Some (matched, caps, rest)" and "length rest < length s"
  shows "replace_global m tmpl pre s =
           getSubstitution matched pre rest caps tmpl @ replace_global m tmpl (pre @ matched) rest"
  by (subst replace_global.simps) (simp add: assms)

lemma shadow_replace_decl:
  assumes A: "\<not> occurs ''--shadow-color:'' A"
    and ws: "list_all is_space ws" and v: "list_all is_tint_char v"
    and hd: "v \<noteq> []" "\<not> is_space (hd v)"
    and h: "list_all is_digit h" "h \<noteq> []" and t: "CHR ''$'' \<notin> set tail"
  shows "replace_global match_shadow_color (''$1'' @ h @ tail) pre
           (A @ ''--shadow-color:'' @ ws @ v @ '';'' @ B) =
         A @ ''--shadow-color:'' @ ws @ h @ tail @
         replace_global match_shadow_color (''$1'' @ h @ tail)
           (pre @ A @ ''--shadow-color:'' @ ws @ v @ '';'') B"
proof -
  define L where "L = ''--shadow-color:''"
  define tm where "tm = ''$1'' @ h @ tail"
  have mt: "match_shadow_color (pre @ A) (L @ ws @ v @ '';'' @ B) =
      Some (L @ ws @ v @ '';'', [L @ ws], B)"
    unfolding L_def by (rule match_shadow_color_decl [OF ws v hd])
  have len: "length B < length (L @ ws @ v @ '';'' @ B)" by simp
  have sub: "getSubstitution (L @ ws @ v @ '';'') (pre @ A) B [L @ ws] tm = (L @ ws) @ h @ tail"
    unfolding tm_def by (rule shadow_template [OF h t])
  have skip: "replace_global match_shadow_color tm pre (A @ L @ (ws @ v @ '';'' @ B)) =
      A @ replace_global match_shadow_color tm (pre @ A) (L @ (ws @ v @ '';'' @ B))"
    unfolding L_def by (rule shadow_skip_before_decl [OF A])
  have "replace_global match_shadow_color tm pre (A @ L @ ws @ v @ '';'' @ B) =
      A @ (L @ ws) @ h @ tail @
      replace_global match_shadow_color tm ((pre @ A) @ L @ ws @ v @ '';'') B"
    unfolding skip replace_global_match [where m = match_shadow_color and tmpl = tm, OF mt len] sub by simp
  then show ?thesis unfolding L_def tm_def by simp
qed

subsection \<open>Where the dark-section pattern matches\<close>

lemma match_dark_section_None:
  "s = [] \<or> hd s \<noteq> CHR ''@'' \<Longrightarrow> match_dark_section pre s = None"
  by (cases s) (auto simp: match_dark_section_def lit_def startsWith_def)

lemma no_at_sign:
  assumes "CHR ''@'' \<notin> set A" and "i < length A"
  shows "match_dark_section p (drop i A @ S) = None"
proof -
  from assms(2) have "hd (drop i A @ S) = A ! i" by (simp add: hd_drop_conv_nth)
  with assms have "hd (drop i A @ S) \<noteq> CHR ''@''" by (metis nth_mem)
  then show ?thesis by (simp add: match_dark_section_None)
qed

lemma match_dark_section_block:
  assumes wsA: "list_all is_space wsA" and wsB: "list_all is_space wsB"
    and W: "list_all is_space W"
    and body: "CHR ''}'' \<notin> set body" "body \<noteq> []"
  shows "match_dark_section pre
           (''@media (prefers-color-scheme: dark) {'' @ wsA @ '':root'' @ wsB @ ''{'' @ body @
            ''}'' @ W @ ''}'' @ T) =
         Some (''@media (prefers-color-scheme: dark) {'' @ wsA @ '':root'' @ wsB @ ''{'' @ body @
               ''}'' @ W @ ''}'', [body], T)"
proof -
  define r8 where "r8 = W @ CHR ''}'' # T"
  define r7 where "r7 = body @ CHR ''}'' # r8"
  define r6 where "r6 = wsB @ CHR ''{'' # r7"
  define r5 where "r5 = ''root'' @ r6"
  define r4 where "r4 = wsA @ CHR '':'' # r5"
  define s where "s = ''@media (prefers-color-scheme: dark) {'' @ r4"
  have sp: "is_space (CHR '' '')" "\<not> is_space (CHR ''('')" "\<not> is_space (CHR ''d'')"
    "\<not> is_space (CHR ''{'')" "\<not> is_space (CHR '':'')" "\<not> is_space (CHR ''}'')"
    by (simp_all add: is_space_def)
  have f1: "lit ''@media'' s = Some ('' (prefers-color-scheme: dark) {'' @ r4)"
    by (simp add: s_def lit_def startsWith_def)
  have f2: "skip_ws ('' (prefers-color-scheme: dark) {'' @ r4) =
      ''(prefers-color-scheme: dark) {'' @ r4"
    using sp by (simp add: skip_ws_def)
  have f3: "lit ''(prefers-color-scheme:'' (''(prefers-color-scheme: dark) {'' @ r4) =
      Some ('' dark) {'' @ r4)"
    by (simp add: lit_def startsWith_def)
  have f4: "skip_ws ('' dark) {'' @ r4) = ''dark) {'' @ r4"
    using sp by (simp add: skip_ws_def)
  have f5: "lit ''dark)'' (''dark) {'' @ r4) = Some ('' {'' @ r4)"
    by (simp add: lit_def startsWith_def)
  have f6: "skip_ws ('' {'' @ r4) = ''{'' @ r4"
    using sp by (simp add: skip_ws_def)
  have f7: "lit ''{'' (''{'' @ r4) = Some r4" by (rule lit_append)
  have f8: "skip_ws r4 = CHR '':'' # r5" unfolding r4_def by (rule skip_ws_spaces [OF wsA sp(5)])
  have f9: "lit '':'' (CHR '':'' # r5) = Some r5" using lit_append [of "'':''" r5] by simp
  have f10: "lit ''root'' r5 = Some r6" unfolding r5_def by (rule lit_append)
  have f11: "skip_ws r6 = CHR ''{'' # r7" unfolding r6_def by (rule skip_ws_spaces [OF wsB sp(4)])
  have f12: "lit ''{'' (CHR ''{'' # r7) = Some r7" using lit_append [of "''{''" r7] by simp
  have nb: "list_all (\<lambda>c. c \<noteq> CHR ''}'') body" using body(1) by (auto simp: list_all_iff)
  have f13: "takeWhile (\<lambda>c. c \<noteq> CHR ''}'') r7 = body"
    unfolding r7_def by (rule takeWhile_all_stop [OF nb]) simp
  have f14: "dropWhile (\<lambda>c. c \<noteq> CHR ''}'') r7 = CHR ''}'' # r8"
    unfolding r7_def by (rule dropWhile_all_stop [OF nb]) simp
  have f15: "lit ''}'' (CHR ''}'' # r8) = Some r8" using lit_append [of "''}''" r8] by simp
  have f16: "skip_ws r8 = CHR ''}'' # T" unfolding r8_def by (rule skip_ws_spaces [OF W sp(6)])
  have f17: "lit ''}'' (CHR ''}'' # T) = Some T" using lit_append [of "''}''" T] by simp
  have whole: "s = (''@media (prefers-color-scheme: dark) {'' @ wsA @ '':root'' @ wsB @ ''{'' @
      body @ ''}'' @ W @ ''}'') @ T"
    by (simp add: s_def r4_def r5_def r6_def r7_def r8_def)
  have cut: "matched_of s T = ''@media (prefers-color-scheme: dark) {'' @ wsA @ '':root'' @
      wsB @ ''{'' @ body @ ''}'' @ W @ ''}''"
    unfolding whole by (rule matched_of_cut)
  have "match_dark_section pre s = Some (matched_of s T, [body], T)"
    unfolding match_dark_section_def
    by (simp only: f1 f2 f3 f4 f5 f6 f7 f8 f9 f10 f11 f12 f13 f14 f15 f16 f17 Option.bind.simps
        option.case Let_def body(2) if_False)
  then show ?thesis unfolding cut unfolding whole by simp
qed

lemma match_dark_section_nogroup_block:
  assumes "list_all is_space wsA" and "list_all is_space wsB" and "list_all is_space W"
    and "CHR ''}'' \<notin> set body" "body \<noteq> []"
  shows "match_dark_section_nogroup pre
           (''@media (prefers-color-scheme: dark) {'' @ wsA @ '':root'' @ wsB @ ''{'' @ body @
            ''}'' @ W @ ''}'' @ T) =
         Some (''@media (prefers-color-scheme: dark) {'' @ wsA @ '':root'' @ wsB @ ''{'' @ body @
               ''}'' @ W @ ''}'', [], T)"
  unfolding match_dark_section_nogroup_def match_dark_section_block [OF assms] by simp

lemma no_at_sign_nogroup:
  assumes "CHR ''@'' \<notin> set A" and "i < length A"
  shows "match_dark_section_nogroup p (drop i A @ S) = None"
  unfolding match_dark_section_nogroup_def no_at_sign [OF assms] by simp

subsection \<open>The two tints in the shadows file\<close>

lemma occurs_append_right: "occurs l B \<Longrightarrow> occurs l (A @ B)"
  by (induction A) auto

lemma startsWith_append: "startsWith s l \<Longrightarrow> startsWith (s @ t) l"
proof -
  assume "startsWith s l"
  then have t: "take (length l) s = l" by (simp add: startsWith_def)
  have "length (take (length l) s) = min (length l) (length s)" by simp
  then have "length l \<le> length s" unfolding t by simp
  with t show ?thesis by (simp add: startsWith_def)
qed

lemma occurs_append_left: "occurs l A \<Longrightarrow> occurs l (A @ B)"
proof (induction A)
  case Nil
  then show ?case by (cases B) (simp_all add: startsWith_def)
next
  case (Cons a A)
  then show ?case using startsWith_append [of "a # A" l B] by auto
qed

lemma search_first_hit: "m pre s = Some r \<Longrightarrow> search_first m pre s = Some r"
  by (cases s) auto

lemma replace_first_hit:
  "m pre s = Some (matched, caps, rest) \<Longrightarrow>
     replace_first m tmpl pre s = getSubstitution matched pre rest caps tmpl @ rest"
  by (cases s) auto

lemma space_not_special:
  "is_space c \<Longrightarrow> c \<noteq> CHR ''@'' \<and> c \<noteq> CHR ''}'' \<and> c \<noteq> CHR ''$''"
  by (auto simp: is_space_def)

lemma digit_not_special:
  "is_digit c \<Longrightarrow> c \<noteq> CHR ''@'' \<and> c \<noteq> CHR ''}'' \<and> c \<noteq> CHR ''$''"
  by (auto simp: is_digit_def decDigits_def)

lemma spaces_not_special:
  assumes "list_all is_space ws"
  shows "CHR ''@'' \<notin> set ws" "CHR ''}'' \<notin> set ws" "CHR ''$'' \<notin> set ws"
  using assms space_not_special by (auto simp: list_all_iff)

lemma digits_not_special:
  assumes "list_all is_digit h"
  shows "CHR ''@'' \<notin> set h" "CHR ''}'' \<notin> set h" "CHR ''$'' \<notin> set h"
  using assms digit_not_special by (auto simp: list_all_iff)

lemma hue_digits:
  assumes "0 \<le> k"
  shows "list_all is_digit (int_to_string k)" "int_to_string k \<noteq> []"
  using assms nat_to_string_digits [of "nat k"] by (simp_all add: int_to_string_def)

lemma tint_literals:
  "list_all is_tint_char '' 10% 15%''" "list_all is_tint_char '' 30% 5%''"
  by (simp_all add: is_tint_char_def is_space_def is_digit_def decDigits_def)

lemma injectShadowColor_steps:
  assumes "replace_global match_shadow_color (''$1'' @ int_to_string (Math_round H) @ '' 10% 15%;'')
             [] css = css1"
    and "search_first match_dark_section [] css1 = Some (matched, caps, rest)"
    and "replace_global match_shadow_color (''$1'' @ int_to_string (Math_round H) @ '' 30% 5%;'')
           [] (caps ! 0) = dc"
    and "replace_first match_dark_section_nogroup
           (''[data-theme='' @ [CHR 0x22] @ ''dark'' @ [CHR 0x22] @ ''] {'' @ dc @ ''}'' @
            [CHR 0x0A, CHR 0x0A] @ ''@media (prefers-color-scheme: dark) {'' @ [CHR 0x0A] @
            ''  :root:not([data-theme='' @ [CHR 0x22] @ ''light'' @ [CHR 0x22] @ '']) {'' @
            dc @ ''}'' @ [CHR 0x0A] @ ''}'') [] css1 = out"
  shows "injectShadowColor css H = out"
  using assms by (simp add: injectShadowColor_def Let_def del: replace_global.simps)

lemma injectShadowColor_shape:
  fixes H :: real
  assumes hue: "0 \<le> Math_round H"
    and ws1: "list_all is_space ws1" and ws2: "list_all is_space ws2"
    and wsA: "list_all is_space wsA" and wsB: "list_all is_space wsB"
    and W: "list_all is_space W"
    and v1: "list_all is_tint_char v1" "v1 \<noteq> []" "\<not> is_space (hd v1)"
    and v2: "list_all is_tint_char v2" "v2 \<noteq> []" "\<not> is_space (hd v2)"
    and o1: "\<not> occurs ''--shadow-color:'' P"
    and o2: "\<not> occurs ''--shadow-color:''
               (Q @ ''@media (prefers-color-scheme: dark) {'' @ wsA @ '':root'' @ wsB @ ''{'' @ D1)"
    and o3: "\<not> occurs ''--shadow-color:'' (D2 @ ''}'' @ W @ ''}'' @ T)"
    and at: "CHR ''@'' \<notin> set P" "CHR ''@'' \<notin> set Q"
    and br: "CHR ''}'' \<notin> set D1" "CHR ''}'' \<notin> set D2"
    and dl: "CHR ''$'' \<notin> set D1" "CHR ''$'' \<notin> set D2"
  shows "injectShadowColor
           (P @ ''--shadow-color:'' @ ws1 @ v1 @ '';'' @ Q @
            ''@media (prefers-color-scheme: dark) {'' @ wsA @ '':root'' @ wsB @ ''{'' @
            D1 @ ''--shadow-color:'' @ ws2 @ v2 @ '';'' @ D2 @ ''}'' @ W @ ''}'' @ T) H =
         P @ ''--shadow-color:'' @ ws1 @ int_to_string (Math_round H) @ '' 10% 15%;'' @ Q @
         ''[data-theme='' @ [CHR 0x22] @ ''dark'' @ [CHR 0x22] @ ''] {'' @
         D1 @ ''--shadow-color:'' @ ws2 @ int_to_string (Math_round H) @ '' 30% 5%;'' @ D2 @
         ''}'' @ [CHR 0x0A, CHR 0x0A] @
         ''@media (prefers-color-scheme: dark) {'' @ [CHR 0x0A] @
         ''  :root:not([data-theme='' @ [CHR 0x22] @ ''light'' @ [CHR 0x22] @ '']) {'' @
         D1 @ ''--shadow-color:'' @ ws2 @ int_to_string (Math_round H) @ '' 30% 5%;'' @ D2 @
         ''}'' @ [CHR 0x0A] @ ''}'' @ T"
proof -
  define L where "L = ''--shadow-color:''"
  define h where "h = int_to_string (Math_round H)"
  define MH where "MH = ''@media (prefers-color-scheme: dark) {'' @ wsA @ '':root'' @ wsB @ ''{''"
  define X2 where "X2 = Q @ MH @ D1"
  define X3 where "X3 = D2 @ ''}'' @ W @ ''}'' @ T"
  define light where "light = h @ '' 10% 15%''"
  define body where "body = D1 @ L @ ws2 @ light @ '';'' @ D2"
  define dc where "dc = D1 @ L @ ws2 @ h @ '' 30% 5%;'' @ D2"
  define Pre where "Pre = P @ L @ ws1 @ h @ '' 10% 15%;'' @ Q"
  define css1 where "css1 = Pre @ MH @ body @ ''}'' @ W @ ''}'' @ T"
  define repl where "repl =
      ''[data-theme='' @ [CHR 0x22] @ ''dark'' @ [CHR 0x22] @ ''] {'' @ dc @ ''}'' @
      [CHR 0x0A, CHR 0x0A] @ ''@media (prefers-color-scheme: dark) {'' @ [CHR 0x0A] @
      ''  :root:not([data-theme='' @ [CHR 0x22] @ ''light'' @ [CHR 0x22] @ '']) {'' @
      dc @ ''}'' @ [CHR 0x0A] @ ''}''"
  define css where "css = P @ L @ ws1 @ v1 @ '';'' @ (X2 @ L @ ws2 @ v2 @ '';'' @ X3)"
  note hd = hue_digits [OF hue, folded h_def]
  have oX2: "\<not> occurs ''--shadow-color:'' X2" using o2 by (simp add: X2_def MH_def)
  have oX3: "\<not> occurs ''--shadow-color:'' X3" using o3 by (simp add: X3_def)
  have oD1: "\<not> occurs ''--shadow-color:'' D1"
    using oX2 occurs_append_right [of "''--shadow-color:''" D1 "Q @ MH"] by (auto simp: X2_def)
  have oD2: "\<not> occurs ''--shadow-color:'' D2"
    using oX3 occurs_append_left [of "''--shadow-color:''" D2 "''}'' @ W @ ''}'' @ T"]
    by (auto simp: X3_def)
  have tl: "CHR ''$'' \<notin> set '' 10% 15%;''" "CHR ''$'' \<notin> set '' 30% 5%;''" by simp_all

  have s1a: "replace_global match_shadow_color (''$1'' @ h @ '' 10% 15%;'') [] css =
      P @ L @ ws1 @ h @ '' 10% 15%;'' @
      replace_global match_shadow_color (''$1'' @ h @ '' 10% 15%;'')
        ([] @ P @ L @ ws1 @ v1 @ '';'') (X2 @ L @ ws2 @ v2 @ '';'' @ X3)"
    unfolding L_def css_def by (rule shadow_replace_decl [OF o1 ws1 v1 hd tl(1)])
  have s1b: "replace_global match_shadow_color (''$1'' @ h @ '' 10% 15%;'') p
      (X2 @ L @ ws2 @ v2 @ '';'' @ X3) =
      X2 @ L @ ws2 @ h @ '' 10% 15%;'' @
      replace_global match_shadow_color (''$1'' @ h @ '' 10% 15%;'')
        (p @ X2 @ L @ ws2 @ v2 @ '';'') X3" for p
    unfolding L_def by (rule shadow_replace_decl [OF oX2 ws2 v2 hd tl(1)])
  have s1c: "replace_global match_shadow_color t p X3 = X3" for t p
    by (rule shadow_skip_all [OF oX3])
  have step1: "replace_global match_shadow_color
      (''$1'' @ int_to_string (Math_round H) @ '' 10% 15%;'') [] css = css1"
    unfolding h_def [symmetric] s1a s1b s1c
    by (simp add: css1_def Pre_def body_def light_def X2_def X3_def)

  have atPre: "CHR ''@'' \<notin> set Pre"
    using at spaces_not_special(1) [OF ws1] digits_not_special(1) [OF hd(1)]
    by (simp add: Pre_def L_def)
  have brBody: "CHR ''}'' \<notin> set body"
    using br spaces_not_special(2) [OF ws2] digits_not_special(2) [OF hd(1)]
    by (simp add: body_def L_def light_def)
  have neBody: "body \<noteq> []" by (simp add: body_def L_def)
  let ?block = "MH @ body @ ''}'' @ W @ ''}''"
  have mt: "match_dark_section Pre (?block @ T) = Some (?block, [body], T)"
    using match_dark_section_block [OF wsA wsB W brBody neBody, of Pre T] by (simp add: MH_def)
  have mtn: "match_dark_section_nogroup Pre (?block @ T) = Some (?block, [], T)"
    using match_dark_section_nogroup_block [OF wsA wsB W brBody neBody, of Pre T]
    by (simp add: MH_def)
  have css1_eq: "css1 = Pre @ (?block @ T)" by (simp add: css1_def)
  have "search_first match_dark_section [] (Pre @ (?block @ T)) =
      search_first match_dark_section ([] @ Pre) (?block @ T)"
    by (rule search_first_skip [where m = match_dark_section]) (rule no_at_sign [OF atPre])
  with search_first_hit [where m = match_dark_section, OF mt]
  have step2: "search_first match_dark_section [] css1 = Some (?block, [body], T)"
    unfolding css1_eq by simp

  have lt: "list_all is_tint_char light" "light \<noteq> []" "\<not> is_space (hd light)"
  proof -
    have "list_all is_tint_char h" using hd(1) tint_chars(2) by (auto simp: list_all_iff)
    with tint_literals(1) show "list_all is_tint_char light" by (simp add: light_def)
    show "light \<noteq> []" using hd(2) by (simp add: light_def)
    have "is_digit (hd h)" using hd by (cases h) auto
    then show "\<not> is_space (hd light)" using hd(2) tint_chars(4) by (simp add: light_def)
  qed
  have "replace_global match_shadow_color (''$1'' @ h @ '' 30% 5%;'') []
      (D1 @ ''--shadow-color:'' @ ws2 @ light @ '';'' @ D2) =
      D1 @ ''--shadow-color:'' @ ws2 @ h @ '' 30% 5%;'' @
      replace_global match_shadow_color (''$1'' @ h @ '' 30% 5%;'')
        ([] @ D1 @ ''--shadow-color:'' @ ws2 @ light @ '';'') D2"
    by (rule shadow_replace_decl [OF oD1 ws2 lt hd tl(2)])
  then have step3: "replace_global match_shadow_color
      (''$1'' @ int_to_string (Math_round H) @ '' 30% 5%;'') [] ([body] ! 0) = dc"
    unfolding shadow_skip_all [OF oD2] h_def [symmetric] by (simp add: body_def dc_def L_def)

  have dlc: "CHR ''$'' \<notin> set dc"
    using dl spaces_not_special(3) [OF ws2] digits_not_special(3) [OF hd(1)]
    by (simp add: dc_def L_def)
  then have dlr: "CHR ''$'' \<notin> set repl" by (simp add: repl_def)
  have "replace_first match_dark_section_nogroup repl [] (Pre @ (?block @ T)) =
      Pre @ replace_first match_dark_section_nogroup repl ([] @ Pre) (?block @ T)"
    by (rule replace_first_skip [where m = match_dark_section_nogroup])
       (rule no_at_sign_nogroup [OF atPre])
  with replace_first_hit [where m = match_dark_section_nogroup, OF mtn, of repl]
    getSubstitution_plain_all [OF dlr, of ?block Pre T "[]"]
  have step4: "replace_first match_dark_section_nogroup repl [] css1 = Pre @ repl @ T"
    unfolding css1_eq by simp
  have "injectShadowColor css H = Pre @ repl @ T"
    using injectShadowColor_steps [OF step1 step2 step3 step4 [unfolded repl_def]]
    by (simp add: repl_def)
  then show ?thesis
    by (simp add: css_def Pre_def repl_def dc_def L_def h_def X2_def X3_def MH_def)
qed

text \<open>
  Claim C2. Let the shadows file, after the structural rewriting of the adapter (imports
  removed, \<open>:where(html)\<close> and \<open>@media (--OSdark)\<close> rewritten), consist of a root part with
  one \<open>--shadow-color\<close> declaration and of a dark-mode block
  \<open>@media (prefers-color-scheme: dark) { :root { ... } }\<close> with one \<open>--shadow-color\<close>
  declaration, with no other \<open>--shadow-color:\<close> in the text, no \<open>@\<close> before the dark-mode
  block, and no dollar sign in the body of the dark-mode block; the two declared values
  are made of digits, white space and percent signs. Then, for a seed hue \<open>H\<close> whose
  rounding is not negative, the adapter returns the text in which the root declaration
  has the light tint \<open>round(H) 10% 15%\<close>, and in which the body of the dark-mode block, with
  its declaration set to the dark tint \<open>round(H) 30% 5%\<close>, stands once under the selector
  \<open>[data-theme="dark"]\<close> and once under \<open>:root:not([data-theme="light"])\<close> inside
  \<open>@media (prefers-color-scheme: dark)\<close>; the text around is unchanged, up to the final trim.
\<close>

theorem shadows_light_and_dark_tints:
  fixes H :: real
  assumes "replace_global match_os_dark ''@media (prefers-color-scheme: dark) {'' []
             (replace_global match_where_html '':root'' []
               (replace_global match_import [] [] css)) =
           P @ ''--shadow-color:'' @ ws1 @ v1 @ '';'' @ Q @
           ''@media (prefers-color-scheme: dark) {'' @ wsA @ '':root'' @ wsB @ ''{'' @
           D1 @ ''--shadow-color:'' @ ws2 @ v2 @ '';'' @ D2 @ ''}'' @ W @ ''}'' @ T"
    and "0 \<le> Math_round H"
    and "list_all is_space ws1" and "list_all is_space ws2"
    and "list_all is_space wsA" and "list_all is_space wsB" and "list_all is_space W"
    and "list_all is_tint_char v1" and "v1 \<noteq> []" and "\<not> is_space (hd v1)"
    and "list_all is_tint_char v2" and "v2 \<noteq> []" and "\<not> is_space (hd v2)"
    and "\<not> occurs ''--shadow-color:'' P"
    and "\<not> occurs ''--shadow-color:''
           (Q @ ''@media (prefers-color-scheme: dark) {'' @ wsA @ '':root'' @ wsB @ ''{'' @ D1)"
    and "\<not> occurs ''--shadow-color:'' (D2 @ ''}'' @ W @ ''}'' @ T)"
    and "CHR ''@'' \<notin> set P" and "CHR ''@'' \<notin> set Q"
    and "CHR ''}'' \<notin> set D1" and "CHR ''}'' \<notin> set D2"
    and "CHR ''$'' \<notin> set D1" and "CHR ''$'' \<notin> set D2"
  shows "transformOpenPropsCSS css ''shadows'' H =
         trim
          (P @ ''--shadow-color:'' @ ws1 @ int_to_string (Math_round H) @ '' 10% 15%;'' @ Q @
           ''[data-theme='' @ [CHR 0x22] @ ''dark'' @ [CHR 0x22] @ ''] {'' @
           D1 @ ''--shadow-color:'' @ ws2 @ int_to_string (Math_round H) @ '' 30% 5%;'' @ D2 @
           ''}'' @ [CHR 0x0A, CHR 0x0A] @
           ''@media (prefers-color-scheme: dark) {'' @ [CHR 0x0A] @
           ''  :root:not([data-theme='' @ [CHR 0x22] @ ''light'' @ [CHR 0x22] @ '']) {'' @
           D1 @ ''--shadow-color:'' @ ws2 @ int_to_string (Math_round H) @ '' 30% 5%;'' @ D2 @
           ''}'' @ [CHR 0x0A] @ ''}'' @ T)"
proof -
  have "transformOpenPropsCSS css ''shadows'' H =
      trim (injectShadowColor
        (replace_global match_os_dark ''@media (prefers-color-scheme: dark) {'' []
          (replace_global match_where_html '':root'' []
            (replace_global match_import [] [] css))) H)"
    by (simp add: transformOpenPropsCSS_def Let_def del: replace_global.simps)
  then show ?thesis
    unfolding assms(1) injectShadowColor_shape [OF assms(2-)] .
qed

theorem shadows_light_and_dark_tints_witness:
  "transformOpenPropsCSS shadows_sample ''shadows'' (2173 / 10) =
     '':root {'' @ [CHR 0x0A] @
     ''  --shadow-color: 217 10% 15%;'' @ [CHR 0x0A] @
     ''  --shadow-strength: 1%;'' @ [CHR 0x0A] @
     ''  --shadow-1: 0 1px 2px -1px hsl(var(--shadow-color) / calc(var(--shadow-strength) + 9%));'' @
     [CHR 0x0A] @
     ''}'' @ [CHR 0x0A, CHR 0x0A] @
     ''[data-theme='' @ [CHR 0x22] @ ''dark'' @ [CHR 0x22] @ ''] {'' @ [CHR 0x0A] @
     ''    --shadow-color: 217 30% 5%;'' @ [CHR 0x0A] @
     ''    --shadow-strength: 25%;'' @ [CHR 0x0A] @
     ''  }'' @ [CHR 0x0A, CHR 0x0A] @
     ''@media (prefers-color-scheme: dark) {'' @ [CHR 0x0A] @
     ''  :root:not([data-theme='' @ [CHR 0x22] @ ''light'' @ [CHR 0x22] @ '']) {'' @ [CHR 0x0A] @
     ''    --shadow-color: 217 30% 5%;'' @ [CHR 0x0A] @
     ''    --shadow-strength: 25%;'' @ [CHR 0x0A] @
     ''  }'' @ [CHR 0x0A] @
     ''}''"
proof -
  let ?P = "'':root {'' @ [CHR 0x0A] @ ''  ''"
  let ?Q = "[CHR 0x0A] @ ''  --shadow-strength: 1%;'' @ [CHR 0x0A] @
     ''  --shadow-1: 0 1px 2px -1px hsl(var(--shadow-color) / calc(var(--shadow-strength) + 9%));'' @
     [CHR 0x0A] @ ''}'' @ [CHR 0x0A, CHR 0x0A]"
  let ?wsA = "[CHR 0x0A] @ ''  ''"
  let ?D1 = "[CHR 0x0A] @ ''    ''"
  let ?D2 = "[CHR 0x0A] @ ''    --shadow-strength: 25%;'' @ [CHR 0x0A] @ ''  ''"
  have shape: "replace_global match_os_dark ''@media (prefers-color-scheme: dark) {'' []
      (replace_global match_where_html '':root'' []
        (replace_global match_import [] [] shadows_sample)) =
      ?P @ ''--shadow-color:'' @ '' '' @ ''220 3% 15%'' @ '';'' @ ?Q @
      ''@media (prefers-color-scheme: dark) {'' @ ?wsA @ '':root'' @ '' '' @ ''{'' @
      ?D1 @ ''--shadow-color:'' @ '' '' @ ''220 40% 2%'' @ '';'' @ ?D2 @ ''}'' @ [CHR 0x0A] @
      ''}'' @ [CHR 0x0A]"
    by code_simp
  have hue: "0 \<le> Math_round (2173 / 10)" by (simp add: Math_round_def)
  have sp: "list_all is_space '' ''" "list_all is_space ?wsA" "list_all is_space [CHR 0x0A]"
    by (simp_all add: is_space_def)
  have v1: "list_all is_tint_char ''220 3% 15%''" "''220 3% 15%'' \<noteq> []"
    "\<not> is_space (hd ''220 3% 15%'')"
    by (simp_all add: is_tint_char_def is_space_def is_digit_def decDigits_def)
  have v2: "list_all is_tint_char ''220 40% 2%''" "''220 40% 2%'' \<noteq> []"
    "\<not> is_space (hd ''220 40% 2%'')"
    by (simp_all add: is_tint_char_def is_space_def is_digit_def decDigits_def)
  have o1: "\<not> occurs ''--shadow-color:'' ?P" by code_simp
  have o2: "\<not> occurs ''--shadow-color:''
      (?Q @ ''@media (prefers-color-scheme: dark) {'' @ ?wsA @ '':root'' @ '' '' @ ''{'' @ ?D1)"
    by code_simp
  have o3: "\<not> occurs ''--shadow-color:'' (?D2 @ ''}'' @ [CHR 0x0A] @ ''}'' @ [CHR 0x0A])"
    by code_simp
  have at: "CHR ''@'' \<notin> set ?P" "CHR ''@'' \<notin> set ?Q" by simp_all
  have br: "CHR ''}'' \<notin> set ?D1" "CHR ''}'' \<notin> set ?D2" by simp_all
  have dl: "CHR ''$'' \<notin> set ?D1" "CHR ''$'' \<notin> set ?D2" by simp_all
  note T = shadows_light_and_dark_tints [OF shape hue sp(1) sp(1) sp(2) sp(1) sp(3)
      v1 v2 o1 o2 o3 at br dl]
  show ?thesis unfolding T by code_simp
qed

end
